theory Spec2Isabelle
  imports Main "HOL-Library.Word" "HOL-Library.Sublist"
begin

section \<open>JavaScript strings\<close>

text \<open>
  A JavaScript string is a sequence of UTF-16 code units. String literals of the source
  are written \<open>js ''...''\<close>; the empty string is the empty list.
\<close>

type_synonym jschar = "16 word"
type_synonym jsstring = "jschar list"

definition js :: "string \<Rightarrow> jsstring" where
  "js s = map of_char s"

text \<open>
  \<open>str.replace(/c/g, r)\<close> for a regular expression that is a single literal code unit
  \<open>c\<close> with the global flag: every occurrence of \<open>c\<close> is replaced by \<open>r\<close>, from left to
  right, and the replacement text is not scanned again. None of the replacement strings of
  the serializer contains \<open>$\<close>, so no replacement pattern is expanded.
\<close>

definition replace_g :: "jschar \<Rightarrow> jsstring \<Rightarrow> jsstring \<Rightarrow> jsstring" where
  "replace_g c r str = concat (map (\<lambda>x. if x = c then r else [x]) str)"

section \<open>Serializer: \<open>packages/parse5/lib/serializer/index.ts\<close>\<close>

subsection \<open>Escaping regexes\<close>

definition AMP_REGEX :: jschar where "AMP_REGEX = 0x26"
definition NBSP_REGEX :: jschar where "NBSP_REGEX = 0xA0"
definition DOUBLE_QUOTE_REGEX :: jschar where "DOUBLE_QUOTE_REGEX = 0x22"
definition LT_REGEX :: jschar where "LT_REGEX = 0x3C"
definition GT_REGEX :: jschar where "GT_REGEX = 0x3E"

definition escapeString :: "jsstring \<Rightarrow> bool \<Rightarrow> jsstring" where
  "escapeString str attrMode =
     (let str1 = replace_g NBSP_REGEX (js ''&nbsp;'') (replace_g AMP_REGEX (js ''&amp;'') str)
      in if attrMode
         then replace_g DOUBLE_QUOTE_REGEX (js ''&quot;'') str1
         else replace_g GT_REGEX (js ''&gt;'') (replace_g LT_REGEX (js ''&lt;'') str1))"

subsection \<open>Imported constants\<close>

text \<open>
  Modelled from the spec: the \<open>TAG_NAMES\<close> table (imported as \<open>$\<close> from
  \<open>../common/html.js\<close>) is not among the sources. Each constant is the lower-case tag name
  that the specification lists for it.
\<close>

definition TN_AREA :: jsstring where "TN_AREA = js ''area''"
definition TN_BASE :: jsstring where "TN_BASE = js ''base''"
definition TN_BASEFONT :: jsstring where "TN_BASEFONT = js ''basefont''"
definition TN_BGSOUND :: jsstring where "TN_BGSOUND = js ''bgsound''"
definition TN_BR :: jsstring where "TN_BR = js ''br''"
definition TN_COL :: jsstring where "TN_COL = js ''col''"
definition TN_EMBED :: jsstring where "TN_EMBED = js ''embed''"
definition TN_FRAME :: jsstring where "TN_FRAME = js ''frame''"
definition TN_HR :: jsstring where "TN_HR = js ''hr''"
definition TN_IMG :: jsstring where "TN_IMG = js ''img''"
definition TN_INPUT :: jsstring where "TN_INPUT = js ''input''"
definition TN_KEYGEN :: jsstring where "TN_KEYGEN = js ''keygen''"
definition TN_LINK :: jsstring where "TN_LINK = js ''link''"
definition TN_META :: jsstring where "TN_META = js ''meta''"
definition TN_PARAM :: jsstring where "TN_PARAM = js ''param''"
definition TN_SOURCE :: jsstring where "TN_SOURCE = js ''source''"
definition TN_TRACK :: jsstring where "TN_TRACK = js ''track''"
definition TN_WBR :: jsstring where "TN_WBR = js ''wbr''"
definition TN_STYLE :: jsstring where "TN_STYLE = js ''style''"
definition TN_SCRIPT :: jsstring where "TN_SCRIPT = js ''script''"
definition TN_XMP :: jsstring where "TN_XMP = js ''xmp''"
definition TN_IFRAME :: jsstring where "TN_IFRAME = js ''iframe''"
definition TN_NOEMBED :: jsstring where "TN_NOEMBED = js ''noembed''"
definition TN_NOFRAMES :: jsstring where "TN_NOFRAMES = js ''noframes''"
definition TN_PLAINTEXT :: jsstring where "TN_PLAINTEXT = js ''plaintext''"
definition TN_NOSCRIPT :: jsstring where "TN_NOSCRIPT = js ''noscript''"
definition TN_TEMPLATE :: jsstring where "TN_TEMPLATE = js ''template''"

text \<open>
  The \<open>NAMESPACES\<close> table (imported as \<open>NS\<close> from \<open>../common/html.js\<close>) is not among the
  sources either, and the specification does not give its values: the serializer takes it
  as a parameter, and every result below holds for any table.
\<close>

record Namespaces =
  NS_HTML :: jsstring
  NS_XML :: jsstring
  NS_XMLNS :: jsstring
  NS_XLINK :: jsstring

subsection \<open>Tree adapter and options\<close>

text \<open>
  An attribute as the tree adapter's \<open>getAttrList\<close> returns it: \<open>namespace\<close> and \<open>prefix\<close>
  are optional properties.
\<close>

record Attribute =
  attr_name :: jsstring
  attr_value :: jsstring
  attr_namespace :: "jsstring option"
  attr_prefix :: "jsstring option"

text \<open>
  The \<open>TreeAdapter\<close> interface (\<open>../tree-adapters/interface\<close>) is a parameter of the
  serializer: a record of the operations the serializer calls, over any type \<open>'n\<close> of nodes.
  \<open>getChildNodes\<close> may return nothing (the source tests \<open>if (childNodes)\<close>), and
  \<open>getParentNode\<close> returns \<open>null\<close> for a node without parent.
\<close>

record 'n TreeAdapter =
  isElementNode :: "'n \<Rightarrow> bool"
  isTextNode :: "'n \<Rightarrow> bool"
  isCommentNode :: "'n \<Rightarrow> bool"
  isDocumentTypeNode :: "'n \<Rightarrow> bool"
  getNamespaceURI :: "'n \<Rightarrow> jsstring"
  getTagName :: "'n \<Rightarrow> jsstring"
  getTemplateContent :: "'n \<Rightarrow> 'n"
  getChildNodes :: "'n \<Rightarrow> 'n list option"
  getAttrList :: "'n \<Rightarrow> Attribute list"
  getTextNodeContent :: "'n \<Rightarrow> jsstring"
  getParentNode :: "'n \<Rightarrow> 'n option"
  getCommentNodeContent :: "'n \<Rightarrow> jsstring"
  getDocumentTypeNodeName :: "'n \<Rightarrow> jsstring"

record 'n SerializerOptions =
  opt_treeAdapter :: "'n TreeAdapter option"
  opt_scriptingEnabled :: "bool option"

record 'n InternalOptions =
  treeAdapter :: "'n TreeAdapter"
  scriptingEnabled :: bool

text \<open>
  \<open>{ ...defaultOpts, ...options }\<close>: a property that \<open>options\<close> has replaces the default.
  The default tree adapter (\<open>../tree-adapters/default.js\<close>) is a parameter.
\<close>

definition defaultOpts :: "'n TreeAdapter \<Rightarrow> 'n InternalOptions" where
  "defaultOpts DefaultTreeAdapter =
     \<lparr>treeAdapter = DefaultTreeAdapter, scriptingEnabled = True\<rparr>"

definition mergeOpts :: "'n InternalOptions \<Rightarrow> 'n SerializerOptions option \<Rightarrow> 'n InternalOptions" where
  "mergeOpts dflt options =
     (case options of
        None \<Rightarrow> dflt
      | Some opts \<Rightarrow>
          \<lparr>treeAdapter = (case opt_treeAdapter opts of None \<Rightarrow> treeAdapter dflt | Some ta \<Rightarrow> ta),
           scriptingEnabled =
             (case opt_scriptingEnabled opts of None \<Rightarrow> scriptingEnabled dflt | Some b \<Rightarrow> b)\<rparr>)"

subsection \<open>Sets\<close>

definition VOID_ELEMENTS :: "jsstring set" where
  "VOID_ELEMENTS =
     {TN_AREA, TN_BASE, TN_BASEFONT, TN_BGSOUND, TN_BR, TN_COL, TN_EMBED, TN_FRAME, TN_HR,
      TN_IMG, TN_INPUT, TN_KEYGEN, TN_LINK, TN_META, TN_PARAM, TN_SOURCE, TN_TRACK, TN_WBR}"

definition isVoidElement :: "Namespaces \<Rightarrow> 'n \<Rightarrow> 'n InternalOptions \<Rightarrow> bool" where
  "isVoidElement NS node options \<longleftrightarrow>
     isElementNode (treeAdapter options) node \<and>
     getNamespaceURI (treeAdapter options) node = NS_HTML NS \<and>
     getTagName (treeAdapter options) node \<in> VOID_ELEMENTS"

definition UNESCAPED_TEXT :: "jsstring set" where
  "UNESCAPED_TEXT =
     {TN_STYLE, TN_SCRIPT, TN_XMP, TN_IFRAME, TN_NOEMBED, TN_NOFRAMES, TN_PLAINTEXT}"

definition hasUnescapedText :: "jsstring \<Rightarrow> bool \<Rightarrow> bool" where
  "hasUnescapedText tn scriptingEnabled' \<longleftrightarrow>
     tn \<in> UNESCAPED_TEXT \<or> (scriptingEnabled' \<and> tn = TN_NOSCRIPT)"

subsection \<open>Serialization of the leaves\<close>

text \<open>
  One iteration of the loop of \<open>serializeAttributes\<close>. \<open>!attr.namespace\<close> holds for a missing
  namespace and for the empty string; the \<open>switch\<close> compares in the order of its cases; an
  absent prefix is printed by the template literal as \<open>undefined\<close>.
\<close>

definition serializeAttribute :: "Namespaces \<Rightarrow> Attribute \<Rightarrow> jsstring" where
  "serializeAttribute NS attr =
     js '' '' @
     (case attr_namespace attr of
        None \<Rightarrow> attr_name attr
      | Some ns \<Rightarrow>
          if ns = [] then attr_name attr
          else if ns = NS_XML NS then js ''xml:'' @ attr_name attr
          else if ns = NS_XMLNS NS then
            (if attr_name attr \<noteq> js ''xmlns'' then js ''xmlns:'' else []) @ attr_name attr
          else if ns = NS_XLINK NS then js ''xlink:'' @ attr_name attr
          else (case attr_prefix attr of None \<Rightarrow> js ''undefined'' | Some p \<Rightarrow> p) @
               js '':'' @ attr_name attr) @
     js ''=\"'' @ escapeString (attr_value attr) True @ js ''\"''"

definition serializeAttributes :: "Namespaces \<Rightarrow> 'n \<Rightarrow> 'n InternalOptions \<Rightarrow> jsstring" where
  "serializeAttributes NS node options =
     foldl (\<lambda>html attr. html @ serializeAttribute NS attr) []
       (getAttrList (treeAdapter options) node)"

definition serializeTextNode :: "Namespaces \<Rightarrow> 'n \<Rightarrow> 'n InternalOptions \<Rightarrow> jsstring" where
  "serializeTextNode NS node options =
     (let ta = treeAdapter options;
          content = getTextNodeContent ta node;
          parent = getParentNode ta node
      in case parent of
           None \<Rightarrow> escapeString content False
         | Some p \<Rightarrow>
             if \<not> isElementNode ta p then escapeString content False
             else
               let parentTn = getTagName ta p
               in if parentTn \<noteq> [] \<and>
                     getNamespaceURI ta p = NS_HTML NS \<and>
                     hasUnescapedText parentTn (scriptingEnabled options)
                  then content
                  else escapeString content False)"

definition serializeCommentNode :: "'n \<Rightarrow> 'n InternalOptions \<Rightarrow> jsstring" where
  "serializeCommentNode node options =
     js ''<!--'' @ getCommentNodeContent (treeAdapter options) node @ js ''-->''"

definition serializeDocumentTypeNode :: "'n \<Rightarrow> 'n InternalOptions \<Rightarrow> jsstring" where
  "serializeDocumentTypeNode node options =
     js ''<!DOCTYPE '' @ getDocumentTypeNodeName (treeAdapter options) node @ js ''>''"

subsection \<open>The traversal\<close>

text \<open>
  \<open>serializeNode\<close>, \<open>serializeElement\<close> and \<open>serializeChildNodes\<close> call each other, and
  nothing in the tree adapter's interface makes the child relation well-founded. The model
  counts the nesting of \<open>serializeNode\<close> calls down from a bound \<open>fuel\<close>; \<open>None\<close> is the
  traversal that has not returned within the bound. \<open>serializeEach\<close> is the \<open>for\<close> loop of
  \<open>serializeChildNodes\<close>, with the string \<open>html\<close> built so far.
\<close>

fun serializeNode :: "nat \<Rightarrow> Namespaces \<Rightarrow> 'n \<Rightarrow> 'n InternalOptions \<Rightarrow> jsstring option"
  and serializeElement :: "nat \<Rightarrow> Namespaces \<Rightarrow> 'n \<Rightarrow> 'n InternalOptions \<Rightarrow> jsstring option"
  and serializeChildNodes :: "nat \<Rightarrow> Namespaces \<Rightarrow> 'n \<Rightarrow> 'n InternalOptions \<Rightarrow> jsstring option"
  and serializeEach :: "nat \<Rightarrow> Namespaces \<Rightarrow> 'n list \<Rightarrow> 'n InternalOptions \<Rightarrow> jsstring \<Rightarrow> jsstring option"
where
  "serializeNode 0 NS node options = None"
| "serializeNode (Suc fuel) NS node options =
     (if isElementNode (treeAdapter options) node then serializeElement fuel NS node options
      else if isTextNode (treeAdapter options) node then Some (serializeTextNode NS node options)
      else if isCommentNode (treeAdapter options) node then Some (serializeCommentNode node options)
      else if isDocumentTypeNode (treeAdapter options) node
        then Some (serializeDocumentTypeNode node options)
      else Some [])"
| "serializeElement fuel NS node options =
     (let tn = getTagName (treeAdapter options) node;
          open_tag = js ''<'' @ tn @ serializeAttributes NS node options @ js ''>''
      in if isVoidElement NS node options then Some open_tag
         else case serializeChildNodes fuel NS node options of
                None \<Rightarrow> None
              | Some inner \<Rightarrow> Some (open_tag @ inner @ js ''</'' @ tn @ js ''>''))"
| "serializeChildNodes fuel NS parentNode options =
     (let container =
            (if isElementNode (treeAdapter options) parentNode \<and>
                getTagName (treeAdapter options) parentNode = TN_TEMPLATE \<and>
                getNamespaceURI (treeAdapter options) parentNode = NS_HTML NS
             then getTemplateContent (treeAdapter options) parentNode
             else parentNode)
      in case getChildNodes (treeAdapter options) container of
           None \<Rightarrow> Some []
         | Some childNodes \<Rightarrow> serializeEach fuel NS childNodes options [])"
| "serializeEach fuel NS [] options html = Some html"
| "serializeEach fuel NS (currentNode # rest) options html =
     (case serializeNode fuel NS currentNode options of
        None \<Rightarrow> None
      | Some s \<Rightarrow> serializeEach fuel NS rest options (html @ s))"

definition serialize ::
  "nat \<Rightarrow> Namespaces \<Rightarrow> 'n TreeAdapter \<Rightarrow> 'n \<Rightarrow> 'n SerializerOptions option \<Rightarrow> jsstring option" where
  "serialize fuel NS DefaultTreeAdapter node options =
     (let opts = mergeOpts (defaultOpts DefaultTreeAdapter) options
      in if isVoidElement NS node opts then Some [] else serializeChildNodes fuel NS node opts)"

definition serializeOuter ::
  "nat \<Rightarrow> Namespaces \<Rightarrow> 'n TreeAdapter \<Rightarrow> 'n \<Rightarrow> 'n SerializerOptions option \<Rightarrow> jsstring option" where
  "serializeOuter fuel NS DefaultTreeAdapter node options =
     (let opts = mergeOpts (defaultOpts DefaultTreeAdapter) options
      in serializeNode fuel NS node opts)"

section \<open>A small tree, for the examples\<close>

text \<open>
  A document \<open>0\<close> with one element \<open>1\<close> (\<open>div\<close>) that has three children: the element \<open>2\<close>
  (\<open>br\<close>, with one attribute), the text \<open>3\<close> and the element \<open>4\<close> (\<open>script\<close>), whose only
  child is the text \<open>5\<close>.
\<close>

definition demoNS :: Namespaces where
  "demoNS = \<lparr>NS_HTML = js ''http://www.w3.org/1999/xhtml'',
             NS_XML = js ''http://www.w3.org/XML/1998/namespace'',
             NS_XMLNS = js ''http://www.w3.org/2000/xmlns/'',
             NS_XLINK = js ''http://www.w3.org/1999/xlink''\<rparr>"

definition demoAdapter :: "nat TreeAdapter" where
  "demoAdapter =
     \<lparr>isElementNode = (\<lambda>n. n = 1 \<or> n = 2 \<or> n = 4),
      isTextNode = (\<lambda>n. n = 3 \<or> n = 5),
      isCommentNode = (\<lambda>n. False),
      isDocumentTypeNode = (\<lambda>n. False),
      getNamespaceURI = (\<lambda>n. js ''http://www.w3.org/1999/xhtml''),
      getTagName = (\<lambda>n. if n = 1 then js ''div'' else if n = 2 then js ''br'' else js ''script''),
      getTemplateContent = (\<lambda>n. n),
      getChildNodes =
        (\<lambda>n. if n = 0 then Some [1] else if n = 1 then Some [2, 3, 4]
             else if n = 4 then Some [5] else None),
      getAttrList =
        (\<lambda>n. if n = 2
             then [\<lparr>attr_name = js ''title'', attr_value = js ''a&b'',
                    attr_namespace = None, attr_prefix = None\<rparr>]
             else []),
      getTextNodeContent = (\<lambda>n. if n = 3 then js ''a<b'' else js ''x<y''),
      getParentNode =
        (\<lambda>n. if n = 0 then None else if n = 1 then Some 0 else if n = 5 then Some 4 else Some 1),
      getCommentNodeContent = (\<lambda>n. []),
      getDocumentTypeNodeName = (\<lambda>n. [])\<rparr>"

section \<open>Tokenizer and preprocessor\<close>

text \<open>
  The tokenizer and its preprocessor are not among the sources: only their location test
  is (\<open>test/utils/generate-serializer-tests.js\<close>, second part). Every definition of this
  section is modelled from the specification, and the test is the check that the model is
  the tokenizer the test exercises. What the specification leaves out is left out here
  too, and said where it matters: character references, the escape states of script data,
  and the public and system identifiers of a doctype have no rule in the specification and
  no state in the model.
\<close>

subsection \<open>Preprocessor\<close>

text \<open>
  Modelled from the spec: the preprocessor's line-ending normalization. \<open>"\r\n"\<close> and a
  lone \<open>"\r"\<close> become \<open>"\n"\<close>. A \<open>"\r"\<close> at the very end of the text is held back (the
  second component of the result) unless \<open>isLastChunk\<close> is set, in which case it is
  normalized at once. Each retained code point carries the number of characters of the
  input it stands for, 2 for a normalized \<open>"\r\n"\<close>: the locations of the test are offsets
  into the input as written (\<open>html.substring(startOffset, endOffset)\<close>).
\<close>


type_synonym item = "jschar \<times> nat"

definition CR :: jschar where "CR = 0x0D"
definition LF :: jschar where "LF = 0x0A"

fun normalizeNewlines :: "jsstring \<Rightarrow> bool \<Rightarrow> item list \<times> bool" where
  "normalizeNewlines [] isLastChunk = ([], False)"
| "normalizeNewlines [c] isLastChunk =
     (if c = CR then (if isLastChunk then ([(LF, 1)], False) else ([], True))
      else ([(c, 1)], False))"
| "normalizeNewlines (c # d # cs) isLastChunk =
     (if c = CR \<and> d = LF then
        (let (items, pending) = normalizeNewlines cs isLastChunk in ((LF, 2) # items, pending))
      else
        (let (items, pending) = normalizeNewlines (d # cs) isLastChunk
         in ((if c = CR then LF else c, 1) # items, pending)))"

text \<open>
  Modelled from the spec: a position of the preprocessor's cursor, the absolute offset
  with the 1-based line and column.
\<close>

record Position =
  offset :: nat
  line :: nat
  col :: nat

text \<open>
  Modelled from the spec: the preprocessor's buffer state. \<open>html\<close> is the retained buffer,
  \<open>bufferOffset\<close> the absolute offset of its first character, \<open>pos\<close> the read cursor (the
  index of the next code point), \<open>bufferWaterline\<close> the compaction watermark (the test
  sets \<open>tokenizer.preprocessor.bufferWaterline\<close>); \<open>pendingCR\<close> is the held-back \<open>"\r"\<close>.
\<close>

record Preprocessor =
  html :: "item list"
  pendingCR :: bool
  bufferOffset :: nat
  pos :: nat
  lineCounter :: nat
  columnCounter :: nat
  lastChunkWritten :: bool
  bufferWaterline :: nat

text \<open>
  Modelled from the spec: the absolute offset of the cursor is the offset of the buffer's
  first character plus the input characters that the consumed part of the buffer stands
  for.
\<close>

definition widthOf :: "item list \<Rightarrow> nat" where
  "widthOf items = sum_list (map snd items)"

definition position :: "Preprocessor \<Rightarrow> Position" where
  "position pp =
     \<lparr>offset = bufferOffset pp + widthOf (take (pos pp) (html pp)),
      line = lineCounter pp, col = columnCounter pp\<rparr>"

text \<open>
  Modelled from the spec: \<open>append(chunk, isLastChunk)\<close> appends the normalized chunk to the
  retained buffer, with the \<open>"\r"\<close> held back from the chunk before, and records whether
  more input may arrive.
\<close>

definition appendChunk :: "Preprocessor \<Rightarrow> jsstring \<Rightarrow> bool \<Rightarrow> Preprocessor" where
  "appendChunk pp chunk isLastChunk =
     (let (items, pending) =
            normalizeNewlines ((if pendingCR pp then [CR] else []) @ chunk) isLastChunk
      in pp\<lparr>html := html pp @ items, pendingCR := pending, lastChunkWritten := isLastChunk\<rparr>)"

text \<open>
  Modelled from the spec: compaction. When the unconsumed suffix is shorter than the
  watermark, the retained suffix is copied to the front and the offset of the buffer's
  first character is moved along.
\<close>

definition compact :: "Preprocessor \<Rightarrow> Preprocessor" where
  "compact pp =
     (if length (html pp) - pos pp < bufferWaterline pp
      then pp\<lparr>html := drop (pos pp) (html pp),
              bufferOffset := bufferOffset pp + widthOf (take (pos pp) (html pp)),
              pos := 0\<rparr>
      else pp)"

text \<open>The unconsumed suffix of the buffer.\<close>

definition remaining :: "Preprocessor \<Rightarrow> item list" where
  "remaining pp = drop (pos pp) (html pp)"

text \<open>
  Modelled from the spec: \<open>advance()\<close> consumes one code point, counts the line and the
  column, and compacts; when the buffer is exhausted it returns the "need more data"
  sentinel, or the end marker if \<open>isLastChunk\<close> was set.
\<close>

datatype Advance = CodePoint jschar | NeedMoreData | EndOfInput

definition advance :: "Preprocessor \<Rightarrow> Advance \<times> Preprocessor" where
  "advance pp =
     (if pos pp < length (html pp) then
        (let c = fst (html pp ! pos pp)
         in (CodePoint c,
             compact (pp\<lparr>pos := pos pp + 1,
                         lineCounter := (if c = LF then lineCounter pp + 1 else lineCounter pp),
                         columnCounter := (if c = LF then 1 else columnCounter pp + 1)\<rparr>)))
      else if lastChunkWritten pp then (EndOfInput, pp)
      else (NeedMoreData, pp))"

subsection \<open>Tokens\<close>

text \<open>
  Modelled from the spec: the data model of tokens and of the tokenizer's state registers.
  The attributes of a start tag are the \<open>Attribute\<close> records the serializer reads. The
  token in progress is a tag, a comment or a doctype; the character token in progress is
  kept apart, with the position where it starts.
\<close>


record Location =
  startOffset :: nat
  endOffset :: nat
  startLine :: nat
  startCol :: nat
  endLine :: nat
  endCol :: nat

datatype CharacterKind = REGULAR | WHITESPACE | NULL_CHARACTER

datatype Token =
  StartTag jsstring "Attribute list" bool "Location option"
| EndTag jsstring "Location option"
| Comment jsstring "Location option"
| Doctype "jsstring option" "jsstring option" "jsstring option" bool "Location option"
| Character CharacterKind jsstring "Location option"
| EndOfFile "Location option"

datatype CurrentToken =
  TagToken bool jsstring "Attribute list" bool
| CommentToken jsstring
| DoctypeToken "jsstring option" bool

record CharacterToken =
  ct_kind :: CharacterKind
  ct_chars :: jsstring
  ct_start :: Position

datatype TextMode = IN_RCDATA | IN_RAWTEXT | IN_SCRIPT_DATA

datatype State =
  DATA | RCDATA | RAWTEXT | SCRIPT_DATA | PLAINTEXT
| TAG_OPEN | END_TAG_OPEN | TAG_NAME
| TEXT_LESS_THAN_SIGN TextMode | TEXT_END_TAG_OPEN TextMode | TEXT_END_TAG_NAME TextMode
| BEFORE_ATTRIBUTE_NAME | ATTRIBUTE_NAME | AFTER_ATTRIBUTE_NAME | BEFORE_ATTRIBUTE_VALUE
| ATTRIBUTE_VALUE_DOUBLE_QUOTED | ATTRIBUTE_VALUE_SINGLE_QUOTED | ATTRIBUTE_VALUE_UNQUOTED
| AFTER_ATTRIBUTE_VALUE_QUOTED | SELF_CLOSING_START_TAG
| BOGUS_COMMENT | MARKUP_DECLARATION_OPEN
| COMMENT_START | COMMENT_START_DASH | COMMENT | COMMENT_END_DASH | COMMENT_END
| COMMENT_END_BANG
| DOCTYPE | BEFORE_DOCTYPE_NAME | DOCTYPE_NAME | AFTER_DOCTYPE_NAME | BOGUS_DOCTYPE
| CDATA_SECTION | CDATA_SECTION_BRACKET | CDATA_SECTION_END

record Registers =
  state :: State
  lastStartTagName :: jsstring
  inForeignNode :: bool
  sourceCodeLocationInfo :: bool
  currentToken :: "CurrentToken option"
  currentCharacterToken :: "CharacterToken option"
  tempBuff :: jsstring
  tokenStart :: Position
  currentLocation :: Position
  emitted :: "Token list"

subsection \<open>Code points\<close>

text \<open>Modelled from the spec: the code points that the states distinguish.\<close>


abbreviation NULL :: jschar where "NULL \<equiv> 0x00"
abbreviation EXCLAMATION_MARK :: jschar where "EXCLAMATION_MARK \<equiv> 0x21"
abbreviation QUOTATION_MARK :: jschar where "QUOTATION_MARK \<equiv> 0x22"
abbreviation APOSTROPHE :: jschar where "APOSTROPHE \<equiv> 0x27"
abbreviation HYPHEN_MINUS :: jschar where "HYPHEN_MINUS \<equiv> 0x2D"
abbreviation SOLIDUS :: jschar where "SOLIDUS \<equiv> 0x2F"
abbreviation LESS_THAN_SIGN :: jschar where "LESS_THAN_SIGN \<equiv> 0x3C"
abbreviation EQUALS_SIGN :: jschar where "EQUALS_SIGN \<equiv> 0x3D"
abbreviation GREATER_THAN_SIGN :: jschar where "GREATER_THAN_SIGN \<equiv> 0x3E"
abbreviation QUESTION_MARK :: jschar where "QUESTION_MARK \<equiv> 0x3F"
abbreviation RIGHT_SQUARE_BRACKET :: jschar where "RIGHT_SQUARE_BRACKET \<equiv> 0x5D"
abbreviation REPLACEMENT_CHARACTER :: jschar where "REPLACEMENT_CHARACTER \<equiv> 0xFFFD"

definition isWhitespace :: "jschar \<Rightarrow> bool" where
  "isWhitespace c \<longleftrightarrow> c = 0x20 \<or> c = 0x0A \<or> c = 0x09 \<or> c = 0x0C"

definition isAsciiUpper :: "jschar \<Rightarrow> bool" where
  "isAsciiUpper c \<longleftrightarrow> 0x41 \<le> c \<and> c \<le> 0x5A"

definition isAsciiLower :: "jschar \<Rightarrow> bool" where
  "isAsciiLower c \<longleftrightarrow> 0x61 \<le> c \<and> c \<le> 0x7A"

definition isAsciiLetter :: "jschar \<Rightarrow> bool" where
  "isAsciiLetter c \<longleftrightarrow> isAsciiUpper c \<or> isAsciiLower c"

definition toAsciiLower :: "jschar \<Rightarrow> jschar" where
  "toAsciiLower c = (if isAsciiUpper c then c + 0x20 else c)"

definition toAsciiUpper :: "jschar \<Rightarrow> jschar" where
  "toAsciiUpper c = (if isAsciiLower c then c - 0x20 else c)"

definition charKind :: "jschar \<Rightarrow> CharacterKind" where
  "charKind c = (if isWhitespace c then WHITESPACE else if c = 0 then NULL_CHARACTER else REGULAR)"

definition isPrefixOf :: "jsstring \<Rightarrow> jsstring \<Rightarrow> bool" where
  "isPrefixOf xs ys \<longleftrightarrow> take (length xs) ys = xs"

subsection \<open>Emitting\<close>

text \<open>
  Modelled from the spec: the location tracker and the delivery of tokens to the handler;
  \<open>emitted\<close> is the list of the handler's callbacks, in order. A character token starts
  where the token before it ended and ends where the next token starts, which is what the
  test expects (\<open>'<![CDATA[ '\<close> is the extent of a whitespace token); a tag, comment or
  doctype starts before its \<open><\<close> and ends after the character that completes it.
  Consecutive code points of one kind are one character token; a code point of another
  kind, a completed token or the end of input ends it.
\<close>


definition getLocation :: "Registers \<Rightarrow> Position \<Rightarrow> Position \<Rightarrow> Location option" where
  "getLocation r s e =
     (if sourceCodeLocationInfo r
      then Some \<lparr>startOffset = offset s, endOffset = offset e,
                 startLine = line s, startCol = col s, endLine = line e, endCol = col e\<rparr>
      else None)"

definition nextPosition :: "Position \<Rightarrow> Position" where
  "nextPosition p = p\<lparr>offset := offset p + 1, col := col p + 1\<rparr>"

definition emitCurrentCharacterToken :: "Registers \<Rightarrow> Position \<Rightarrow> Registers" where
  "emitCurrentCharacterToken r endp =
     (case currentCharacterToken r of
        None \<Rightarrow> r
      | Some ct \<Rightarrow>
          r\<lparr>emitted := emitted r @
                 [Character (ct_kind ct) (ct_chars ct) (getLocation r (ct_start ct) endp)],
            currentCharacterToken := None,
            currentLocation := endp\<rparr>)"

definition appendCharToCurrentCharacterToken ::
  "Registers \<Rightarrow> CharacterKind \<Rightarrow> jschar \<Rightarrow> Position \<Rightarrow> Registers" where
  "appendCharToCurrentCharacterToken r kind c p =
     (case currentCharacterToken r of
        None \<Rightarrow>
          r\<lparr>currentCharacterToken :=
               Some \<lparr>ct_kind = kind, ct_chars = [c], ct_start = currentLocation r\<rparr>\<rparr>
      | Some ct \<Rightarrow>
          if ct_kind ct = kind
          then r\<lparr>currentCharacterToken := Some (ct\<lparr>ct_chars := ct_chars ct @ [c]\<rparr>)\<rparr>
          else (emitCurrentCharacterToken r p)
                 \<lparr>currentCharacterToken := Some \<lparr>ct_kind = kind, ct_chars = [c], ct_start = p\<rparr>\<rparr>)"

definition emitCodePoint :: "Registers \<Rightarrow> jschar \<Rightarrow> Position \<Rightarrow> Registers" where
  "emitCodePoint r c p = appendCharToCurrentCharacterToken r (charKind c) c p"

fun emitChars :: "Registers \<Rightarrow> jsstring \<Rightarrow> Position \<Rightarrow> Registers" where
  "emitChars r [] p = r"
| "emitChars r (c # cs) p = emitChars (emitCodePoint r c p) cs (nextPosition p)"

text \<open>
  Modelled from the spec: attribute names are unique, the last duplicate wins.
\<close>

fun dedupe :: "Attribute list \<Rightarrow> Attribute list" where
  "dedupe [] = []"
| "dedupe (a # as) =
     (if attr_name a \<in> set (map attr_name as) then dedupe as else a # dedupe as)"

fun toToken :: "CurrentToken \<Rightarrow> Location option \<Rightarrow> Token" where
  "toToken (TagToken isEnd name attrs selfClosing) loc =
     (if isEnd then EndTag name loc else StartTag name (dedupe attrs) selfClosing loc)"
| "toToken (CommentToken data) loc = Comment data loc"
| "toToken (DoctypeToken name forceQuirks) loc = Doctype name None None forceQuirks loc"

definition emitCurrentToken :: "Registers \<Rightarrow> Position \<Rightarrow> Registers" where
  "emitCurrentToken r endp =
     (case currentToken r of
        None \<Rightarrow> r
      | Some t \<Rightarrow>
          let r1 = emitCurrentCharacterToken r (tokenStart r)
          in r1\<lparr>emitted := emitted r1 @ [toToken t (getLocation r (tokenStart r) endp)],
                currentToken := None,
                currentLocation := endp,
                lastStartTagName :=
                  (case t of TagToken False name attrs selfClosing \<Rightarrow> name
                   | _ \<Rightarrow> lastStartTagName r)\<rparr>)"

definition emitEOFToken :: "Registers \<Rightarrow> Position \<Rightarrow> Registers" where
  "emitEOFToken r p =
     (let r1 = emitCurrentCharacterToken r p
      in r1\<lparr>emitted := emitted r1 @ [EndOfFile (getLocation r p p)], currentLocation := p\<rparr>)"

subsection \<open>Building the current token\<close>

text \<open>Modelled from the spec: the token in progress, extended code point by code point.\<close>


definition appendToTagName :: "Registers \<Rightarrow> jschar \<Rightarrow> Registers" where
  "appendToTagName r c =
     r\<lparr>currentToken :=
         (case currentToken r of
            Some (TagToken isEnd name attrs selfClosing) \<Rightarrow>
              Some (TagToken isEnd (name @ [c]) attrs selfClosing)
          | t \<Rightarrow> t)\<rparr>"

definition createAttr :: "Registers \<Rightarrow> jsstring \<Rightarrow> Registers" where
  "createAttr r name =
     r\<lparr>currentToken :=
         (case currentToken r of
            Some (TagToken isEnd tn attrs selfClosing) \<Rightarrow>
              Some (TagToken isEnd tn
                (attrs @ [\<lparr>attr_name = name, attr_value = [],
                           attr_namespace = None, attr_prefix = None\<rparr>]) selfClosing)
          | t \<Rightarrow> t)\<rparr>"

definition updateLast :: "('a \<Rightarrow> 'a) \<Rightarrow> 'a list \<Rightarrow> 'a list" where
  "updateLast f xs = (case rev xs of [] \<Rightarrow> [] | x # ys \<Rightarrow> rev ys @ [f x])"

definition appendToAttrName :: "Registers \<Rightarrow> jschar \<Rightarrow> Registers" where
  "appendToAttrName r c =
     r\<lparr>currentToken :=
         (case currentToken r of
            Some (TagToken isEnd tn attrs selfClosing) \<Rightarrow>
              Some (TagToken isEnd tn
                (updateLast (\<lambda>a. a\<lparr>attr_name := attr_name a @ [c]\<rparr>) attrs) selfClosing)
          | t \<Rightarrow> t)\<rparr>"

definition appendToAttrValue :: "Registers \<Rightarrow> jschar \<Rightarrow> Registers" where
  "appendToAttrValue r c =
     r\<lparr>currentToken :=
         (case currentToken r of
            Some (TagToken isEnd tn attrs selfClosing) \<Rightarrow>
              Some (TagToken isEnd tn
                (updateLast (\<lambda>a. a\<lparr>attr_value := attr_value a @ [c]\<rparr>) attrs) selfClosing)
          | t \<Rightarrow> t)\<rparr>"

definition setSelfClosing :: "Registers \<Rightarrow> Registers" where
  "setSelfClosing r =
     r\<lparr>currentToken :=
         (case currentToken r of
            Some (TagToken isEnd tn attrs selfClosing) \<Rightarrow> Some (TagToken isEnd tn attrs True)
          | t \<Rightarrow> t)\<rparr>"

definition appendToComment :: "Registers \<Rightarrow> jsstring \<Rightarrow> Registers" where
  "appendToComment r cs =
     r\<lparr>currentToken :=
         (case currentToken r of
            Some (CommentToken data) \<Rightarrow> Some (CommentToken (data @ cs))
          | t \<Rightarrow> t)\<rparr>"

definition appendToDoctypeName :: "Registers \<Rightarrow> jschar \<Rightarrow> Registers" where
  "appendToDoctypeName r c =
     r\<lparr>currentToken :=
         (case currentToken r of
            Some (DoctypeToken name forceQuirks) \<Rightarrow>
              Some (DoctypeToken (Some ((case name of None \<Rightarrow> [] | Some n \<Rightarrow> n) @ [c])) forceQuirks)
          | t \<Rightarrow> t)\<rparr>"

definition setForceQuirks :: "Registers \<Rightarrow> Registers" where
  "setForceQuirks r =
     r\<lparr>currentToken :=
         (case currentToken r of
            Some (DoctypeToken name forceQuirks) \<Rightarrow> Some (DoctypeToken name True)
          | t \<Rightarrow> t)\<rparr>"


subsection \<open>The states\<close>

text \<open>
  Modelled from the spec: the transition function of each lexical state, after the
  tokenization rules of the HTML specification that the specification refers to. A state
  takes the registers, the code point, and the positions before and after it; a state
  that hands the code point to another state calls that state's function. No state
  switches the mode when a start tag completes: the location test keeps \<open><title>\<close> in
  Data mode (its NUL is a null-character token), and the specification says that its
  source does not give the table.
\<close>


fun modeState :: "TextMode \<Rightarrow> State" where
  "modeState IN_RCDATA = RCDATA"
| "modeState IN_RAWTEXT = RAWTEXT"
| "modeState IN_SCRIPT_DATA = SCRIPT_DATA"

definition stateData :: "Registers \<Rightarrow> jschar \<Rightarrow> Position \<Rightarrow> Position \<Rightarrow> Registers" where
  "stateData r c pb pa =
     (if c = LESS_THAN_SIGN then r\<lparr>state := TAG_OPEN, tokenStart := pb\<rparr>
      else emitCodePoint r c pb)"

text \<open>
  Modelled from the spec: RCDATA, RAWTEXT and script data. A \<open><\<close> opens a candidate end
  tag, which is buffered in \<open>tempBuff\<close>; it ends the mode only if its name equals
  \<open>lastStartTagName\<close> case-insensitively, otherwise the buffered text is flushed as
  character data and the mode is kept.
\<close>

definition stateText :: "TextMode \<Rightarrow> Registers \<Rightarrow> jschar \<Rightarrow> Position \<Rightarrow> Position \<Rightarrow> Registers" where
  "stateText mode r c pb pa =
     (if c = LESS_THAN_SIGN then r\<lparr>state := TEXT_LESS_THAN_SIGN mode, tokenStart := pb\<rparr>
      else if c = NULL then emitCodePoint r REPLACEMENT_CHARACTER pb
      else emitCodePoint r c pb)"

definition statePlaintext :: "Registers \<Rightarrow> jschar \<Rightarrow> Position \<Rightarrow> Position \<Rightarrow> Registers" where
  "statePlaintext r c pb pa =
     (if c = NULL then emitCodePoint r REPLACEMENT_CHARACTER pb else emitCodePoint r c pb)"

definition stateTagName :: "Registers \<Rightarrow> jschar \<Rightarrow> Position \<Rightarrow> Position \<Rightarrow> Registers" where
  "stateTagName r c pb pa =
     (if isWhitespace c then r\<lparr>state := BEFORE_ATTRIBUTE_NAME\<rparr>
      else if c = SOLIDUS then r\<lparr>state := SELF_CLOSING_START_TAG\<rparr>
      else if c = GREATER_THAN_SIGN then emitCurrentToken (r\<lparr>state := DATA\<rparr>) pa
      else if c = NULL then appendToTagName r REPLACEMENT_CHARACTER
      else appendToTagName r (toAsciiLower c))"

definition stateBogusComment :: "Registers \<Rightarrow> jschar \<Rightarrow> Position \<Rightarrow> Position \<Rightarrow> Registers" where
  "stateBogusComment r c pb pa =
     (if c = GREATER_THAN_SIGN then emitCurrentToken (r\<lparr>state := DATA\<rparr>) pa
      else if c = NULL then appendToComment r [REPLACEMENT_CHARACTER]
      else appendToComment r [c])"

definition stateTagOpen :: "Registers \<Rightarrow> jschar \<Rightarrow> Position \<Rightarrow> Position \<Rightarrow> Registers" where
  "stateTagOpen r c pb pa =
     (if c = EXCLAMATION_MARK then r\<lparr>state := MARKUP_DECLARATION_OPEN, tempBuff := []\<rparr>
      else if c = SOLIDUS then r\<lparr>state := END_TAG_OPEN\<rparr>
      else if isAsciiLetter c then
        stateTagName (r\<lparr>currentToken := Some (TagToken False [] [] False), state := TAG_NAME\<rparr>)
          c pb pa
      else if c = QUESTION_MARK then
        stateBogusComment (r\<lparr>currentToken := Some (CommentToken []), state := BOGUS_COMMENT\<rparr>)
          c pb pa
      else stateData ((emitChars r (js ''<'') (tokenStart r))\<lparr>state := DATA\<rparr>) c pb pa)"

definition stateEndTagOpen :: "Registers \<Rightarrow> jschar \<Rightarrow> Position \<Rightarrow> Position \<Rightarrow> Registers" where
  "stateEndTagOpen r c pb pa =
     (if isAsciiLetter c then
        stateTagName (r\<lparr>currentToken := Some (TagToken True [] [] False), state := TAG_NAME\<rparr>)
          c pb pa
      else if c = GREATER_THAN_SIGN then r\<lparr>state := DATA\<rparr>
      else stateBogusComment (r\<lparr>currentToken := Some (CommentToken []), state := BOGUS_COMMENT\<rparr>)
             c pb pa)"

definition stateTextLessThanSign ::
  "TextMode \<Rightarrow> Registers \<Rightarrow> jschar \<Rightarrow> Position \<Rightarrow> Position \<Rightarrow> Registers" where
  "stateTextLessThanSign mode r c pb pa =
     (if c = SOLIDUS then r\<lparr>tempBuff := [], state := TEXT_END_TAG_OPEN mode\<rparr>
      else stateText mode ((emitChars r (js ''<'') (tokenStart r))\<lparr>state := modeState mode\<rparr>)
             c pb pa)"

definition isAppropriateEndTag :: "Registers \<Rightarrow> bool" where
  "isAppropriateEndTag r \<longleftrightarrow>
     (case currentToken r of
        Some (TagToken isEnd name attrs selfClosing) \<Rightarrow>
          name = map toAsciiLower (lastStartTagName r)
      | _ \<Rightarrow> False)"

definition stateTextEndTagName ::
  "TextMode \<Rightarrow> Registers \<Rightarrow> jschar \<Rightarrow> Position \<Rightarrow> Position \<Rightarrow> Registers" where
  "stateTextEndTagName mode r c pb pa =
     (if isWhitespace c \<and> isAppropriateEndTag r then r\<lparr>state := BEFORE_ATTRIBUTE_NAME\<rparr>
      else if c = SOLIDUS \<and> isAppropriateEndTag r then r\<lparr>state := SELF_CLOSING_START_TAG\<rparr>
      else if c = GREATER_THAN_SIGN \<and> isAppropriateEndTag r
        then emitCurrentToken (r\<lparr>state := DATA\<rparr>) pa
      else if isAsciiLetter c
        then (appendToTagName r (toAsciiLower c))\<lparr>tempBuff := tempBuff r @ [c]\<rparr>
      else stateText mode
             ((emitChars (r\<lparr>currentToken := None\<rparr>) (js ''</'' @ tempBuff r) (tokenStart r))
                \<lparr>state := modeState mode\<rparr>)
             c pb pa)"

definition stateTextEndTagOpen ::
  "TextMode \<Rightarrow> Registers \<Rightarrow> jschar \<Rightarrow> Position \<Rightarrow> Position \<Rightarrow> Registers" where
  "stateTextEndTagOpen mode r c pb pa =
     (if isAsciiLetter c then
        stateTextEndTagName mode
          (r\<lparr>currentToken := Some (TagToken True [] [] False), state := TEXT_END_TAG_NAME mode\<rparr>)
          c pb pa
      else stateText mode ((emitChars r (js ''</'') (tokenStart r))\<lparr>state := modeState mode\<rparr>)
             c pb pa)"

definition stateAttributeName :: "Registers \<Rightarrow> jschar \<Rightarrow> Position \<Rightarrow> Position \<Rightarrow> Registers" where
  "stateAttributeName r c pb pa =
     (if isWhitespace c then r\<lparr>state := AFTER_ATTRIBUTE_NAME\<rparr>
      else if c = SOLIDUS then r\<lparr>state := SELF_CLOSING_START_TAG\<rparr>
      else if c = GREATER_THAN_SIGN then emitCurrentToken (r\<lparr>state := DATA\<rparr>) pa
      else if c = EQUALS_SIGN then r\<lparr>state := BEFORE_ATTRIBUTE_VALUE\<rparr>
      else if c = NULL then appendToAttrName r REPLACEMENT_CHARACTER
      else appendToAttrName r (toAsciiLower c))"

definition stateAfterAttributeName :: "Registers \<Rightarrow> jschar \<Rightarrow> Position \<Rightarrow> Position \<Rightarrow> Registers" where
  "stateAfterAttributeName r c pb pa =
     (if isWhitespace c then r
      else if c = SOLIDUS then r\<lparr>state := SELF_CLOSING_START_TAG\<rparr>
      else if c = EQUALS_SIGN then r\<lparr>state := BEFORE_ATTRIBUTE_VALUE\<rparr>
      else if c = GREATER_THAN_SIGN then emitCurrentToken (r\<lparr>state := DATA\<rparr>) pa
      else stateAttributeName ((createAttr r [])\<lparr>state := ATTRIBUTE_NAME\<rparr>) c pb pa)"

definition stateBeforeAttributeName :: "Registers \<Rightarrow> jschar \<Rightarrow> Position \<Rightarrow> Position \<Rightarrow> Registers" where
  "stateBeforeAttributeName r c pb pa =
     (if isWhitespace c then r
      else if c = SOLIDUS \<or> c = GREATER_THAN_SIGN
        then stateAfterAttributeName (r\<lparr>state := AFTER_ATTRIBUTE_NAME\<rparr>) c pb pa
      else if c = EQUALS_SIGN then (createAttr r [EQUALS_SIGN])\<lparr>state := ATTRIBUTE_NAME\<rparr>
      else stateAttributeName ((createAttr r [])\<lparr>state := ATTRIBUTE_NAME\<rparr>) c pb pa)"

definition stateAttributeValueUnquoted ::
  "Registers \<Rightarrow> jschar \<Rightarrow> Position \<Rightarrow> Position \<Rightarrow> Registers" where
  "stateAttributeValueUnquoted r c pb pa =
     (if isWhitespace c then r\<lparr>state := BEFORE_ATTRIBUTE_NAME\<rparr>
      else if c = GREATER_THAN_SIGN then emitCurrentToken (r\<lparr>state := DATA\<rparr>) pa
      else if c = NULL then appendToAttrValue r REPLACEMENT_CHARACTER
      else appendToAttrValue r c)"

definition stateBeforeAttributeValue ::
  "Registers \<Rightarrow> jschar \<Rightarrow> Position \<Rightarrow> Position \<Rightarrow> Registers" where
  "stateBeforeAttributeValue r c pb pa =
     (if isWhitespace c then r
      else if c = QUOTATION_MARK then r\<lparr>state := ATTRIBUTE_VALUE_DOUBLE_QUOTED\<rparr>
      else if c = APOSTROPHE then r\<lparr>state := ATTRIBUTE_VALUE_SINGLE_QUOTED\<rparr>
      else if c = GREATER_THAN_SIGN then emitCurrentToken (r\<lparr>state := DATA\<rparr>) pa
      else stateAttributeValueUnquoted (r\<lparr>state := ATTRIBUTE_VALUE_UNQUOTED\<rparr>) c pb pa)"

definition stateAttributeValueQuoted ::
  "jschar \<Rightarrow> Registers \<Rightarrow> jschar \<Rightarrow> Position \<Rightarrow> Position \<Rightarrow> Registers" where
  "stateAttributeValueQuoted quote r c pb pa =
     (if c = quote then r\<lparr>state := AFTER_ATTRIBUTE_VALUE_QUOTED\<rparr>
      else if c = NULL then appendToAttrValue r REPLACEMENT_CHARACTER
      else appendToAttrValue r c)"

definition stateAfterAttributeValueQuoted ::
  "Registers \<Rightarrow> jschar \<Rightarrow> Position \<Rightarrow> Position \<Rightarrow> Registers" where
  "stateAfterAttributeValueQuoted r c pb pa =
     (if isWhitespace c then r\<lparr>state := BEFORE_ATTRIBUTE_NAME\<rparr>
      else if c = SOLIDUS then r\<lparr>state := SELF_CLOSING_START_TAG\<rparr>
      else if c = GREATER_THAN_SIGN then emitCurrentToken (r\<lparr>state := DATA\<rparr>) pa
      else stateBeforeAttributeName (r\<lparr>state := BEFORE_ATTRIBUTE_NAME\<rparr>) c pb pa)"

definition stateSelfClosingStartTag ::
  "Registers \<Rightarrow> jschar \<Rightarrow> Position \<Rightarrow> Position \<Rightarrow> Registers" where
  "stateSelfClosingStartTag r c pb pa =
     (if c = GREATER_THAN_SIGN then emitCurrentToken ((setSelfClosing r)\<lparr>state := DATA\<rparr>) pa
      else stateBeforeAttributeName (r\<lparr>state := BEFORE_ATTRIBUTE_NAME\<rparr>) c pb pa)"

text \<open>
  Modelled from the spec: after \<open><!\<close>, the code points are buffered in \<open>tempBuff\<close> while
  they spell a prefix of \<open>--\<close>, of \<open>DOCTYPE\<close> (in any case) or, only when \<open>inForeignNode\<close>
  is set, of \<open>[CDATA[\<close>; anything else is a bogus comment that starts with the buffered
  text.
\<close>

definition stateMarkupDeclarationOpen ::
  "Registers \<Rightarrow> jschar \<Rightarrow> Position \<Rightarrow> Position \<Rightarrow> Registers" where
  "stateMarkupDeclarationOpen r c pb pa =
     (let buf = tempBuff r @ [c]
      in if buf = js ''--''
           then r\<lparr>currentToken := Some (CommentToken []), state := COMMENT_START, tempBuff := []\<rparr>
         else if map toAsciiUpper buf = js ''DOCTYPE'' then r\<lparr>state := DOCTYPE, tempBuff := []\<rparr>
         else if inForeignNode r \<and> buf = js ''[CDATA[''
           then r\<lparr>state := CDATA_SECTION, tempBuff := []\<rparr>
         else if isPrefixOf buf (js ''--'') \<or>
                 isPrefixOf (map toAsciiUpper buf) (js ''DOCTYPE'') \<or>
                 (inForeignNode r \<and> isPrefixOf buf (js ''[CDATA[''))
           then r\<lparr>tempBuff := buf\<rparr>
         else stateBogusComment
                (r\<lparr>currentToken := Some (CommentToken (tempBuff r)), state := BOGUS_COMMENT,
                   tempBuff := []\<rparr>)
                c pb pa)"

definition stateComment :: "Registers \<Rightarrow> jschar \<Rightarrow> Position \<Rightarrow> Position \<Rightarrow> Registers" where
  "stateComment r c pb pa =
     (if c = HYPHEN_MINUS then r\<lparr>state := COMMENT_END_DASH\<rparr>
      else if c = NULL then appendToComment r [REPLACEMENT_CHARACTER]
      else appendToComment r [c])"

definition stateCommentStart :: "Registers \<Rightarrow> jschar \<Rightarrow> Position \<Rightarrow> Position \<Rightarrow> Registers" where
  "stateCommentStart r c pb pa =
     (if c = HYPHEN_MINUS then r\<lparr>state := COMMENT_START_DASH\<rparr>
      else if c = GREATER_THAN_SIGN then emitCurrentToken (r\<lparr>state := DATA\<rparr>) pa
      else stateComment (r\<lparr>state := COMMENT\<rparr>) c pb pa)"

definition stateCommentStartDash :: "Registers \<Rightarrow> jschar \<Rightarrow> Position \<Rightarrow> Position \<Rightarrow> Registers" where
  "stateCommentStartDash r c pb pa =
     (if c = HYPHEN_MINUS then r\<lparr>state := COMMENT_END\<rparr>
      else if c = GREATER_THAN_SIGN then emitCurrentToken (r\<lparr>state := DATA\<rparr>) pa
      else stateComment ((appendToComment r (js ''-''))\<lparr>state := COMMENT\<rparr>) c pb pa)"

definition stateCommentEndDash :: "Registers \<Rightarrow> jschar \<Rightarrow> Position \<Rightarrow> Position \<Rightarrow> Registers" where
  "stateCommentEndDash r c pb pa =
     (if c = HYPHEN_MINUS then r\<lparr>state := COMMENT_END\<rparr>
      else stateComment ((appendToComment r (js ''-''))\<lparr>state := COMMENT\<rparr>) c pb pa)"

definition stateCommentEnd :: "Registers \<Rightarrow> jschar \<Rightarrow> Position \<Rightarrow> Position \<Rightarrow> Registers" where
  "stateCommentEnd r c pb pa =
     (if c = GREATER_THAN_SIGN then emitCurrentToken (r\<lparr>state := DATA\<rparr>) pa
      else if c = EXCLAMATION_MARK then r\<lparr>state := COMMENT_END_BANG\<rparr>
      else if c = HYPHEN_MINUS then appendToComment r (js ''-'')
      else stateComment ((appendToComment r (js ''--''))\<lparr>state := COMMENT\<rparr>) c pb pa)"

definition stateCommentEndBang :: "Registers \<Rightarrow> jschar \<Rightarrow> Position \<Rightarrow> Position \<Rightarrow> Registers" where
  "stateCommentEndBang r c pb pa =
     (if c = HYPHEN_MINUS then (appendToComment r (js ''--!''))\<lparr>state := COMMENT_END_DASH\<rparr>
      else if c = GREATER_THAN_SIGN then emitCurrentToken (r\<lparr>state := DATA\<rparr>) pa
      else stateComment ((appendToComment r (js ''--!''))\<lparr>state := COMMENT\<rparr>) c pb pa)"

definition stateBeforeDoctypeName :: "Registers \<Rightarrow> jschar \<Rightarrow> Position \<Rightarrow> Position \<Rightarrow> Registers" where
  "stateBeforeDoctypeName r c pb pa =
     (if isWhitespace c then r
      else if c = GREATER_THAN_SIGN
        then emitCurrentToken (r\<lparr>currentToken := Some (DoctypeToken None True), state := DATA\<rparr>) pa
      else if c = NULL
        then r\<lparr>currentToken := Some (DoctypeToken (Some [REPLACEMENT_CHARACTER]) False),
               state := DOCTYPE_NAME\<rparr>
      else r\<lparr>currentToken := Some (DoctypeToken (Some [toAsciiLower c]) False),
             state := DOCTYPE_NAME\<rparr>)"

definition stateDoctype :: "Registers \<Rightarrow> jschar \<Rightarrow> Position \<Rightarrow> Position \<Rightarrow> Registers" where
  "stateDoctype r c pb pa =
     (if isWhitespace c then r\<lparr>state := BEFORE_DOCTYPE_NAME\<rparr>
      else stateBeforeDoctypeName (r\<lparr>state := BEFORE_DOCTYPE_NAME\<rparr>) c pb pa)"

definition stateDoctypeName :: "Registers \<Rightarrow> jschar \<Rightarrow> Position \<Rightarrow> Position \<Rightarrow> Registers" where
  "stateDoctypeName r c pb pa =
     (if isWhitespace c then r\<lparr>state := AFTER_DOCTYPE_NAME\<rparr>
      else if c = GREATER_THAN_SIGN then emitCurrentToken (r\<lparr>state := DATA\<rparr>) pa
      else if c = NULL then appendToDoctypeName r REPLACEMENT_CHARACTER
      else appendToDoctypeName r (toAsciiLower c))"

definition stateAfterDoctypeName :: "Registers \<Rightarrow> jschar \<Rightarrow> Position \<Rightarrow> Position \<Rightarrow> Registers" where
  "stateAfterDoctypeName r c pb pa =
     (if isWhitespace c then r
      else if c = GREATER_THAN_SIGN then emitCurrentToken (r\<lparr>state := DATA\<rparr>) pa
      else (setForceQuirks r)\<lparr>state := BOGUS_DOCTYPE\<rparr>)"

definition stateBogusDoctype :: "Registers \<Rightarrow> jschar \<Rightarrow> Position \<Rightarrow> Position \<Rightarrow> Registers" where
  "stateBogusDoctype r c pb pa =
     (if c = GREATER_THAN_SIGN then emitCurrentToken (r\<lparr>state := DATA\<rparr>) pa else r)"

text \<open>
  Modelled from the spec: a CDATA section passes everything through as character data
  until \<open>]]>\<close> or the end of input.
\<close>

definition stateCdataSection :: "Registers \<Rightarrow> jschar \<Rightarrow> Position \<Rightarrow> Position \<Rightarrow> Registers" where
  "stateCdataSection r c pb pa =
     (if c = RIGHT_SQUARE_BRACKET then r\<lparr>state := CDATA_SECTION_BRACKET, tokenStart := pb\<rparr>
      else emitCodePoint r c pb)"

definition stateCdataSectionBracket ::
  "Registers \<Rightarrow> jschar \<Rightarrow> Position \<Rightarrow> Position \<Rightarrow> Registers" where
  "stateCdataSectionBracket r c pb pa =
     (if c = RIGHT_SQUARE_BRACKET then r\<lparr>state := CDATA_SECTION_END\<rparr>
      else stateCdataSection ((emitChars r (js '']'') (tokenStart r))\<lparr>state := CDATA_SECTION\<rparr>)
             c pb pa)"

definition stateCdataSectionEnd :: "Registers \<Rightarrow> jschar \<Rightarrow> Position \<Rightarrow> Position \<Rightarrow> Registers" where
  "stateCdataSectionEnd r c pb pa =
     (if c = GREATER_THAN_SIGN then r\<lparr>state := DATA\<rparr>
      else if c = RIGHT_SQUARE_BRACKET
        then (emitChars r (js '']'') (tokenStart r))\<lparr>tokenStart := nextPosition (tokenStart r)\<rparr>
      else stateCdataSection ((emitChars r (js '']]'') (tokenStart r))\<lparr>state := CDATA_SECTION\<rparr>)
             c pb pa)"

definition callState :: "Registers \<Rightarrow> jschar \<Rightarrow> Position \<Rightarrow> Position \<Rightarrow> Registers" where
  "callState r c pb pa =
     (case state r of
        DATA \<Rightarrow> stateData r c pb pa
      | RCDATA \<Rightarrow> stateText IN_RCDATA r c pb pa
      | RAWTEXT \<Rightarrow> stateText IN_RAWTEXT r c pb pa
      | SCRIPT_DATA \<Rightarrow> stateText IN_SCRIPT_DATA r c pb pa
      | PLAINTEXT \<Rightarrow> statePlaintext r c pb pa
      | TAG_OPEN \<Rightarrow> stateTagOpen r c pb pa
      | END_TAG_OPEN \<Rightarrow> stateEndTagOpen r c pb pa
      | TAG_NAME \<Rightarrow> stateTagName r c pb pa
      | TEXT_LESS_THAN_SIGN mode \<Rightarrow> stateTextLessThanSign mode r c pb pa
      | TEXT_END_TAG_OPEN mode \<Rightarrow> stateTextEndTagOpen mode r c pb pa
      | TEXT_END_TAG_NAME mode \<Rightarrow> stateTextEndTagName mode r c pb pa
      | BEFORE_ATTRIBUTE_NAME \<Rightarrow> stateBeforeAttributeName r c pb pa
      | ATTRIBUTE_NAME \<Rightarrow> stateAttributeName r c pb pa
      | AFTER_ATTRIBUTE_NAME \<Rightarrow> stateAfterAttributeName r c pb pa
      | BEFORE_ATTRIBUTE_VALUE \<Rightarrow> stateBeforeAttributeValue r c pb pa
      | ATTRIBUTE_VALUE_DOUBLE_QUOTED \<Rightarrow> stateAttributeValueQuoted QUOTATION_MARK r c pb pa
      | ATTRIBUTE_VALUE_SINGLE_QUOTED \<Rightarrow> stateAttributeValueQuoted APOSTROPHE r c pb pa
      | ATTRIBUTE_VALUE_UNQUOTED \<Rightarrow> stateAttributeValueUnquoted r c pb pa
      | AFTER_ATTRIBUTE_VALUE_QUOTED \<Rightarrow> stateAfterAttributeValueQuoted r c pb pa
      | SELF_CLOSING_START_TAG \<Rightarrow> stateSelfClosingStartTag r c pb pa
      | BOGUS_COMMENT \<Rightarrow> stateBogusComment r c pb pa
      | MARKUP_DECLARATION_OPEN \<Rightarrow> stateMarkupDeclarationOpen r c pb pa
      | COMMENT_START \<Rightarrow> stateCommentStart r c pb pa
      | COMMENT_START_DASH \<Rightarrow> stateCommentStartDash r c pb pa
      | COMMENT \<Rightarrow> stateComment r c pb pa
      | COMMENT_END_DASH \<Rightarrow> stateCommentEndDash r c pb pa
      | COMMENT_END \<Rightarrow> stateCommentEnd r c pb pa
      | COMMENT_END_BANG \<Rightarrow> stateCommentEndBang r c pb pa
      | DOCTYPE \<Rightarrow> stateDoctype r c pb pa
      | BEFORE_DOCTYPE_NAME \<Rightarrow> stateBeforeDoctypeName r c pb pa
      | DOCTYPE_NAME \<Rightarrow> stateDoctypeName r c pb pa
      | AFTER_DOCTYPE_NAME \<Rightarrow> stateAfterDoctypeName r c pb pa
      | BOGUS_DOCTYPE \<Rightarrow> stateBogusDoctype r c pb pa
      | CDATA_SECTION \<Rightarrow> stateCdataSection r c pb pa
      | CDATA_SECTION_BRACKET \<Rightarrow> stateCdataSectionBracket r c pb pa
      | CDATA_SECTION_END \<Rightarrow> stateCdataSectionEnd r c pb pa)"

text \<open>
  Modelled from the spec: the end of input in each state. What is pending is flushed or
  dropped as the state says, and the EndOfFile token is emitted, its start and end at
  the position reached.
\<close>

definition stateEOF :: "Registers \<Rightarrow> Position \<Rightarrow> Registers" where
  "stateEOF r p =
     (case state r of
        TAG_OPEN \<Rightarrow> emitEOFToken (emitChars r (js ''<'') (tokenStart r)) p
      | END_TAG_OPEN \<Rightarrow> emitEOFToken (emitChars r (js ''</'') (tokenStart r)) p
      | TEXT_LESS_THAN_SIGN mode \<Rightarrow> emitEOFToken (emitChars r (js ''<'') (tokenStart r)) p
      | TEXT_END_TAG_OPEN mode \<Rightarrow> emitEOFToken (emitChars r (js ''</'') (tokenStart r)) p
      | TEXT_END_TAG_NAME mode \<Rightarrow>
          emitEOFToken
            (emitChars (r\<lparr>currentToken := None\<rparr>) (js ''</'' @ tempBuff r) (tokenStart r)) p
      | BOGUS_COMMENT \<Rightarrow> emitEOFToken (emitCurrentToken r p) p
      | MARKUP_DECLARATION_OPEN \<Rightarrow>
          emitEOFToken (emitCurrentToken (r\<lparr>currentToken := Some (CommentToken (tempBuff r))\<rparr>) p) p
      | COMMENT_START \<Rightarrow> emitEOFToken (emitCurrentToken r p) p
      | COMMENT_START_DASH \<Rightarrow> emitEOFToken (emitCurrentToken r p) p
      | COMMENT \<Rightarrow> emitEOFToken (emitCurrentToken r p) p
      | COMMENT_END_DASH \<Rightarrow> emitEOFToken (emitCurrentToken r p) p
      | COMMENT_END \<Rightarrow> emitEOFToken (emitCurrentToken r p) p
      | COMMENT_END_BANG \<Rightarrow> emitEOFToken (emitCurrentToken r p) p
      | DOCTYPE \<Rightarrow>
          emitEOFToken (emitCurrentToken (r\<lparr>currentToken := Some (DoctypeToken None True)\<rparr>) p) p
      | BEFORE_DOCTYPE_NAME \<Rightarrow>
          emitEOFToken (emitCurrentToken (r\<lparr>currentToken := Some (DoctypeToken None True)\<rparr>) p) p
      | DOCTYPE_NAME \<Rightarrow> emitEOFToken (emitCurrentToken (setForceQuirks r) p) p
      | AFTER_DOCTYPE_NAME \<Rightarrow> emitEOFToken (emitCurrentToken (setForceQuirks r) p) p
      | BOGUS_DOCTYPE \<Rightarrow> emitEOFToken (emitCurrentToken r p) p
      | CDATA_SECTION_BRACKET \<Rightarrow> emitEOFToken (emitChars r (js '']'') (tokenStart r)) p
      | CDATA_SECTION_END \<Rightarrow> emitEOFToken (emitChars r (js '']]'') (tokenStart r)) p
      | _ \<Rightarrow> emitEOFToken (r\<lparr>currentToken := None\<rparr>) p)"


subsection \<open>The tokenizer\<close>

text \<open>
  Modelled from the spec: the tokenizer owns its preprocessor and its registers.
  \<open>sawEof\<close> is the flag of the test's handler, set by \<open>onEof\<close>.
\<close>


record Tokenizer =
  preprocessor :: Preprocessor
  registers :: Registers

fun isEndOfFile :: "Token \<Rightarrow> bool" where
  "isEndOfFile (EndOfFile loc) = True"
| "isEndOfFile t = False"

definition sawEof :: "Tokenizer \<Rightarrow> bool" where
  "sawEof tk \<longleftrightarrow> list_ex isEndOfFile (emitted (registers tk))"

definition initialRegisters :: "bool \<Rightarrow> Registers" where
  "initialRegisters locationInfo =
     \<lparr>state = DATA, lastStartTagName = [], inForeignNode = False,
      sourceCodeLocationInfo = locationInfo,
      currentToken = None, currentCharacterToken = None, tempBuff = [],
      tokenStart = \<lparr>offset = 0, line = 1, col = 1\<rparr>,
      currentLocation = \<lparr>offset = 0, line = 1, col = 1\<rparr>,
      emitted = []\<rparr>"

definition newTokenizer :: "bool \<Rightarrow> nat \<Rightarrow> Tokenizer" where
  "newTokenizer locationInfo waterline =
     \<lparr>preprocessor =
        \<lparr>html = [], pendingCR = False, bufferOffset = 0, pos = 0,
         lineCounter = 1, columnCounter = 1, lastChunkWritten = False,
         bufferWaterline = waterline\<rparr>,
      registers = initialRegisters locationInfo\<rparr>"

text \<open>
  Modelled from the spec: \<open>write(chunk, isLastChunk)\<close> feeds the preprocessor and does not
  advance the state machine.
\<close>

definition write_tk :: "Tokenizer \<Rightarrow> jsstring \<Rightarrow> bool \<Rightarrow> Tokenizer" where
  "write_tk tk chunk isLastChunk =
     tk\<lparr>preprocessor := appendChunk (preprocessor tk) chunk isLastChunk\<rparr>"

text \<open>
  Modelled from the spec: \<open>getNextToken()\<close> advances the state machine until a token is
  delivered, or the preprocessor needs more data, or the input is exhausted with
  \<open>isLastChunk\<close> set and the EndOfFile token is delivered. Asking for a token after
  EndOfFile is a violation of the caller's contract.
\<close>

datatype PullResult = TokenDelivered | NeedMoreInput | ContractViolation

function getNextToken :: "Tokenizer \<Rightarrow> PullResult \<times> Tokenizer" where
  "getNextToken tk =
     (if sawEof tk then (ContractViolation, tk)
      else case advance (preprocessor tk) of
        (NeedMoreData, pp) \<Rightarrow> (NeedMoreInput, tk)
      | (EndOfInput, pp) \<Rightarrow>
          (TokenDelivered,
           tk\<lparr>registers := stateEOF (registers tk) (position (preprocessor tk))\<rparr>)
      | (CodePoint c, pp) \<Rightarrow>
          (let r = callState (registers tk) c (position (preprocessor tk)) (position pp);
               tk' = tk\<lparr>preprocessor := pp, registers := r\<rparr>
           in if length (emitted (registers tk)) < length (emitted r)
              then (TokenDelivered, tk')
              else getNextToken tk'))"
  by pat_completeness auto
termination
  by (relation "measure (\<lambda>tk. length (html (preprocessor tk)) - pos (preprocessor tk))")
     (auto simp add: advance_def compact_def Let_def split: if_splits)

declare getNextToken.simps [simp del]

text \<open>
  The loop of the location test, \<open>while (!handler.sawEof) tokenizer.getNextToken()\<close>. It
  has no other exit: \<open>None\<close> is the loop that does not end.
\<close>

partial_function (option) pullUntilEof :: "Tokenizer \<Rightarrow> Tokenizer option" where
  "pullUntilEof tk = (if sawEof tk then Some tk else pullUntilEof (snd (getNextToken tk)))"

text \<open>
  The writes of the location test: every chunk in order, \<open>isLastChunk\<close> set for the last.
\<close>

fun writeAll :: "Tokenizer \<Rightarrow> jsstring list \<Rightarrow> Tokenizer" where
  "writeAll tk [] = tk"
| "writeAll tk [chunk] = write_tk tk chunk True"
| "writeAll tk (chunk # chunks) = writeAll (write_tk tk chunk False) chunks"

text \<open>
  One round of the location test (the body of its \<open>for (const testCase of testCases)\<close>):
  a tokenizer with \<open>sourceCodeLocationInfo\<close>, the writes, then the waterline, the initial
  mode, \<open>lastStartTagName\<close> and \<open>inForeignNode\<close>, then the loop. The waterline the
  tokenizer is created with is not in the sources, and the test's 8 is a parameter too.
\<close>

definition locationInfoTest ::
  "nat \<Rightarrow> nat \<Rightarrow> State \<Rightarrow> jsstring \<Rightarrow> bool \<Rightarrow> jsstring list \<Rightarrow> Tokenizer option" where
  "locationInfoTest defaultWaterline waterline initialMode lastStartTagName' inForeignNode'
       htmlChunks =
     (let tokenizer = writeAll (newTokenizer True defaultWaterline) htmlChunks;
          tokenizer = tokenizer
            \<lparr>preprocessor := (preprocessor tokenizer)\<lparr>bufferWaterline := waterline\<rparr>,
             registers := (registers tokenizer)
               \<lparr>state := initialMode, lastStartTagName := lastStartTagName',
                inForeignNode := inForeignNode'\<rparr>\<rparr>
      in pullUntilEof tokenizer)"




subsection \<open>The token stream of a text\<close>

text \<open>
  The state machine run over a sequence of code points, each with the position before and
  after it, and \<open>tokenize\<close>, the tokens of a whole text: the run over the normalized text,
  then the end of input.
\<close>

definition advancePosition :: "Position \<Rightarrow> item \<Rightarrow> Position" where
  "advancePosition p i =
     \<lparr>offset = offset p + snd i,
      line = (if fst i = LF then line p + 1 else line p),
      col = (if fst i = LF then 1 else col p + 1)\<rparr>"

definition feed :: "Position \<times> Registers \<Rightarrow> item \<Rightarrow> Position \<times> Registers" where
  "feed s i =
     (let p' = advancePosition (fst s) i in (p', callState (snd s) (fst i) (fst s) p'))"

definition consumeAll :: "State \<Rightarrow> jsstring \<Rightarrow> bool \<Rightarrow> jsstring \<Rightarrow> Position \<times> Registers" where
  "consumeAll initialMode lastStartTagName' inForeignNode' input =
     foldl feed
       (\<lparr>offset = 0, line = 1, col = 1\<rparr>,
        (initialRegisters True)
          \<lparr>state := initialMode, lastStartTagName := lastStartTagName',
           inForeignNode := inForeignNode'\<rparr>)
       (fst (normalizeNewlines input True))"

definition tokenize :: "State \<Rightarrow> jsstring \<Rightarrow> bool \<Rightarrow> jsstring \<Rightarrow> Token list" where
  "tokenize initialMode lastStartTagName' inForeignNode' input =
     (let s = consumeAll initialMode lastStartTagName' inForeignNode' input
      in emitted (stateEOF (snd s) (fst s)))"

text \<open>The location of a token, whatever its kind.\<close>

definition locationOf :: "Token \<Rightarrow> Location option" where
  "locationOf t =
     (case t of
        StartTag name attrs selfClosing loc \<Rightarrow> loc
      | EndTag name loc \<Rightarrow> loc
      | Comment data loc \<Rightarrow> loc
      | Doctype name publicId systemId forceQuirks loc \<Rightarrow> loc
      | Character kind chars loc \<Rightarrow> loc
      | EndOfFile loc \<Rightarrow> loc)"

text \<open>The tokens that a session delivered to the handler.\<close>

definition delivered :: "Tokenizer option \<Rightarrow> Token list option" where
  "delivered session = map_option (\<lambda>tk. emitted (registers tk)) session"

subsection \<open>Runs over a given text\<close>

text \<open>
  The state machine run over a text without carriage returns, where every code point
  stands for itself; and, for what the results below say about comments and character
  data: the code point a comment stores for a code point of the input (U+FFFD for NUL),
  the character data of a list of tokens, and the character data that a run has produced
  so far, delivered or still in the character token in progress.
\<close>

definition run :: "Position \<times> Registers \<Rightarrow> jsstring \<Rightarrow> Position \<times> Registers" where
  "run s cs = foldl feed s (map (\<lambda>c. (c, 1)) cs)"

definition replaceNull :: "jschar \<Rightarrow> jschar" where
  "replaceNull c = (if c = NULL then REPLACEMENT_CHARACTER else c)"

fun isCharacter :: "Token \<Rightarrow> bool" where
  "isCharacter (Character kind chars loc) = True"
| "isCharacter t = False"

definition characterData :: "Token list \<Rightarrow> jsstring" where
  "characterData ts =
     concat (map (\<lambda>t. case t of Character kind chars loc \<Rightarrow> chars | _ \<Rightarrow> []) ts)"

definition pendingText :: "Registers \<Rightarrow> jsstring" where
  "pendingText r =
     characterData (emitted r) @
     (case currentCharacterToken r of None \<Rightarrow> [] | Some ct \<Rightarrow> ct_chars ct)"

text \<open>
  The states of one text mode: the mode itself and the three states of a candidate end
  tag. The mode is kept as long as the machine is in one of them.
\<close>

definition inTextMode :: "TextMode \<Rightarrow> State \<Rightarrow> bool" where
  "inTextMode m s \<longleftrightarrow>
     s = modeState m \<or> s = TEXT_LESS_THAN_SIGN m \<or> s = TEXT_END_TAG_OPEN m \<or>
     s = TEXT_END_TAG_NAME m"


text \<open>The tokens of a list that are not character tokens.\<close>

definition markup :: "Token list \<Rightarrow> Token list" where
  "markup ts = filter (\<lambda>t. \<not> isCharacter t) ts"

subsection \<open>The location test\<close>

text \<open>
  \<open>String.prototype.substring\<close>: the two indices are swapped if the first is the greater,
  and both are cut to the length of the string.
\<close>

definition substring :: "jsstring \<Rightarrow> nat \<Rightarrow> nat \<Rightarrow> jsstring" where
  "substring str start end' =
     (let a = min start end'; b = max start end' in take (b - a) (drop a str))"

text \<open>
  \<open>LocationInfoHandler\<close> of the location test, run over the tokens delivered: for each
  token \<open>validateLocation\<close> asserts that it has a location and that the piece of the input
  between its offsets is the chunk \<open>htmlChunks[idx]\<close>; \<open>onEof\<close> asserts that the location
  of EndOfFile is empty, at the end of the input, and that every chunk has been seen. The
  result is whether every assertion holds and EndOfFile was seen. The assertion on lines
  and columns goes through helpers that are not among the sources and is not modelled.
\<close>

fun handlerRun :: "jsstring \<Rightarrow> jsstring list \<Rightarrow> nat \<Rightarrow> Token list \<Rightarrow> bool" where
  "handlerRun html' htmlChunks idx [] = False"
| "handlerRun html' htmlChunks idx (EndOfFile location # ts) =
     (case location of
        None \<Rightarrow> False
      | Some loc \<Rightarrow>
          endOffset loc = startOffset loc \<and> endOffset loc = length html' \<and>
          idx = length htmlChunks)"
| "handlerRun html' htmlChunks idx (t # ts) =
     (case locationOf t of
        None \<Rightarrow> False
      | Some loc \<Rightarrow>
          idx < length htmlChunks \<and>
          substring html' (startOffset loc) (endOffset loc) = htmlChunks ! idx \<and>
          handlerRun html' htmlChunks (idx + 1) ts)"

text \<open>The \<open>htmlChunks\<close> of the seven test cases of the location test.\<close>

definition testCase1 :: "jsstring list" where
  "testCase1 =
     [[0x0D, 0x0A], js ''<!DOCTYPE html>'', [0x0A], js ''<!-- Test -->'', [0x0A], js ''<head>'',
      0x0A # js ''   '', js ''<meta charset=\"utf-8\">'', js ''<title>'', js ''   '',
      js ''node.js'', [0x00], js ''</title>'', [0x0A], js ''</head>'', [0x0A],
      js ''<body id=\"front\">'', [0x0A], js ''<div id=\"intro\">'', 0x0A # js ''   '',
      js ''<p'' @ [0x0A] @ js ''>'', 0x0A # js ''       '', js ''Node.js'', js '' '', js ''is'',
      js '' '', js ''a'', 0x0A # js ''       '', js ''platform'', js '' '', js ''built'',
      js '' '', js ''on'', 0x0A # js ''       '',
      js ''<a href=\"http://code.google.com/p/v8/\">'', 0x0A # js ''       '',
      js ''Chrome'' @ [0x27] @ js ''s'', js '' '', js ''JavaScript'', js '' '', js ''runtime'',
      0x0A # js ''       '', js ''</a>'', [0x0A], js ''</div>'', js ''</body>'']"

definition testCase2 :: "jsstring list" where
  "testCase2 =
     [js ''<div>Test'', js '' '' @ [0x0A] @ js ''   '', js ''hey'', js '' '', js ''ya!'',
      js ''</title>'', js ''<!--Yo-->'']"

definition testCase3 :: "jsstring list" where
  "testCase3 =
     [js ''.header{'', js '' '' @ [0x0A] @ js ''   '', js ''color:red;'', [0x0A], js ''}'',
      js ''</style>'', js ''Some'', js '' '', js ''text'']"

definition testCase4 :: "jsstring list" where
  "testCase4 =
     [js ''var'', js '' '', js ''a=c'', js '' '', js ''-'', js '' '', js ''d;'', [0x0A],
      js ''a<--d;'', js ''</script>'', js ''<div>'']"

definition testCase5 :: "jsstring list" where
  "testCase5 = [js ''Text'', js '' '' @ [0x0A], js ''Test</plaintext><div>'']"

definition testCase6 :: "jsstring list" where
  "testCase6 =
     [[0x0A], js ''<!-- regular comment -->'', js ''<! bogus comment >'',
      js ''<? another bogus comment >'', js ''</!yet another bogus comment>'',
      js ''<![CDATA[ cdata as a bogus comment >'']"

definition testCase7 :: "jsstring list" where
  "testCase7 =
     [js ''<a>'', js ''<![CDATA[ '', js ''CDATA'', js '' ]]>'', js ''<test>'',
      js '' <![CDATA[ ]]>'' @ [0x0A]]"

subsection \<open>Invariants of the loops\<close>

text \<open>
  The predicates of the proofs below: the cursor is inside the buffer; two preprocessors
  have been written the same; the run that is still to come, \<open>pendingRun\<close>, which a call
  of \<open>getNextToken\<close> keeps until the end of input; and what a call and a loop have done.
\<close>

definition wf_pp :: "Preprocessor \<Rightarrow> bool" where
  "wf_pp pp \<longleftrightarrow> pos pp \<le> length (html pp)"

definition same_input :: "Preprocessor \<Rightarrow> Preprocessor \<Rightarrow> bool" where
  "same_input pp pp' \<longleftrightarrow>
     lastChunkWritten pp' = lastChunkWritten pp \<and> pendingCR pp' = pendingCR pp \<and>
     bufferWaterline pp' = bufferWaterline pp"

definition pendingRun :: "Tokenizer \<Rightarrow> Position \<times> Registers" where
  "pendingRun tk =
     foldl feed (position (preprocessor tk), registers tk) (remaining (preprocessor tk))"

definition pull_spec :: "Tokenizer \<Rightarrow> PullResult \<times> Tokenizer \<Rightarrow> bool" where
  "pull_spec tk out \<longleftrightarrow>
     same_input (preprocessor tk) (preprocessor (snd out)) \<and>
     wf_pp (preprocessor (snd out)) \<and>
     (fst out = NeedMoreInput \<and>
        \<not> lastChunkWritten (preprocessor tk) \<and>
        remaining (preprocessor (snd out)) = [] \<and>
        pendingRun (snd out) = pendingRun tk \<and>
        \<not> sawEof (snd out)
      \<or> fst out = TokenDelivered \<and>
        \<not> sawEof (snd out) \<and>
        pendingRun (snd out) = pendingRun tk \<and>
        length (remaining (preprocessor (snd out))) < length (remaining (preprocessor tk))
      \<or> fst out = TokenDelivered \<and>
        lastChunkWritten (preprocessor tk) \<and>
        remaining (preprocessor (snd out)) = [] \<and>
        position (preprocessor (snd out)) = fst (pendingRun tk) \<and>
        registers (snd out) = stateEOF (snd (pendingRun tk)) (fst (pendingRun tk)))"

definition drained :: "Tokenizer \<Rightarrow> Tokenizer \<Rightarrow> bool" where
  "drained tk tk' \<longleftrightarrow>
     same_input (preprocessor tk) (preprocessor tk') \<and>
     wf_pp (preprocessor tk') \<and>
     remaining (preprocessor tk') = [] \<and>
     position (preprocessor tk') = fst (pendingRun tk) \<and>
     registers tk' =
       (if lastChunkWritten (preprocessor tk)
        then stateEOF (snd (pendingRun tk)) (fst (pendingRun tk))
        else snd (pendingRun tk))"

section \<open>Properties of the serializer\<close>

lemmas TAG_NAMES_defs =
  TN_AREA_def TN_BASE_def TN_BASEFONT_def TN_BGSOUND_def TN_BR_def TN_COL_def TN_EMBED_def
  TN_FRAME_def TN_HR_def TN_IMG_def TN_INPUT_def TN_KEYGEN_def TN_LINK_def TN_META_def
  TN_PARAM_def TN_SOURCE_def TN_TRACK_def TN_WBR_def TN_STYLE_def TN_SCRIPT_def TN_XMP_def
  TN_IFRAME_def TN_NOEMBED_def TN_NOFRAMES_def TN_PLAINTEXT_def TN_NOSCRIPT_def
  TN_TEMPLATE_def

subsection \<open>Escaping\<close>

lemma replace_g_Nil: "replace_g c r [] = []"
  by (simp add: replace_g_def)

lemma replace_g_append: "replace_g c r (xs @ ys) = replace_g c r xs @ replace_g c r ys"
  by (simp add: replace_g_def)

lemma replace_g_Cons: "replace_g c r (x # xs) = (if x = c then r else [x]) @ replace_g c r xs"
  by (simp add: replace_g_def)

lemma escapeString_Nil: "escapeString [] attrMode = []"
  by (simp add: escapeString_def replace_g_Nil)

lemma escapeString_single:
  "escapeString [x] attrMode =
     (if x = 0x26 then js ''&amp;''
      else if x = 0xA0 then js ''&nbsp;''
      else if attrMode then (if x = 0x22 then js ''&quot;'' else [x])
      else (if x = 0x3C then js ''&lt;'' else if x = 0x3E then js ''&gt;'' else [x]))"
  by (simp add: escapeString_def replace_g_Cons replace_g_Nil js_def
      AMP_REGEX_def NBSP_REGEX_def DOUBLE_QUOTE_REGEX_def LT_REGEX_def GT_REGEX_def)

lemma escapeString_append:
  "escapeString (xs @ ys) attrMode = escapeString xs attrMode @ escapeString ys attrMode"
  by (simp add: escapeString_def Let_def replace_g_append)

lemma escapeString_Cons:
  "escapeString (x # xs) attrMode = escapeString [x] attrMode @ escapeString xs attrMode"
  using escapeString_append [of "[x]" xs attrMode] by simp

text \<open>
  Claim C9. \<open>escapeString(str, attrMode)\<close> is the two-stage replacement the claim describes
  (first \<open>&\<close> and U+00A0, then the double quote in attribute mode, \<open><\<close> and \<open>>\<close> otherwise),
  and the stages do not interfere: the result is the concatenation, over the code units
  of \<open>str\<close> in order, of \<open>&amp;\<close> for \<open>&\<close>, \<open>&nbsp;\<close> for U+00A0, \<open>&quot;\<close> for the double
  quote in attribute mode only, \<open>&lt;\<close> and \<open>&gt;\<close> for \<open><\<close> and \<open>>\<close> outside attribute mode
  only, and the code unit itself in every other case.
\<close>

theorem escapeString_spec:
  "escapeString str attrMode =
     (if attrMode
      then replace_g 0x22 (js ''&quot;'')
             (replace_g 0xA0 (js ''&nbsp;'') (replace_g 0x26 (js ''&amp;'') str))
      else replace_g 0x3E (js ''&gt;'') (replace_g 0x3C (js ''&lt;'')
             (replace_g 0xA0 (js ''&nbsp;'') (replace_g 0x26 (js ''&amp;'') str)))) \<and>
   escapeString str attrMode =
     concat (map (\<lambda>x. if x = 0x26 then js ''&amp;''
                       else if x = 0xA0 then js ''&nbsp;''
                       else if attrMode then (if x = 0x22 then js ''&quot;'' else [x])
                       else (if x = 0x3C then js ''&lt;''
                             else if x = 0x3E then js ''&gt;'' else [x])) str)"
proof
  show "escapeString str attrMode =
     (if attrMode
      then replace_g 0x22 (js ''&quot;'')
             (replace_g 0xA0 (js ''&nbsp;'') (replace_g 0x26 (js ''&amp;'') str))
      else replace_g 0x3E (js ''&gt;'') (replace_g 0x3C (js ''&lt;'')
             (replace_g 0xA0 (js ''&nbsp;'') (replace_g 0x26 (js ''&amp;'') str))))"
    by (simp add: escapeString_def Let_def
        AMP_REGEX_def NBSP_REGEX_def DOUBLE_QUOTE_REGEX_def LT_REGEX_def GT_REGEX_def)
next
  show "escapeString str attrMode =
     concat (map (\<lambda>x. if x = 0x26 then js ''&amp;''
                       else if x = 0xA0 then js ''&nbsp;''
                       else if attrMode then (if x = 0x22 then js ''&quot;'' else [x])
                       else (if x = 0x3C then js ''&lt;''
                             else if x = 0x3E then js ''&gt;'' else [x])) str)"
  proof (induction str)
    case Nil
    show ?case by (simp add: escapeString_Nil)
  next
    case (Cons x xs)
    have "escapeString (x # xs) attrMode = escapeString [x] attrMode @ escapeString xs attrMode"
      by (rule escapeString_Cons)
    then show ?case
      by (simp only: Cons.IH escapeString_single list.map concat.simps)
  qed
qed

subsection \<open>Text nodes\<close>

text \<open>
  Claim C10. \<open>serializeTextNode\<close> returns the content of the text node as it is exactly
  when the node has a parent that is an element of the HTML namespace whose tag name is
  \<open>style\<close>, \<open>script\<close>, \<open>xmp\<close>, \<open>iframe\<close>, \<open>noembed\<close>, \<open>noframes\<close> or \<open>plaintext\<close>, or is
  \<open>noscript\<close> while \<open>scriptingEnabled\<close> is set; in every other case (no parent, a parent
  that is not an element, another namespace, another tag name) it returns
  \<open>escapeString(content, false)\<close>.
\<close>

theorem serializeTextNode_spec:
  "serializeTextNode NS node options =
     (if (\<exists>p. getParentNode (treeAdapter options) node = Some p \<and>
              isElementNode (treeAdapter options) p \<and>
              getNamespaceURI (treeAdapter options) p = NS_HTML NS \<and>
              (getTagName (treeAdapter options) p \<in>
                 {js ''style'', js ''script'', js ''xmp'', js ''iframe'', js ''noembed'',
                  js ''noframes'', js ''plaintext''} \<or>
               getTagName (treeAdapter options) p = js ''noscript'' \<and> scriptingEnabled options))
      then getTextNodeContent (treeAdapter options) node
      else escapeString (getTextNodeContent (treeAdapter options) node) False)"
proof (cases "getParentNode (treeAdapter options) node")
  case None
  then show ?thesis by (simp add: serializeTextNode_def)
next
  case (Some p)
  have ne: "js ''noscript'' \<noteq> []" "[] \<notin> UNESCAPED_TEXT"
    by (simp_all add: js_def UNESCAPED_TEXT_def TAG_NAMES_defs)
  show ?thesis
    using Some ne
    by (auto simp add: serializeTextNode_def Let_def hasUnescapedText_def UNESCAPED_TEXT_def
        TAG_NAMES_defs)
qed

theorem serializeTextNode_spec_witness:
  "serializeTextNode demoNS 5 (defaultOpts demoAdapter) = js ''x<y'' \<and>
   serializeTextNode demoNS 3 (defaultOpts demoAdapter) = js ''a&lt;b''"
  using serializeTextNode_spec [of demoNS 5 "defaultOpts demoAdapter"]
    serializeTextNode_spec [of demoNS 3 "defaultOpts demoAdapter"]
  by (simp add: defaultOpts_def demoAdapter_def demoNS_def js_def escapeString_def Let_def
      replace_g_def AMP_REGEX_def NBSP_REGEX_def LT_REGEX_def GT_REGEX_def)

subsection \<open>Void elements\<close>

text \<open>
  Claim C8. For an element of the HTML namespace whose tag name is one of \<open>area\<close>, \<open>base\<close>,
  \<open>basefont\<close>, \<open>bgsound\<close>, \<open>br\<close>, \<open>col\<close>, \<open>embed\<close>, \<open>frame\<close>, \<open>hr\<close>, \<open>img\<close>, \<open>input\<close>,
  \<open>keygen\<close>, \<open>link\<close>, \<open>meta\<close>, \<open>param\<close>, \<open>source\<close>, \<open>track\<close>, \<open>wbr\<close>, \<open>serialize\<close> returns
  the empty string, whatever the bound on the traversal, and \<open>serializeOuter\<close> returns the
  open tag only, \<open><\<close>, the tag name, the attributes and \<open>>\<close>: no children, no closing tag.
\<close>

theorem void_element_spec:
  assumes "isElementNode (treeAdapter (mergeOpts (defaultOpts D) options)) node"
    and "getNamespaceURI (treeAdapter (mergeOpts (defaultOpts D) options)) node = NS_HTML NS"
    and "getTagName (treeAdapter (mergeOpts (defaultOpts D) options)) node \<in>
           {js ''area'', js ''base'', js ''basefont'', js ''bgsound'', js ''br'', js ''col'',
            js ''embed'', js ''frame'', js ''hr'', js ''img'', js ''input'', js ''keygen'',
            js ''link'', js ''meta'', js ''param'', js ''source'', js ''track'', js ''wbr''}"
  shows "serialize fuel NS D node options = Some [] \<and>
         serializeOuter (Suc fuel) NS D node options =
           Some (js ''<'' @ getTagName (treeAdapter (mergeOpts (defaultOpts D) options)) node @
                 serializeAttributes NS node (mergeOpts (defaultOpts D) options) @ js ''>'')"
proof -
  have v: "isVoidElement NS node (mergeOpts (defaultOpts D) options)"
    using assms by (simp add: isVoidElement_def VOID_ELEMENTS_def TAG_NAMES_defs)
  show ?thesis
    using v assms(1) by (simp add: serialize_def serializeOuter_def Let_def)
qed

theorem void_element_spec_witness:
  "isElementNode demoAdapter 2 \<and>
   getNamespaceURI demoAdapter 2 = NS_HTML demoNS \<and>
   getTagName demoAdapter 2 = js ''br'' \<and>
   serialize 0 demoNS demoAdapter 2 None = Some [] \<and>
   serializeOuter 1 demoNS demoAdapter 2 None = Some (js ''<br title=\"a&amp;b\">'')"
  using void_element_spec [of demoAdapter None 2 demoNS 0]
  by (simp add: mergeOpts_def defaultOpts_def demoAdapter_def demoNS_def js_def
      serializeAttributes_def serializeAttribute_def escapeString_def Let_def replace_g_def
      AMP_REGEX_def NBSP_REGEX_def DOUBLE_QUOTE_REGEX_def)

section \<open>Properties of the tokenizer\<close>

subsection \<open>Normalization\<close>

lemma normalize_Cons_other:
  "c \<noteq> CR \<Longrightarrow> normalizeNewlines (c # cs) l = ((c, 1) # fst (normalizeNewlines cs l), snd (normalizeNewlines cs l))"
  by (cases cs) (simp_all add: split_def Let_def)

lemma normalize_CR_LF:
  "normalizeNewlines (CR # LF # cs) l = ((LF, 2) # fst (normalizeNewlines cs l), snd (normalizeNewlines cs l))"
  by (simp add: split_def Let_def)

lemma normalize_CR_other:
  "d \<noteq> LF \<Longrightarrow>
   normalizeNewlines (CR # d # cs) l = ((LF, 1) # fst (normalizeNewlines (d # cs) l), snd (normalizeNewlines (d # cs) l))"
  by (simp add: split_def Let_def)

lemma normalize_append:
  "normalizeNewlines (a @ b) l =
     (fst (normalizeNewlines a False) @
        fst (normalizeNewlines ((if snd (normalizeNewlines a False) then [CR] else []) @ b) l),
      snd (normalizeNewlines ((if snd (normalizeNewlines a False) then [CR] else []) @ b) l))"
proof (induction a "False" rule: normalizeNewlines.induct)
  case 1
  show ?case by simp
next
  case (2 c)
  show ?case
  proof (cases "c = CR")
    case True
    then show ?thesis by simp
  next
    case False
    then show ?thesis by (simp add: normalize_Cons_other)
  qed
next
  case (3 c d cs)
  show ?case
  proof (cases "c = CR \<and> d = LF")
    case True
    with 3 show ?thesis by (simp add: split_def Let_def)
  next
    case False
    with 3 show ?thesis by (auto simp add: split_def Let_def)
  qed
qed

lemma widthOf_Nil: "widthOf [] = 0"
  by (simp add: widthOf_def)

lemma widthOf_Cons: "widthOf (i # is) = snd i + widthOf is"
  by (simp add: widthOf_def)

lemma widthOf_append: "widthOf (xs @ ys) = widthOf xs + widthOf ys"
  by (simp add: widthOf_def)




subsection \<open>The preprocessor\<close>

lemma advance_empty:
  "remaining pp = [] \<Longrightarrow>
   advance pp = (if lastChunkWritten pp then EndOfInput else NeedMoreData, pp)"
  by (simp add: advance_def remaining_def)

lemma remaining_Cons:
  assumes "remaining pp = i # is"
  shows "pos pp < length (html pp)" and "html pp ! pos pp = i"
    and "drop (Suc (pos pp)) (html pp) = is"
    and "take (Suc (pos pp)) (html pp) = take (pos pp) (html pp) @ [i]"
proof -
  show lt: "pos pp < length (html pp)"
    using assms by (cases "pos pp < length (html pp)") (simp_all add: remaining_def)
  from lt have "drop (pos pp) (html pp) = html pp ! pos pp # drop (Suc (pos pp)) (html pp)"
    by (simp add: Cons_nth_drop_Suc)
  with assms show nth: "html pp ! pos pp = i" and "drop (Suc (pos pp)) (html pp) = is"
    by (simp_all add: remaining_def)
  from lt nth show "take (Suc (pos pp)) (html pp) = take (pos pp) (html pp) @ [i]"
    by (simp add: take_Suc_conv_app_nth)
qed

lemma advance_Cons:
  assumes "remaining pp = i # is"
  shows "fst (advance pp) = CodePoint (fst i)"
    and "remaining (snd (advance pp)) = is"
    and "position (snd (advance pp)) = advancePosition (position pp) i"
    and "lastChunkWritten (snd (advance pp)) = lastChunkWritten pp"
    and "pendingCR (snd (advance pp)) = pendingCR pp"
    and "bufferWaterline (snd (advance pp)) = bufferWaterline pp"
    and "pos (snd (advance pp)) \<le> length (html (snd (advance pp)))"
  using remaining_Cons [OF assms]
  by (simp_all add: advance_def compact_def Let_def remaining_def position_def
      advancePosition_def widthOf_append widthOf_Cons widthOf_Nil)

subsection \<open>What a step of the state machine keeps\<close>

lemma toToken_not_eof [simp]: "\<not> isEndOfFile (toToken t loc)"
  by (cases t) simp_all

lemma emitCurrentCharacterToken_keeps [simp]:
  "sourceCodeLocationInfo (emitCurrentCharacterToken r p) = sourceCodeLocationInfo r"
  "filter isEndOfFile (emitted (emitCurrentCharacterToken r p)) = filter isEndOfFile (emitted r)"
  by (simp_all add: emitCurrentCharacterToken_def split: option.split)

lemma appendCharToCurrentCharacterToken_keeps [simp]:
  "sourceCodeLocationInfo (appendCharToCurrentCharacterToken r k c p) = sourceCodeLocationInfo r"
  "filter isEndOfFile (emitted (appendCharToCurrentCharacterToken r k c p)) =
     filter isEndOfFile (emitted r)"
  by (simp_all add: appendCharToCurrentCharacterToken_def split: option.split)

lemma emitCodePoint_keeps [simp]:
  "sourceCodeLocationInfo (emitCodePoint r c p) = sourceCodeLocationInfo r"
  "filter isEndOfFile (emitted (emitCodePoint r c p)) = filter isEndOfFile (emitted r)"
  by (simp_all add: emitCodePoint_def)

lemma emitChars_keeps [simp]:
  "sourceCodeLocationInfo (emitChars r cs p) = sourceCodeLocationInfo r"
  "filter isEndOfFile (emitted (emitChars r cs p)) = filter isEndOfFile (emitted r)"
  by (induction r cs p rule: emitChars.induct) simp_all

lemma emitCurrentToken_keeps [simp]:
  "sourceCodeLocationInfo (emitCurrentToken r p) = sourceCodeLocationInfo r"
  "filter isEndOfFile (emitted (emitCurrentToken r p)) = filter isEndOfFile (emitted r)"
  by (simp_all add: emitCurrentToken_def Let_def split: option.split)

lemma builders_keep [simp]:
  "sourceCodeLocationInfo (appendToTagName r c) = sourceCodeLocationInfo r"
  "emitted (appendToTagName r c) = emitted r"
  "sourceCodeLocationInfo (createAttr r n) = sourceCodeLocationInfo r"
  "emitted (createAttr r n) = emitted r"
  "sourceCodeLocationInfo (appendToAttrName r c) = sourceCodeLocationInfo r"
  "emitted (appendToAttrName r c) = emitted r"
  "sourceCodeLocationInfo (appendToAttrValue r c) = sourceCodeLocationInfo r"
  "emitted (appendToAttrValue r c) = emitted r"
  "sourceCodeLocationInfo (setSelfClosing r) = sourceCodeLocationInfo r"
  "emitted (setSelfClosing r) = emitted r"
  "sourceCodeLocationInfo (appendToComment r cs) = sourceCodeLocationInfo r"
  "emitted (appendToComment r cs) = emitted r"
  "sourceCodeLocationInfo (appendToDoctypeName r c) = sourceCodeLocationInfo r"
  "emitted (appendToDoctypeName r c) = emitted r"
  "sourceCodeLocationInfo (setForceQuirks r) = sourceCodeLocationInfo r"
  "emitted (setForceQuirks r) = emitted r"
  by (simp_all add: appendToTagName_def createAttr_def appendToAttrName_def
      appendToAttrValue_def setSelfClosing_def appendToComment_def appendToDoctypeName_def
      setForceQuirks_def)

lemma stateData_keeps [simp]:
  "sourceCodeLocationInfo (stateData r c pb pa) = sourceCodeLocationInfo r"
  "filter isEndOfFile (emitted (stateData r c pb pa)) = filter isEndOfFile (emitted r)"
  by (simp_all add: stateData_def)

lemma stateText_keeps [simp]:
  "sourceCodeLocationInfo (stateText m r c pb pa) = sourceCodeLocationInfo r"
  "filter isEndOfFile (emitted (stateText m r c pb pa)) = filter isEndOfFile (emitted r)"
  by (simp_all add: stateText_def)

lemma statePlaintext_keeps [simp]:
  "sourceCodeLocationInfo (statePlaintext r c pb pa) = sourceCodeLocationInfo r"
  "filter isEndOfFile (emitted (statePlaintext r c pb pa)) = filter isEndOfFile (emitted r)"
  by (simp_all add: statePlaintext_def)

lemma stateTagName_keeps [simp]:
  "sourceCodeLocationInfo (stateTagName r c pb pa) = sourceCodeLocationInfo r"
  "filter isEndOfFile (emitted (stateTagName r c pb pa)) = filter isEndOfFile (emitted r)"
  by (simp_all add: stateTagName_def)

lemma stateBogusComment_keeps [simp]:
  "sourceCodeLocationInfo (stateBogusComment r c pb pa) = sourceCodeLocationInfo r"
  "filter isEndOfFile (emitted (stateBogusComment r c pb pa)) = filter isEndOfFile (emitted r)"
  by (simp_all add: stateBogusComment_def)

lemma stateTagOpen_keeps [simp]:
  "sourceCodeLocationInfo (stateTagOpen r c pb pa) = sourceCodeLocationInfo r"
  "filter isEndOfFile (emitted (stateTagOpen r c pb pa)) = filter isEndOfFile (emitted r)"
  by (simp_all add: stateTagOpen_def)

lemma stateEndTagOpen_keeps [simp]:
  "sourceCodeLocationInfo (stateEndTagOpen r c pb pa) = sourceCodeLocationInfo r"
  "filter isEndOfFile (emitted (stateEndTagOpen r c pb pa)) = filter isEndOfFile (emitted r)"
  by (simp_all add: stateEndTagOpen_def)

lemma stateTextLessThanSign_keeps [simp]:
  "sourceCodeLocationInfo (stateTextLessThanSign m r c pb pa) = sourceCodeLocationInfo r"
  "filter isEndOfFile (emitted (stateTextLessThanSign m r c pb pa)) =
     filter isEndOfFile (emitted r)"
  by (simp_all add: stateTextLessThanSign_def)

lemma stateTextEndTagName_keeps [simp]:
  "sourceCodeLocationInfo (stateTextEndTagName m r c pb pa) = sourceCodeLocationInfo r"
  "filter isEndOfFile (emitted (stateTextEndTagName m r c pb pa)) =
     filter isEndOfFile (emitted r)"
  by (simp_all add: stateTextEndTagName_def)

lemma stateTextEndTagOpen_keeps [simp]:
  "sourceCodeLocationInfo (stateTextEndTagOpen m r c pb pa) = sourceCodeLocationInfo r"
  "filter isEndOfFile (emitted (stateTextEndTagOpen m r c pb pa)) =
     filter isEndOfFile (emitted r)"
  by (simp_all add: stateTextEndTagOpen_def)

lemma stateAttributeName_keeps [simp]:
  "sourceCodeLocationInfo (stateAttributeName r c pb pa) = sourceCodeLocationInfo r"
  "filter isEndOfFile (emitted (stateAttributeName r c pb pa)) = filter isEndOfFile (emitted r)"
  by (simp_all add: stateAttributeName_def)

lemma stateAfterAttributeName_keeps [simp]:
  "sourceCodeLocationInfo (stateAfterAttributeName r c pb pa) = sourceCodeLocationInfo r"
  "filter isEndOfFile (emitted (stateAfterAttributeName r c pb pa)) =
     filter isEndOfFile (emitted r)"
  by (simp_all add: stateAfterAttributeName_def)

lemma stateBeforeAttributeName_keeps [simp]:
  "sourceCodeLocationInfo (stateBeforeAttributeName r c pb pa) = sourceCodeLocationInfo r"
  "filter isEndOfFile (emitted (stateBeforeAttributeName r c pb pa)) =
     filter isEndOfFile (emitted r)"
  by (simp_all add: stateBeforeAttributeName_def)

lemma stateAttributeValueUnquoted_keeps [simp]:
  "sourceCodeLocationInfo (stateAttributeValueUnquoted r c pb pa) = sourceCodeLocationInfo r"
  "filter isEndOfFile (emitted (stateAttributeValueUnquoted r c pb pa)) =
     filter isEndOfFile (emitted r)"
  by (simp_all add: stateAttributeValueUnquoted_def)

lemma stateBeforeAttributeValue_keeps [simp]:
  "sourceCodeLocationInfo (stateBeforeAttributeValue r c pb pa) = sourceCodeLocationInfo r"
  "filter isEndOfFile (emitted (stateBeforeAttributeValue r c pb pa)) =
     filter isEndOfFile (emitted r)"
  by (simp_all add: stateBeforeAttributeValue_def)

lemma stateAttributeValueQuoted_keeps [simp]:
  "sourceCodeLocationInfo (stateAttributeValueQuoted q r c pb pa) = sourceCodeLocationInfo r"
  "filter isEndOfFile (emitted (stateAttributeValueQuoted q r c pb pa)) =
     filter isEndOfFile (emitted r)"
  by (simp_all add: stateAttributeValueQuoted_def)

lemma stateAfterAttributeValueQuoted_keeps [simp]:
  "sourceCodeLocationInfo (stateAfterAttributeValueQuoted r c pb pa) = sourceCodeLocationInfo r"
  "filter isEndOfFile (emitted (stateAfterAttributeValueQuoted r c pb pa)) =
     filter isEndOfFile (emitted r)"
  by (simp_all add: stateAfterAttributeValueQuoted_def)

lemma stateSelfClosingStartTag_keeps [simp]:
  "sourceCodeLocationInfo (stateSelfClosingStartTag r c pb pa) = sourceCodeLocationInfo r"
  "filter isEndOfFile (emitted (stateSelfClosingStartTag r c pb pa)) =
     filter isEndOfFile (emitted r)"
  by (simp_all add: stateSelfClosingStartTag_def)

lemma stateMarkupDeclarationOpen_keeps [simp]:
  "sourceCodeLocationInfo (stateMarkupDeclarationOpen r c pb pa) = sourceCodeLocationInfo r"
  "filter isEndOfFile (emitted (stateMarkupDeclarationOpen r c pb pa)) =
     filter isEndOfFile (emitted r)"
  by (simp_all add: stateMarkupDeclarationOpen_def Let_def)

lemma stateComment_keeps [simp]:
  "sourceCodeLocationInfo (stateComment r c pb pa) = sourceCodeLocationInfo r"
  "filter isEndOfFile (emitted (stateComment r c pb pa)) = filter isEndOfFile (emitted r)"
  by (simp_all add: stateComment_def)

lemma stateCommentStart_keeps [simp]:
  "sourceCodeLocationInfo (stateCommentStart r c pb pa) = sourceCodeLocationInfo r"
  "filter isEndOfFile (emitted (stateCommentStart r c pb pa)) = filter isEndOfFile (emitted r)"
  by (simp_all add: stateCommentStart_def)

lemma stateCommentStartDash_keeps [simp]:
  "sourceCodeLocationInfo (stateCommentStartDash r c pb pa) = sourceCodeLocationInfo r"
  "filter isEndOfFile (emitted (stateCommentStartDash r c pb pa)) =
     filter isEndOfFile (emitted r)"
  by (simp_all add: stateCommentStartDash_def)

lemma stateCommentEndDash_keeps [simp]:
  "sourceCodeLocationInfo (stateCommentEndDash r c pb pa) = sourceCodeLocationInfo r"
  "filter isEndOfFile (emitted (stateCommentEndDash r c pb pa)) = filter isEndOfFile (emitted r)"
  by (simp_all add: stateCommentEndDash_def)

lemma stateCommentEnd_keeps [simp]:
  "sourceCodeLocationInfo (stateCommentEnd r c pb pa) = sourceCodeLocationInfo r"
  "filter isEndOfFile (emitted (stateCommentEnd r c pb pa)) = filter isEndOfFile (emitted r)"
  by (simp_all add: stateCommentEnd_def)

lemma stateCommentEndBang_keeps [simp]:
  "sourceCodeLocationInfo (stateCommentEndBang r c pb pa) = sourceCodeLocationInfo r"
  "filter isEndOfFile (emitted (stateCommentEndBang r c pb pa)) = filter isEndOfFile (emitted r)"
  by (simp_all add: stateCommentEndBang_def)

lemma stateBeforeDoctypeName_keeps [simp]:
  "sourceCodeLocationInfo (stateBeforeDoctypeName r c pb pa) = sourceCodeLocationInfo r"
  "filter isEndOfFile (emitted (stateBeforeDoctypeName r c pb pa)) =
     filter isEndOfFile (emitted r)"
  by (simp_all add: stateBeforeDoctypeName_def)

lemma stateDoctype_keeps [simp]:
  "sourceCodeLocationInfo (stateDoctype r c pb pa) = sourceCodeLocationInfo r"
  "filter isEndOfFile (emitted (stateDoctype r c pb pa)) = filter isEndOfFile (emitted r)"
  by (simp_all add: stateDoctype_def)

lemma stateDoctypeName_keeps [simp]:
  "sourceCodeLocationInfo (stateDoctypeName r c pb pa) = sourceCodeLocationInfo r"
  "filter isEndOfFile (emitted (stateDoctypeName r c pb pa)) = filter isEndOfFile (emitted r)"
  by (simp_all add: stateDoctypeName_def)

lemma stateAfterDoctypeName_keeps [simp]:
  "sourceCodeLocationInfo (stateAfterDoctypeName r c pb pa) = sourceCodeLocationInfo r"
  "filter isEndOfFile (emitted (stateAfterDoctypeName r c pb pa)) =
     filter isEndOfFile (emitted r)"
  by (simp_all add: stateAfterDoctypeName_def)

lemma stateBogusDoctype_keeps [simp]:
  "sourceCodeLocationInfo (stateBogusDoctype r c pb pa) = sourceCodeLocationInfo r"
  "filter isEndOfFile (emitted (stateBogusDoctype r c pb pa)) = filter isEndOfFile (emitted r)"
  by (simp_all add: stateBogusDoctype_def)

lemma stateCdataSection_keeps [simp]:
  "sourceCodeLocationInfo (stateCdataSection r c pb pa) = sourceCodeLocationInfo r"
  "filter isEndOfFile (emitted (stateCdataSection r c pb pa)) = filter isEndOfFile (emitted r)"
  by (simp_all add: stateCdataSection_def)

lemma stateCdataSectionBracket_keeps [simp]:
  "sourceCodeLocationInfo (stateCdataSectionBracket r c pb pa) = sourceCodeLocationInfo r"
  "filter isEndOfFile (emitted (stateCdataSectionBracket r c pb pa)) =
     filter isEndOfFile (emitted r)"
  by (simp_all add: stateCdataSectionBracket_def)

lemma stateCdataSectionEnd_keeps [simp]:
  "sourceCodeLocationInfo (stateCdataSectionEnd r c pb pa) = sourceCodeLocationInfo r"
  "filter isEndOfFile (emitted (stateCdataSectionEnd r c pb pa)) =
     filter isEndOfFile (emitted r)"
  by (simp_all add: stateCdataSectionEnd_def)

lemma callState_keeps:
  "sourceCodeLocationInfo (callState r c pb pa) = sourceCodeLocationInfo r"
  "filter isEndOfFile (emitted (callState r c pb pa)) = filter isEndOfFile (emitted r)"
  by (simp_all add: callState_def split: State.split)


lemma emitEOFToken_emitted:
  "emitted (emitEOFToken r p) =
     emitted (emitCurrentCharacterToken r p) @ [EndOfFile (getLocation r p p)]"
  by (simp add: emitEOFToken_def Let_def)

lemma getLocation_cong:
  "sourceCodeLocationInfo r' = sourceCodeLocationInfo r \<Longrightarrow> getLocation r' s e = getLocation r s e"
  by (simp add: getLocation_def)

lemma emitEOFToken_after:
  assumes "sourceCodeLocationInfo r' = sourceCodeLocationInfo r"
    and "filter isEndOfFile (emitted r') = filter isEndOfFile (emitted r)"
  shows "\<exists>ts. emitted (emitEOFToken r' p) = ts @ [EndOfFile (getLocation r p p)] \<and>
              filter isEndOfFile ts = filter isEndOfFile (emitted r)"
  using assms
  by (simp add: emitEOFToken_emitted getLocation_cong [OF assms(1)])

lemma stateEOF_emitted:
  "\<exists>ts. emitted (stateEOF r p) = ts @ [EndOfFile (getLocation r p p)] \<and>
        filter isEndOfFile ts = filter isEndOfFile (emitted r)"
  unfolding stateEOF_def
  by (cases "state r") (simp_all add: emitEOFToken_after)

lemma sawEof_stateEOF: "sawEof (tk\<lparr>registers := stateEOF r p\<rparr>)"
proof -
  obtain ts where "emitted (stateEOF r p) = ts @ [EndOfFile (getLocation r p p)]"
    using stateEOF_emitted by blast
  then show ?thesis by (simp add: sawEof_def)
qed

lemma sawEof_filter: "sawEof tk \<longleftrightarrow> filter isEndOfFile (emitted (registers tk)) \<noteq> []"
  by (simp add: sawEof_def list_ex_iff filter_empty_conv)

lemma feed_keeps:
  "sourceCodeLocationInfo (snd (feed s i)) = sourceCodeLocationInfo (snd s)"
  "filter isEndOfFile (emitted (snd (feed s i))) = filter isEndOfFile (emitted (snd s))"
  "fst (feed s i) = advancePosition (fst s) i"
  by (simp_all add: feed_def Let_def callState_keeps)

lemma foldl_feed_keeps:
  "sourceCodeLocationInfo (snd (foldl feed s items)) = sourceCodeLocationInfo (snd s)"
  "filter isEndOfFile (emitted (snd (foldl feed s items))) = filter isEndOfFile (emitted (snd s))"
  "fst (foldl feed s items) = foldl advancePosition (fst s) items"
  by (induction items arbitrary: s) (simp_all add: feed_keeps)

lemma offset_foldl_advancePosition:
  "offset (foldl advancePosition p items) = offset p + widthOf items"
  by (induction items arbitrary: p) (simp_all add: widthOf_Nil widthOf_Cons advancePosition_def)

subsection \<open>One call of getNextToken\<close>

lemma pull_spec_step:
  assumes "pull_spec tk1 out"
    and "same_input (preprocessor tk) (preprocessor tk1)"
    and "pendingRun tk1 = pendingRun tk"
    and "length (remaining (preprocessor tk1)) < length (remaining (preprocessor tk))"
  shows "pull_spec tk out"
proof -
  have l: "lastChunkWritten (preprocessor tk1) = lastChunkWritten (preprocessor tk)"
    using assms(2) by (simp add: same_input_def)
  have s: "same_input (preprocessor tk) (preprocessor (snd out))"
    using assms(1,2) by (simp add: pull_spec_def same_input_def)
  have w: "wf_pp (preprocessor (snd out))"
    using assms(1) by (simp add: pull_spec_def)
  from assms(1) consider
    (more) "fst out = NeedMoreInput" "\<not> lastChunkWritten (preprocessor tk1)"
      "remaining (preprocessor (snd out)) = []" "pendingRun (snd out) = pendingRun tk1"
      "\<not> sawEof (snd out)"
  | (tok) "fst out = TokenDelivered" "\<not> sawEof (snd out)"
      "pendingRun (snd out) = pendingRun tk1"
      "length (remaining (preprocessor (snd out))) < length (remaining (preprocessor tk1))"
  | (eof) "fst out = TokenDelivered" "lastChunkWritten (preprocessor tk1)"
      "remaining (preprocessor (snd out)) = []"
      "position (preprocessor (snd out)) = fst (pendingRun tk1)"
      "registers (snd out) = stateEOF (snd (pendingRun tk1)) (fst (pendingRun tk1))"
    unfolding pull_spec_def by blast
  then show ?thesis
  proof cases
    case more
    then show ?thesis
      unfolding pull_spec_def using s w l assms(3) by simp
  next
    case tok
    then have "length (remaining (preprocessor (snd out))) < length (remaining (preprocessor tk))"
      using assms(4) by simp
    with tok show ?thesis
      unfolding pull_spec_def using s w assms(3) by simp
  next
    case eof
    then show ?thesis
      unfolding pull_spec_def using s w l assms(3) by simp
  qed
qed

lemma getNextToken_result:
  assumes "\<not> sawEof tk" and "wf_pp (preprocessor tk)"
  shows "pull_spec tk (getNextToken tk)"
  using assms
proof (induction "length (remaining (preprocessor tk))" arbitrary: tk rule: less_induct)
  case less
  let ?pp = "preprocessor tk"
  have wf: "wf_pp ?pp"
    using less.prems by simp
  show ?case
  proof (cases "remaining ?pp")
    case Nil
    have adv: "advance ?pp = (if lastChunkWritten ?pp then EndOfInput else NeedMoreData, ?pp)"
      using Nil by (rule advance_empty)
    have run: "pendingRun tk = (position ?pp, registers tk)"
      using Nil by (simp add: pendingRun_def)
    show ?thesis
    proof (cases "lastChunkWritten ?pp")
      case True
      then have "getNextToken tk =
          (TokenDelivered, tk\<lparr>registers := stateEOF (registers tk) (position ?pp)\<rparr>)"
        using less.prems adv by (subst getNextToken.simps) simp
      then show ?thesis
        using True Nil wf run by (simp add: pull_spec_def same_input_def)
    next
      case False
      then have "getNextToken tk = (NeedMoreInput, tk)"
        using less.prems adv by (subst getNextToken.simps) simp
      then show ?thesis
        using False Nil wf run less.prems(1) by (simp add: pull_spec_def same_input_def)
    qed
  next
    case (Cons i rest)
    obtain pp where pp: "pp = snd (advance ?pp)" by simp
    have adv: "advance ?pp = (CodePoint (fst i), pp)"
      using advance_Cons(1) [OF Cons] pp by (simp add: prod_eq_iff)
    have rem: "remaining pp = rest"
      and posn: "position pp = advancePosition (position ?pp) i"
      and same: "same_input ?pp pp"
      and wf': "wf_pp pp"
      using advance_Cons [OF Cons] pp by (simp_all add: same_input_def wf_pp_def)
    define r where "r = callState (registers tk) (fst i) (position ?pp) (position pp)"
    define tk' where "tk' = tk\<lparr>preprocessor := pp, registers := r\<rparr>"
    have fd: "feed (position ?pp, registers tk) i = (position pp, r)"
      by (simp add: feed_def Let_def posn r_def)
    have run: "pendingRun tk' = pendingRun tk"
      using Cons rem fd by (simp add: pendingRun_def tk'_def)
    have noeof: "\<not> sawEof tk'"
      using less.prems(1) by (simp add: sawEof_filter callState_keeps tk'_def r_def)
    have shorter: "length (remaining (preprocessor tk')) < length (remaining ?pp)"
      using Cons rem by (simp add: tk'_def)
    have pp': "preprocessor tk' = pp"
      by (simp add: tk'_def)
    show ?thesis
    proof (cases "length (emitted (registers tk)) < length (emitted r)")
      case True
      then have "getNextToken tk = (TokenDelivered, tk')"
        using less.prems adv by (subst getNextToken.simps) (simp add: Let_def r_def tk'_def)
      then show ?thesis
        using same wf' run noeof shorter pp' by (simp add: pull_spec_def)
    next
      case False
      then have eq: "getNextToken tk = getNextToken tk'"
        using less.prems adv by (subst getNextToken.simps) (simp add: Let_def r_def tk'_def)
      have "pull_spec tk' (getNextToken tk')"
        using less.hyps [OF shorter noeof] wf' pp' by simp
      moreover have "same_input ?pp (preprocessor tk')"
        using same pp' by simp
      ultimately show ?thesis
        unfolding eq using run shorter by (rule pull_spec_step)
    qed
  qed
qed

subsection \<open>The loops\<close>

lemma sawEof_registers_stateEOF: "registers tk = stateEOF r p \<Longrightarrow> sawEof tk"
proof -
  assume a: "registers tk = stateEOF r p"
  obtain ts where "emitted (stateEOF r p) = ts @ [EndOfFile (getLocation r p p)]"
    using stateEOF_emitted by blast
  with a show ?thesis by (simp add: sawEof_def)
qed



lemma pullUntilEof_result:
  assumes "\<not> sawEof tk" and "wf_pp (preprocessor tk)" and "lastChunkWritten (preprocessor tk)"
  shows "\<exists>tk'. pullUntilEof tk = Some tk' \<and> drained tk tk'"
  using assms
proof (induction "length (remaining (preprocessor tk))" arbitrary: tk rule: less_induct)
  case less
  define out where "out = getNextToken tk"
  have spec: "pull_spec tk out"
    unfolding out_def using less.prems(1,2) by (rule getNextToken_result)
  have step: "pullUntilEof tk = pullUntilEof (snd out)"
    using less.prems(1) by (subst pullUntilEof.simps) (simp add: out_def)
  from spec less.prems(3) consider
    (tok) "fst out = TokenDelivered" "\<not> sawEof (snd out)"
      "pendingRun (snd out) = pendingRun tk"
      "length (remaining (preprocessor (snd out))) < length (remaining (preprocessor tk))"
  | (eof) "fst out = TokenDelivered" "lastChunkWritten (preprocessor tk)"
      "remaining (preprocessor (snd out)) = []"
      "position (preprocessor (snd out)) = fst (pendingRun tk)"
      "registers (snd out) = stateEOF (snd (pendingRun tk)) (fst (pendingRun tk))"
    unfolding pull_spec_def by blast
  then show ?case
  proof cases
    case tok
    have wf: "wf_pp (preprocessor (snd out))"
      and last: "lastChunkWritten (preprocessor (snd out))"
      using spec less.prems(3) by (simp_all add: pull_spec_def same_input_def)
    obtain tk' where tk': "pullUntilEof (snd out) = Some tk'" "drained (snd out) tk'"
      using less.hyps [OF tok(4) tok(2) wf last] by blast
    have "drained tk tk'"
      using tk'(2) spec tok(3) by (simp add: drained_def pull_spec_def same_input_def)
    with step tk'(1) show ?thesis by simp
  next
    case eof
    have "sawEof (snd out)"
      using eof(5) by (rule sawEof_registers_stateEOF)
    then have "pullUntilEof (snd out) = Some (snd out)"
      by (subst pullUntilEof.simps) simp
    moreover have "drained tk (snd out)"
      using spec eof by (simp add: drained_def pull_spec_def)
    ultimately show ?thesis using step by simp
  qed
qed

subsection \<open>Writing chunks\<close>

lemma appendChunk_props:
  assumes "wf_pp pp"
  shows "remaining (appendChunk pp c l) =
           remaining pp @ fst (normalizeNewlines ((if pendingCR pp then [CR] else []) @ c) l)"
    and "position (appendChunk pp c l) = position pp"
    and "pendingCR (appendChunk pp c l) =
           snd (normalizeNewlines ((if pendingCR pp then [CR] else []) @ c) l)"
    and "lastChunkWritten (appendChunk pp c l) = l"
    and "bufferWaterline (appendChunk pp c l) = bufferWaterline pp"
    and "wf_pp (appendChunk pp c l)"
  using assms
  by (simp_all add: appendChunk_def remaining_def position_def wf_pp_def split_def Let_def)

lemma writeAll_props:
  assumes "chunks \<noteq> []" and "wf_pp (preprocessor tk)"
  shows "remaining (preprocessor (writeAll tk chunks)) =
           remaining (preprocessor tk) @
           fst (normalizeNewlines
                  ((if pendingCR (preprocessor tk) then [CR] else []) @ concat chunks) True) \<and>
         position (preprocessor (writeAll tk chunks)) = position (preprocessor tk) \<and>
         lastChunkWritten (preprocessor (writeAll tk chunks)) \<and>
         wf_pp (preprocessor (writeAll tk chunks)) \<and>
         registers (writeAll tk chunks) = registers tk"
  using assms
proof (induction tk chunks rule: writeAll.induct)
  case (1 tk)
  then show ?case by simp
next
  case (2 tk chunk)
  then show ?case by (simp add: write_tk_def appendChunk_props)
next
  case (3 tk chunk c2 cs)
  let ?tk1 = "write_tk tk chunk False"
  have wf1: "wf_pp (preprocessor ?tk1)"
    using "3.prems"(2) by (simp add: write_tk_def appendChunk_props)
  have IH: "remaining (preprocessor (writeAll ?tk1 (c2 # cs))) =
           remaining (preprocessor ?tk1) @
           fst (normalizeNewlines
                  ((if pendingCR (preprocessor ?tk1) then [CR] else []) @ concat (c2 # cs)) True) \<and>
         position (preprocessor (writeAll ?tk1 (c2 # cs))) = position (preprocessor ?tk1) \<and>
         lastChunkWritten (preprocessor (writeAll ?tk1 (c2 # cs))) \<and>
         wf_pp (preprocessor (writeAll ?tk1 (c2 # cs))) \<and>
         registers (writeAll ?tk1 (c2 # cs)) = registers ?tk1"
    using "3.IH" wf1 by simp
  have split: "normalizeNewlines
         (((if pendingCR (preprocessor tk) then [CR] else []) @ chunk) @ concat (c2 # cs)) True =
       (fst (normalizeNewlines ((if pendingCR (preprocessor tk) then [CR] else []) @ chunk) False) @
        fst (normalizeNewlines
              ((if pendingCR (preprocessor ?tk1) then [CR] else []) @ concat (c2 # cs)) True),
        snd (normalizeNewlines
              ((if pendingCR (preprocessor ?tk1) then [CR] else []) @ concat (c2 # cs)) True))"
    using "3.prems"(2)
    by (subst normalize_append) (simp add: write_tk_def appendChunk_props)
  show ?case
    using IH split "3.prems"(2) by (simp add: write_tk_def appendChunk_props)
qed

subsection \<open>Sessions\<close>

lemma newTokenizer_props:
  "remaining (preprocessor (newTokenizer li w)) = []"
  "position (preprocessor (newTokenizer li w)) = \<lparr>offset = 0, line = 1, col = 1\<rparr>"
  "pendingCR (preprocessor (newTokenizer li w)) = False"
  "wf_pp (preprocessor (newTokenizer li w))"
  "registers (newTokenizer li w) = initialRegisters li"
  "emitted (initialRegisters li) = []"
  "sourceCodeLocationInfo (initialRegisters li) = li"
  by (simp_all add: newTokenizer_def initialRegisters_def remaining_def position_def wf_pp_def
      widthOf_Nil)

lemma locationInfoTest_tokenize:
  assumes "htmlChunks \<noteq> []"
  shows "\<exists>tk. locationInfoTest d w mode l f htmlChunks = Some tk \<and>
              emitted (registers tk) = tokenize mode l f (concat htmlChunks)"
proof -
  define tk1 where "tk1 = writeAll (newTokenizer True d) htmlChunks"
  define tk2 where "tk2 = tk1
            \<lparr>preprocessor := (preprocessor tk1)\<lparr>bufferWaterline := w\<rparr>,
             registers := (registers tk1)
               \<lparr>state := mode, lastStartTagName := l, inForeignNode := f\<rparr>\<rparr>"
  have w1: "remaining (preprocessor tk1) = fst (normalizeNewlines (concat htmlChunks) True)"
    "position (preprocessor tk1) = \<lparr>offset = 0, line = 1, col = 1\<rparr>"
    "lastChunkWritten (preprocessor tk1)"
    "wf_pp (preprocessor tk1)"
    "registers tk1 = initialRegisters True"
    using writeAll_props [OF assms newTokenizer_props(4), of True d]
    by (simp_all add: tk1_def newTokenizer_props)
  have w2: "remaining (preprocessor tk2) = fst (normalizeNewlines (concat htmlChunks) True)"
    "position (preprocessor tk2) = \<lparr>offset = 0, line = 1, col = 1\<rparr>"
    "lastChunkWritten (preprocessor tk2)"
    "wf_pp (preprocessor tk2)"
    using w1 by (simp_all add: tk2_def remaining_def position_def wf_pp_def)
  have noeof: "\<not> sawEof tk2"
    using w1(5) by (simp add: tk2_def sawEof_def newTokenizer_props)
  obtain tk' where tk': "pullUntilEof tk2 = Some tk'" "drained tk2 tk'"
    using pullUntilEof_result [OF noeof w2(4) w2(3)] by blast
  have run: "pendingRun tk2 =
      foldl feed (\<lparr>offset = 0, line = 1, col = 1\<rparr>,
                  (initialRegisters True)
                    \<lparr>state := mode, lastStartTagName := l, inForeignNode := f\<rparr>)
        (fst (normalizeNewlines (concat htmlChunks) True))"
    using w2(1,2) w1(5) by (simp add: pendingRun_def tk2_def)
  have "emitted (registers tk') = tokenize mode l f (concat htmlChunks)"
    using tk'(2) w2(3) run by (simp add: drained_def tokenize_def consumeAll_def Let_def)
  moreover have "locationInfoTest d w mode l f htmlChunks = Some tk'"
    using tk'(1) by (simp add: locationInfoTest_def Let_def tk1_def tk2_def)
  ultimately show ?thesis by blast
qed




subsection \<open>Sessions and the token stream of the text\<close>

declare pullUntilEof.simps [code]

lemma delivered_locationInfoTest:
  assumes "htmlChunks \<noteq> []"
  shows "delivered (locationInfoTest d w mode l f htmlChunks) =
           Some (tokenize mode l f (concat htmlChunks))"
  using locationInfoTest_tokenize [OF assms, of d w mode l f] by (auto simp add: delivered_def)











subsection \<open>Which state follows\<close>

lemma emit_state [simp]:
  "state (emitCurrentCharacterToken r p) = state r"
  "state (appendCharToCurrentCharacterToken r k c p) = state r"
  "state (emitCodePoint r c p) = state r"
  "state (emitCurrentToken r p) = state r"
  "state (appendToTagName r c) = state r"
  "state (createAttr r n) = state r"
  "state (appendToAttrName r c) = state r"
  "state (appendToAttrValue r c) = state r"
  "state (setSelfClosing r) = state r"
  "state (appendToComment r cs) = state r"
  "state (appendToDoctypeName r c) = state r"
  "state (setForceQuirks r) = state r"
  by (simp_all add: emitCurrentCharacterToken_def appendCharToCurrentCharacterToken_def
      emitCodePoint_def emitCurrentToken_def appendToTagName_def createAttr_def
      appendToAttrName_def appendToAttrValue_def setSelfClosing_def appendToComment_def
      appendToDoctypeName_def setForceQuirks_def Let_def split: option.split)

lemma emitChars_state [simp]: "state (emitChars r cs p) = state r"
  by (induction r cs p rule: emitChars.induct) simp_all

lemmas state_defs =
  stateData_def stateText_def statePlaintext_def stateTagName_def stateBogusComment_def
  stateTagOpen_def stateEndTagOpen_def stateTextLessThanSign_def stateTextEndTagName_def
  stateTextEndTagOpen_def stateAttributeName_def stateAfterAttributeName_def
  stateBeforeAttributeName_def stateAttributeValueUnquoted_def stateBeforeAttributeValue_def
  stateAttributeValueQuoted_def stateAfterAttributeValueQuoted_def stateSelfClosingStartTag_def
  stateComment_def stateCommentStart_def stateCommentStartDash_def stateCommentEndDash_def
  stateCommentEnd_def stateCommentEndBang_def stateBeforeDoctypeName_def stateDoctype_def
  stateDoctypeName_def stateAfterDoctypeName_def stateBogusDoctype_def

lemma modeState_not_cdata [simp]: "modeState m \<noteq> CDATA_SECTION"
  by (cases m) simp_all

lemma cdata_only_from_markup_declaration:
  assumes "state (callState r c pb pa) = CDATA_SECTION"
    and "state r \<noteq> CDATA_SECTION" and "state r \<noteq> CDATA_SECTION_BRACKET"
    and "state r \<noteq> CDATA_SECTION_END"
  shows "state r = MARKUP_DECLARATION_OPEN"
  using assms
  by (cases "state r") (simp_all add: callState_def state_defs split: if_splits)

lemma cdata_needs_foreign:
  assumes "state (stateMarkupDeclarationOpen r c pb pa) = CDATA_SECTION"
    and "state r \<noteq> CDATA_SECTION"
  shows "inForeignNode r \<and> tempBuff r @ [c] = js ''[CDATA[''"
  using assms
  by (simp add: stateMarkupDeclarationOpen_def Let_def stateBogusComment_def split: if_splits)

subsection \<open>Runs over text without carriage returns\<close>

lemma normalize_noCR:
  "CR \<notin> set cs \<Longrightarrow> normalizeNewlines cs l = (map (\<lambda>c. (c, 1)) cs, False)"
  by (induction cs l rule: normalizeNewlines.induct) (auto simp add: Let_def)

lemma consumeAll_noCR:
  "CR \<notin> set input \<Longrightarrow>
   consumeAll mode l f input =
     run (\<lparr>offset = 0, line = 1, col = 1\<rparr>,
          (initialRegisters True)\<lparr>state := mode, lastStartTagName := l, inForeignNode := f\<rparr>)
       input"
  by (simp add: consumeAll_def run_def normalize_noCR)

lemma run_Nil: "run s [] = s"
  by (simp add: run_def)

lemma run_Cons: "run s (c # cs) = run (feed s (c, Suc 0)) cs"
  by (simp add: run_def)

lemma run_append: "run s (xs @ ys) = run (run s xs) ys"
  by (simp add: run_def)

lemma feed_step:
  "c \<noteq> LF \<Longrightarrow>
   feed (p, r) (c, Suc 0) =
     (\<lparr>offset = Suc (offset p), line = line p, col = Suc (col p)\<rparr>,
      callState r c p \<lparr>offset = Suc (offset p), line = line p, col = Suc (col p)\<rparr>)"
  by (simp add: feed_def advancePosition_def Let_def)

lemma letter_facts:
  assumes "isAsciiLetter c"
  shows "\<not> isWhitespace c" "c \<noteq> SOLIDUS" "c \<noteq> GREATER_THAN_SIGN" "c \<noteq> LESS_THAN_SIGN"
    "c \<noteq> NULL" "c \<noteq> LF" "c \<noteq> CR" "charKind c = REGULAR"
  using assms
  by (auto simp add: isAsciiLetter_def isAsciiUpper_def isAsciiLower_def isWhitespace_def
      charKind_def LF_def CR_def)

lemma callState_text:
  "state r = modeState m \<Longrightarrow> callState r c pb pa = stateText m r c pb pa"
  by (cases m) (simp_all add: callState_def)

lemma emitChars_append:
  assumes "currentCharacterToken r = Some ct" and "ct_kind ct = REGULAR"
    and "\<forall>c\<in>set cs. charKind c = REGULAR"
  shows "emitChars r cs p = r\<lparr>currentCharacterToken := Some (ct\<lparr>ct_chars := ct_chars ct @ cs\<rparr>)\<rparr>"
  using assms
proof (induction cs arbitrary: r ct p)
  case Nil
  then show ?case by simp
next
  case (Cons c cs)
  let ?ct = "ct\<lparr>ct_chars := ct_chars ct @ [c]\<rparr>"
  have step: "emitCodePoint r c p = r\<lparr>currentCharacterToken := Some ?ct\<rparr>"
    using Cons.prems by (simp add: emitCodePoint_def appendCharToCurrentCharacterToken_def)
  have "emitChars (r\<lparr>currentCharacterToken := Some ?ct\<rparr>) cs (nextPosition p) =
        r\<lparr>currentCharacterToken := Some ?ct\<rparr>
          \<lparr>currentCharacterToken := Some (?ct\<lparr>ct_chars := ct_chars ?ct @ cs\<rparr>)\<rparr>"
    using Cons.prems by (intro Cons.IH) simp_all
  then show ?case
    by (simp add: step)
qed

lemma emitChars_start:
  assumes "currentCharacterToken r = None" and "charKind c = REGULAR"
    and "\<forall>c\<in>set cs. charKind c = REGULAR"
  shows "emitChars r (c # cs) p =
     r\<lparr>currentCharacterToken :=
         Some \<lparr>ct_kind = REGULAR, ct_chars = c # cs, ct_start = currentLocation r\<rparr>\<rparr>"
proof -
  let ?ct = "\<lparr>ct_kind = REGULAR, ct_chars = [c], ct_start = currentLocation r\<rparr>"
  have step: "emitCodePoint r c p = r\<lparr>currentCharacterToken := Some ?ct\<rparr>"
    using assms by (simp add: emitCodePoint_def appendCharToCurrentCharacterToken_def)
  have "emitChars (r\<lparr>currentCharacterToken := Some ?ct\<rparr>) cs (nextPosition p) =
        r\<lparr>currentCharacterToken := Some ?ct\<rparr>
          \<lparr>currentCharacterToken := Some (?ct\<lparr>ct_chars := ct_chars ?ct @ cs\<rparr>)\<rparr>"
    using assms by (intro emitChars_append) simp_all
  then show ?thesis
    by (simp add: step)
qed

lemma name_run:
  assumes "\<forall>c\<in>set cs. isAsciiLetter c"
    and "state r = TEXT_END_TAG_NAME m"
    and "currentToken r = Some (TagToken True nm [] False)"
  shows "run (p, r) cs =
     (\<lparr>offset = offset p + length cs, line = line p, col = col p + length cs\<rparr>,
      r\<lparr>currentToken := Some (TagToken True (nm @ map toAsciiLower cs) [] False),
        tempBuff := tempBuff r @ cs\<rparr>)"
  using assms
proof (induction cs arbitrary: p r nm)
  case Nil
  then show ?case by (simp add: run_Nil)
next
  case (Cons c cs)
  have c: "isAsciiLetter c"
    using Cons.prems(1) by simp
  define p' where "p' = \<lparr>offset = Suc (offset p), line = line p, col = Suc (col p)\<rparr>"
  define r' where "r' = r\<lparr>currentToken := Some (TagToken True (nm @ [toAsciiLower c]) [] False),
                          tempBuff := tempBuff r @ [c]\<rparr>"
  have "callState r c p p' = r'"
    using Cons.prems(2,3) c letter_facts [OF c]
    by (simp add: callState_def stateTextEndTagName_def appendToTagName_def r'_def)
  then have step: "feed (p, r) (c, Suc 0) = (p', r')"
    using letter_facts(6) [OF c] by (simp add: feed_step p'_def)
  have "run (p', r') cs =
     (\<lparr>offset = offset p' + length cs, line = line p', col = col p' + length cs\<rparr>,
      r'\<lparr>currentToken := Some (TagToken True ((nm @ [toAsciiLower c]) @ map toAsciiLower cs) [] False),
         tempBuff := tempBuff r' @ cs\<rparr>)"
    using Cons.prems(1,2) by (intro Cons.IH) (simp_all add: r'_def)
  then show ?case
    by (simp add: run_Cons step) (simp add: p'_def r'_def)
qed

subsection \<open>A candidate end tag in RCDATA, RAWTEXT and script data\<close>

lemma text_end_tag_run:
  assumes "\<forall>c\<in>set n. isAsciiLetter c" and "n \<noteq> []"
  shows "run (\<lparr>offset = 0, line = 1, col = 1\<rparr>,
              (initialRegisters True)
                \<lparr>state := modeState m, lastStartTagName := l, inForeignNode := f\<rparr>)
           (js ''</'' @ n) =
         (\<lparr>offset = length n + 2, line = 1, col = length n + 3\<rparr>,
          (initialRegisters True)
            \<lparr>state := TEXT_END_TAG_NAME m, lastStartTagName := l, inForeignNode := f,
             currentToken := Some (TagToken True (map toAsciiLower n) [] False),
             tempBuff := n\<rparr>)"
proof -
  obtain c cs where n: "n = c # cs"
    using assms(2) by (cases n) simp_all
  have c: "isAsciiLetter c" and cs: "\<forall>c\<in>set cs. isAsciiLetter c"
    using assms(1) n by simp_all
  define r3 where "r3 = (initialRegisters True)
            \<lparr>state := TEXT_END_TAG_NAME m, lastStartTagName := l, inForeignNode := f,
             currentToken := Some (TagToken True [toAsciiLower c] [] False),
             tempBuff := [c]\<rparr>"
  define r0 where "r0 = (initialRegisters True)
                \<lparr>state := modeState m, lastStartTagName := l, inForeignNode := f\<rparr>"
  define r1 where "r1 = r0\<lparr>state := TEXT_LESS_THAN_SIGN m,
                          tokenStart := \<lparr>offset = 0, line = 1, col = 1\<rparr>\<rparr>"
  define r2 where "r2 = r1\<lparr>tempBuff := [], state := TEXT_END_TAG_OPEN m\<rparr>"
  have st0: "state r0 = modeState m"
    by (simp add: r0_def)
  have f1: "feed (\<lparr>offset = 0, line = 1, col = 1\<rparr>, r0) (LESS_THAN_SIGN, Suc 0) =
      (\<lparr>offset = 1, line = 1, col = 2\<rparr>, r1)"
    by (simp add: feed_step LF_def callState_text [OF st0] stateText_def r1_def)
  have f2: "feed (\<lparr>offset = 1, line = 1, col = 2\<rparr>, r1) (SOLIDUS, Suc 0) =
      (\<lparr>offset = 2, line = 1, col = 3\<rparr>, r2)"
    by (simp add: feed_step LF_def callState_def stateTextLessThanSign_def r1_def r2_def)
  have "stateTextEndTagOpen m r2 c \<lparr>offset = 2, line = 1, col = 3\<rparr>
          \<lparr>offset = 3, line = 1, col = 4\<rparr> =
        (r2\<lparr>currentToken := Some (TagToken True [] [] False), state := TEXT_END_TAG_NAME m\<rparr>)
          \<lparr>currentToken := Some (TagToken True [toAsciiLower c] [] False), tempBuff := [c]\<rparr>"
    using letter_facts [OF c] c
    by (simp add: stateTextEndTagOpen_def stateTextEndTagName_def appendToTagName_def r2_def)
  then have f3: "feed (\<lparr>offset = 2, line = 1, col = 3\<rparr>, r2) (c, Suc 0) =
      (\<lparr>offset = 3, line = 1, col = 4\<rparr>, r3)"
    using letter_facts(6) [OF c]
    by (simp add: feed_step callState_def r2_def)
       (simp add: r3_def r2_def r1_def r0_def initialRegisters_def)
  have s3: "run (\<lparr>offset = 0, line = 1, col = 1\<rparr>,
              (initialRegisters True)
                \<lparr>state := modeState m, lastStartTagName := l, inForeignNode := f\<rparr>)
           (js ''</'' @ [c]) = (\<lparr>offset = 3, line = 1, col = 4\<rparr>, r3)"
  proof -
    have "js ''</'' @ [c] = [LESS_THAN_SIGN, SOLIDUS, c]"
      by (simp add: js_def)
    then show ?thesis
      unfolding r0_def [symmetric] by (simp only: run_Cons run_Nil f1 f2 f3)
  qed
  have "run (\<lparr>offset = 3, line = 1, col = 4\<rparr>, r3) cs =
     (\<lparr>offset = offset \<lparr>offset = 3, line = 1, col = 4\<rparr> + length cs,
       line = line \<lparr>offset = 3, line = 1, col = 4\<rparr>,
       col = col \<lparr>offset = 3, line = 1, col = 4\<rparr> + length cs\<rparr>,
      r3\<lparr>currentToken := Some (TagToken True ([toAsciiLower c] @ map toAsciiLower cs) [] False),
         tempBuff := tempBuff r3 @ cs\<rparr>)"
    using cs by (intro name_run) (simp_all add: r3_def)
  then have s4: "run (\<lparr>offset = 3, line = 1, col = 4\<rparr>, r3) cs =
     (\<lparr>offset = length n + 2, line = 1, col = length n + 3\<rparr>,
          (initialRegisters True)
            \<lparr>state := TEXT_END_TAG_NAME m, lastStartTagName := l, inForeignNode := f,
             currentToken := Some (TagToken True (map toAsciiLower n) [] False),
             tempBuff := n\<rparr>)"
    by (simp add: r3_def n)
  have "js ''</'' @ n = (js ''</'' @ [c]) @ cs"
    by (simp add: n)
  then have "run (\<lparr>offset = 0, line = 1, col = 1\<rparr>,
              (initialRegisters True)
                \<lparr>state := modeState m, lastStartTagName := l, inForeignNode := f\<rparr>)
           (js ''</'' @ n) =
        run (run (\<lparr>offset = 0, line = 1, col = 1\<rparr>,
              (initialRegisters True)
                \<lparr>state := modeState m, lastStartTagName := l, inForeignNode := f\<rparr>)
           (js ''</'' @ [c])) cs"
    by (simp only: run_append)
  also have "\<dots> = run (\<lparr>offset = 3, line = 1, col = 4\<rparr>, r3) cs"
    by (simp only: s3)
  finally show ?thesis
    by (simp only: s4)
qed

lemma text_end_tag:
  assumes "\<forall>c\<in>set n. isAsciiLetter c" and "n \<noteq> []"
  shows "tokenize (modeState m) l f (js ''</'' @ n @ js ''>'') =
     (if map toAsciiLower n = map toAsciiLower l
      then [EndTag (map toAsciiLower n)
              (Some \<lparr>startOffset = 0, endOffset = length n + 3, startLine = 1, startCol = 1,
                      endLine = 1, endCol = length n + 4\<rparr>),
            EndOfFile
              (Some \<lparr>startOffset = length n + 3, endOffset = length n + 3, startLine = 1,
                      startCol = length n + 4, endLine = 1, endCol = length n + 4\<rparr>)]
      else [Character REGULAR (js ''</'' @ n @ js ''>'')
              (Some \<lparr>startOffset = 0, endOffset = length n + 3, startLine = 1, startCol = 1,
                      endLine = 1, endCol = length n + 4\<rparr>),
            EndOfFile
              (Some \<lparr>startOffset = length n + 3, endOffset = length n + 3, startLine = 1,
                      startCol = length n + 4, endLine = 1, endCol = length n + 4\<rparr>)])"
    and "state (snd (consumeAll (modeState m) l f (js ''</'' @ n @ js ''>''))) =
     (if map toAsciiLower n = map toAsciiLower l then DATA else modeState m)"
proof -
  let ?input = "js ''</'' @ n @ js ''>''"
  define r4 where "r4 = (initialRegisters True)
            \<lparr>state := TEXT_END_TAG_NAME m, lastStartTagName := l, inForeignNode := f,
             currentToken := Some (TagToken True (map toAsciiLower n) [] False),
             tempBuff := n\<rparr>"
  define p4 where "p4 = \<lparr>offset = length n + 2, line = 1, col = length n + 3\<rparr>"
  define p5 where "p5 = \<lparr>offset = length n + 3, line = 1, col = length n + 4\<rparr>"
  have noCR: "CR \<notin> set ?input"
    using assms(1) letter_facts(7) by (auto simp add: js_def CR_def)
  have split: "?input = (js ''</'' @ n) @ [GREATER_THAN_SIGN]"
    by (simp add: js_def)
  have "consumeAll (modeState m) l f ?input =
      run (run (\<lparr>offset = 0, line = 1, col = 1\<rparr>,
              (initialRegisters True)
                \<lparr>state := modeState m, lastStartTagName := l, inForeignNode := f\<rparr>)
           (js ''</'' @ n)) [GREATER_THAN_SIGN]"
    unfolding consumeAll_noCR [OF noCR] by (subst split) (rule run_append)
  also have "\<dots> = run (p4, r4) [GREATER_THAN_SIGN]"
    unfolding text_end_tag_run [OF assms] r4_def p4_def ..
  also have "\<dots> = feed (p4, r4) (GREATER_THAN_SIGN, Suc 0)"
    by (simp only: run_Cons run_Nil)
  also have "\<dots> = (p5, stateTextEndTagName m r4 GREATER_THAN_SIGN p4 p5)"
  proof -
    have p45: "\<lparr>offset = Suc (offset p4), line = line p4, col = Suc (col p4)\<rparr> = p5"
      by (simp add: p4_def p5_def)
    have "feed (p4, r4) (GREATER_THAN_SIGN, Suc 0) = (p5, callState r4 GREATER_THAN_SIGN p4 p5)"
      using feed_step [of GREATER_THAN_SIGN p4 r4] p45 by (simp add: LF_def)
    moreover have "callState r4 GREATER_THAN_SIGN p4 p5 =
        stateTextEndTagName m r4 GREATER_THAN_SIGN p4 p5"
      by (simp add: callState_def r4_def)
    ultimately show ?thesis by simp
  qed
  finally have all: "consumeAll (modeState m) l f ?input =
      (p5, stateTextEndTagName m r4 GREATER_THAN_SIGN p4 p5)" .
  have reg: "\<forall>c\<in>set (SOLIDUS # n). charKind c = REGULAR"
    using assms(1) letter_facts(8) by (simp add: charKind_def isWhitespace_def)
  show "state (snd (consumeAll (modeState m) l f ?input)) =
     (if map toAsciiLower n = map toAsciiLower l then DATA else modeState m)"
    by (simp add: all stateTextEndTagName_def isAppropriateEndTag_def isWhitespace_def
        isAsciiLetter_def isAsciiUpper_def isAsciiLower_def stateText_def r4_def)
  show "tokenize (modeState m) l f ?input =
     (if map toAsciiLower n = map toAsciiLower l
      then [EndTag (map toAsciiLower n)
              (Some \<lparr>startOffset = 0, endOffset = length n + 3, startLine = 1, startCol = 1,
                      endLine = 1, endCol = length n + 4\<rparr>),
            EndOfFile
              (Some \<lparr>startOffset = length n + 3, endOffset = length n + 3, startLine = 1,
                      startCol = length n + 4, endLine = 1, endCol = length n + 4\<rparr>)]
      else [Character REGULAR (js ''</'' @ n @ js ''>'')
              (Some \<lparr>startOffset = 0, endOffset = length n + 3, startLine = 1, startCol = 1,
                      endLine = 1, endCol = length n + 4\<rparr>),
            EndOfFile
              (Some \<lparr>startOffset = length n + 3, endOffset = length n + 3, startLine = 1,
                      startCol = length n + 4, endLine = 1, endCol = length n + 4\<rparr>)])"
  proof (cases "map toAsciiLower n = map toAsciiLower l")
    case True
    have "stateTextEndTagName m r4 GREATER_THAN_SIGN p4 p5 = emitCurrentToken (r4\<lparr>state := DATA\<rparr>) p5"
      using True
      by (simp add: stateTextEndTagName_def isAppropriateEndTag_def isWhitespace_def r4_def)
    then show ?thesis
      using True
      by (simp add: tokenize_def all Let_def emitCurrentToken_def emitCurrentCharacterToken_def
          stateEOF_def emitEOFToken_def getLocation_def r4_def p5_def initialRegisters_def)
  next
    case False
    have "emitChars (r4\<lparr>currentToken := None\<rparr>) (LESS_THAN_SIGN # SOLIDUS # n) (tokenStart r4) =
        r4\<lparr>currentToken := None\<rparr>
          \<lparr>currentCharacterToken :=
             Some \<lparr>ct_kind = REGULAR, ct_chars = LESS_THAN_SIGN # SOLIDUS # n,
                    ct_start = currentLocation (r4\<lparr>currentToken := None\<rparr>)\<rparr>\<rparr>"
      using reg
      by (intro emitChars_start) (simp_all add: r4_def initialRegisters_def charKind_def
          isWhitespace_def)
    then have "stateTextEndTagName m r4 GREATER_THAN_SIGN p4 p5 =
        r4\<lparr>currentToken := None, state := modeState m,
           currentCharacterToken :=
             Some \<lparr>ct_kind = REGULAR, ct_chars = LESS_THAN_SIGN # SOLIDUS # n @ [GREATER_THAN_SIGN],
                    ct_start = \<lparr>offset = 0, line = 1, col = 1\<rparr>\<rparr>\<rparr>"
      using False
      by (simp add: stateTextEndTagName_def isAppropriateEndTag_def isWhitespace_def
          isAsciiLetter_def isAsciiUpper_def isAsciiLower_def stateText_def js_def
          emitCodePoint_def appendCharToCurrentCharacterToken_def charKind_def)
         (simp add: r4_def initialRegisters_def)
    then have fin: "consumeAll (modeState m) l f ?input =
        (p5, r4\<lparr>currentToken := None, state := modeState m,
           currentCharacterToken :=
             Some \<lparr>ct_kind = REGULAR, ct_chars = LESS_THAN_SIGN # SOLIDUS # n @ [GREATER_THAN_SIGN],
                    ct_start = \<lparr>offset = 0, line = 1, col = 1\<rparr>\<rparr>\<rparr>)"
      by (simp only: all)
    have "tokenize (modeState m) l f ?input =
        emitted (stateEOF (r4\<lparr>currentToken := None, state := modeState m,
           currentCharacterToken :=
             Some \<lparr>ct_kind = REGULAR, ct_chars = LESS_THAN_SIGN # SOLIDUS # n @ [GREATER_THAN_SIGN],
                    ct_start = \<lparr>offset = 0, line = 1, col = 1\<rparr>\<rparr>\<rparr>) p5)"
      by (simp only: tokenize_def Let_def fin fst_conv snd_conv)
    also have "\<dots> =
        [Character REGULAR (LESS_THAN_SIGN # SOLIDUS # n @ [GREATER_THAN_SIGN])
              (Some \<lparr>startOffset = 0, endOffset = length n + 3, startLine = 1, startCol = 1,
                      endLine = 1, endCol = length n + 4\<rparr>),
            EndOfFile
              (Some \<lparr>startOffset = length n + 3, endOffset = length n + 3, startLine = 1,
                      startCol = length n + 4, endLine = 1, endCol = length n + 4\<rparr>)]"
      by (cases m)
         (simp_all add: emitCurrentCharacterToken_def stateEOF_def emitEOFToken_def Let_def
          getLocation_def r4_def p5_def initialRegisters_def)
    finally show ?thesis
      using False by (simp add: js_def)
  qed
qed

subsection \<open>Bogus comments\<close>

lemma run_fst: "fst (run s cs) = foldl advancePosition (fst s) (map (\<lambda>c. (c, 1)) cs)"
  by (simp add: run_def foldl_feed_keeps)

lemma offset_run: "offset (fst (run s cs)) = offset (fst s) + length cs"
proof -
  have "widthOf (map (\<lambda>c. (c, 1)) cs) = length cs"
    by (induction cs) (simp_all add: widthOf_Nil widthOf_Cons)
  then show ?thesis
    by (simp add: run_fst offset_foldl_advancePosition)
qed


lemma data_tokens:
  "tokenize mode l f input =
     emitted (stateEOF (snd (consumeAll mode l f input)) (fst (consumeAll mode l f input)))"
  by (simp add: tokenize_def Let_def)

subsection \<open>CDATA sections\<close>

lemma characterData_simps [simp]:
  "characterData [] = []"
  "characterData (ts @ us) = characterData ts @ characterData us"
  "characterData [Character kind chars loc] = chars"
  "characterData [EndOfFile loc] = []"
  by (simp_all add: characterData_def)

lemma emitCodePoint_text:
  "pendingText (emitCodePoint r c p) = pendingText r @ [c]"
  "list_all isCharacter (emitted (emitCodePoint r c p)) = list_all isCharacter (emitted r)"
  by (simp_all add: emitCodePoint_def appendCharToCurrentCharacterToken_def pendingText_def
      emitCurrentCharacterToken_def split: option.split)

lemma cdata_run:
  assumes "RIGHT_SQUARE_BRACKET \<notin> set s" and "state r = CDATA_SECTION"
  shows "state (snd (run (p, r) s)) = CDATA_SECTION \<and>
         pendingText (snd (run (p, r) s)) = pendingText r @ s \<and>
         list_all isCharacter (emitted (snd (run (p, r) s))) = list_all isCharacter (emitted r) \<and>
         sourceCodeLocationInfo (snd (run (p, r) s)) = sourceCodeLocationInfo r"
  using assms
proof (induction s arbitrary: p r)
  case Nil
  then show ?case by (simp add: run_Nil)
next
  case (Cons c cs)
  define s1 where "s1 = feed (p, r) (c, Suc 0)"
  have r1: "snd s1 = emitCodePoint r c p"
    using Cons.prems by (simp add: s1_def feed_def Let_def callState_def stateCdataSection_def)
  have "state (snd (run (fst s1, snd s1) cs)) = CDATA_SECTION \<and>
         pendingText (snd (run (fst s1, snd s1) cs)) = pendingText (snd s1) @ cs \<and>
         list_all isCharacter (emitted (snd (run (fst s1, snd s1) cs))) =
           list_all isCharacter (emitted (snd s1)) \<and>
         sourceCodeLocationInfo (snd (run (fst s1, snd s1) cs)) = sourceCodeLocationInfo (snd s1)"
    using Cons.prems by (intro Cons.IH) (simp_all add: r1)
  moreover have "(fst s1, snd s1) = s1"
    by simp
  ultimately show ?case
    by (simp add: run_Cons s1_def [symmetric] r1 emitCodePoint_text del: prod.collapse)
qed

lemma opener_cdata:
  "run (\<lparr>offset = 0, line = 1, col = 1\<rparr>,
        (initialRegisters True)\<lparr>state := DATA, lastStartTagName := l, inForeignNode := True\<rparr>)
     (js ''<![CDATA['') =
   (\<lparr>offset = 9, line = 1, col = 10\<rparr>,
    (initialRegisters True)
      \<lparr>state := CDATA_SECTION, lastStartTagName := l, inForeignNode := True\<rparr>)"
  by (simp add: js_def run_Cons run_Nil feed_step LF_def callState_def stateData_def
      stateTagOpen_def stateMarkupDeclarationOpen_def isPrefixOf_def toAsciiUpper_def
      isAsciiLower_def Let_def initialRegisters_def)

lemma closer_cdata:
  assumes "state r = CDATA_SECTION"
  shows "snd (run (p, r) (js '']]>'')) = r\<lparr>tokenStart := p, state := DATA\<rparr>"
  using assms
  by (simp add: js_def run_Cons run_Nil feed_step LF_def callState_def stateCdataSection_def
      stateCdataSectionBracket_def stateCdataSectionEnd_def)

lemma cdata_verbatim:
  assumes "RIGHT_SQUARE_BRACKET \<notin> set s" and "CR \<notin> set s"
  shows "characterData (tokenize DATA l True (js ''<![CDATA['' @ s @ js '']]>'')) = s \<and>
         (\<exists>ts loc. tokenize DATA l True (js ''<![CDATA['' @ s @ js '']]>'') =
                     ts @ [EndOfFile loc] \<and> list_all isCharacter ts)"
proof -
  let ?input = "js ''<![CDATA['' @ s @ js '']]>''"
  define r0 where "r0 = (initialRegisters True)
      \<lparr>state := CDATA_SECTION, lastStartTagName := l, inForeignNode := True\<rparr>"
  define s1 where "s1 = run (\<lparr>offset = 9, line = 1, col = 10\<rparr>, r0) s"
  have noCR: "CR \<notin> set ?input"
    using assms(2) by (simp add: js_def CR_def)
  have all: "consumeAll DATA l True ?input = run s1 (js '']]>'')"
    unfolding consumeAll_noCR [OF noCR] run_append opener_cdata s1_def r0_def ..
  have r1: "state (snd s1) = CDATA_SECTION" "pendingText (snd s1) = s"
    "list_all isCharacter (emitted (snd s1))"
    using cdata_run [OF assms(1), of r0 "\<lparr>offset = 9, line = 1, col = 10\<rparr>"]
    by (simp_all add: s1_def r0_def pendingText_def initialRegisters_def)
  define p' where "p' = fst (run s1 (js '']]>''))"
  have fin: "snd (run s1 (js '']]>'')) = (snd s1)\<lparr>tokenStart := fst s1, state := DATA\<rparr>"
    "fst (run s1 (js '']]>'')) = p'"
    using closer_cdata [OF r1(1), of "fst s1"] by (simp_all add: p'_def)
  have tok: "tokenize DATA l True ?input =
      emitted (emitCurrentCharacterToken (snd s1) p') @
        [EndOfFile (getLocation (snd s1) p' p')]"
    using fin
    by (simp add: data_tokens all stateEOF_def emitEOFToken_def Let_def
        emitCurrentCharacterToken_def getLocation_def split: option.split)
  have "characterData (emitted (emitCurrentCharacterToken (snd s1) p')) = s"
    using r1(2) by (simp add: emitCurrentCharacterToken_def pendingText_def split: option.splits)
  moreover have "list_all isCharacter (emitted (emitCurrentCharacterToken (snd s1) p'))"
    using r1(3) by (simp add: emitCurrentCharacterToken_def split: option.splits)
  ultimately show ?thesis
    using tok by simp
qed

subsection \<open>Character data in progress\<close>

lemma markup_simps [simp]:
  "markup [] = []"
  "markup (ts @ us) = markup ts @ markup us"
  "markup [Character kind chars loc] = []"
  "markup [EndOfFile loc] = [EndOfFile loc]"
  "markup [EndTag n loc] = [EndTag n loc]"
  "markup [Comment d loc] = [Comment d loc]"
  by (simp_all add: markup_def)

lemma emitCurrentCharacterToken_text:
  "characterData (emitted (emitCurrentCharacterToken r p)) = pendingText r"
  "markup (emitted (emitCurrentCharacterToken r p)) = markup (emitted r)"
  "currentCharacterToken (emitCurrentCharacterToken r p) = None"
  "currentToken (emitCurrentCharacterToken r p) = currentToken r"
  by (simp_all add: emitCurrentCharacterToken_def pendingText_def split: option.split)

lemma emitCodePoint_markup:
  "markup (emitted (emitCodePoint r c p)) = markup (emitted r)"
  "currentToken (emitCodePoint r c p) = currentToken r"
  by (simp_all add: emitCodePoint_def appendCharToCurrentCharacterToken_def
      emitCurrentCharacterToken_def split: option.split)

lemma emitChars_text:
  "pendingText (emitChars r cs p) = pendingText r @ cs"
  "markup (emitted (emitChars r cs p)) = markup (emitted r)"
  "currentToken (emitChars r cs p) = currentToken r"
  by (induction r cs p rule: emitChars.induct)
     (simp_all add: emitCodePoint_text emitCodePoint_markup)

lemma pendingText_update [simp]:
  "pendingText (r\<lparr>state := s\<rparr>) = pendingText r"
  "pendingText (r\<lparr>currentToken := t\<rparr>) = pendingText r"
  "pendingText (r\<lparr>tokenStart := p\<rparr>) = pendingText r"
  "pendingText (r\<lparr>tempBuff := b\<rparr>) = pendingText r"
  by (simp_all add: pendingText_def)

lemma stateText_text:
  "state (stateText m r c pb pa) =
     (if c = LESS_THAN_SIGN then TEXT_LESS_THAN_SIGN m else state r)"
  "pendingText (stateText m r c pb pa) =
     pendingText r @ (if c = LESS_THAN_SIGN then [] else [replaceNull c])"
  "markup (emitted (stateText m r c pb pa)) = markup (emitted r)"
  "currentToken (stateText m r c pb pa) = currentToken r"
  by (simp_all add: stateText_def emitCodePoint_text emitCodePoint_markup replaceNull_def)

subsection \<open>A candidate end tag, in any registers\<close>

lemma inTextMode_simps [simp]:
  "inTextMode m (modeState m)"
  "inTextMode m (TEXT_LESS_THAN_SIGN m)"
  "inTextMode m (TEXT_END_TAG_OPEN m)"
  "inTextMode m (TEXT_END_TAG_NAME m)"
  "\<not> inTextMode m DATA"
  "\<not> inTextMode m BEFORE_ATTRIBUTE_NAME"
  "\<not> inTextMode m SELF_CLOSING_START_TAG"
  by (cases m; simp add: inTextMode_def)+

lemma stateTextEndTagName_letter:
  "isAsciiLetter c \<Longrightarrow>
   stateTextEndTagName m r c pb pa =
     (appendToTagName r (toAsciiLower c))\<lparr>tempBuff := tempBuff r @ [c]\<rparr>"
  using letter_facts(1-3) [of c] by (simp add: stateTextEndTagName_def)

lemma stateTextEndTagName_flush:
  assumes "\<not> isAsciiLetter c"
    and "\<not> (isAppropriateEndTag r \<and> (isWhitespace c \<or> c = SOLIDUS \<or> c = GREATER_THAN_SIGN))"
  shows "stateTextEndTagName m r c pb pa =
     stateText m
       ((emitChars (r\<lparr>currentToken := None\<rparr>) (js ''</'' @ tempBuff r) (tokenStart r))
          \<lparr>state := modeState m\<rparr>) c pb pa"
proof -
  have a: "\<not> (isWhitespace c \<and> isAppropriateEndTag r)"
    "\<not> (c = SOLIDUS \<and> isAppropriateEndTag r)"
    "\<not> (c = GREATER_THAN_SIGN \<and> isAppropriateEndTag r)"
    using assms(2) by blast+
  show ?thesis
    by (simp only: stateTextEndTagName_def a assms(1) if_False)
qed

lemma text_end_tag_name_step:
  assumes "state r = TEXT_END_TAG_NAME m"
    and "currentToken r = Some (TagToken True nm attrs sc)"
    and "\<not> isAsciiLetter c"
  shows "nm = map toAsciiLower (lastStartTagName r) \<and> isWhitespace c \<longrightarrow>
           callState r c pb pa = r\<lparr>state := BEFORE_ATTRIBUTE_NAME\<rparr>"
    and "nm = map toAsciiLower (lastStartTagName r) \<and> c = SOLIDUS \<longrightarrow>
           callState r c pb pa = r\<lparr>state := SELF_CLOSING_START_TAG\<rparr>"
    and "nm = map toAsciiLower (lastStartTagName r) \<and> c = GREATER_THAN_SIGN \<and>
         attrs = [] \<and> \<not> sc \<longrightarrow>
           state (callState r c pb pa) = DATA \<and>
           currentToken (callState r c pb pa) = None \<and>
           emitted (callState r c pb pa) =
             emitted (emitCurrentCharacterToken r (tokenStart r)) @
             [EndTag nm (getLocation r (tokenStart r) pa)]"
    and "nm \<noteq> map toAsciiLower (lastStartTagName r) \<or>
         \<not> (isWhitespace c \<or> c = SOLIDUS \<or> c = GREATER_THAN_SIGN) \<longrightarrow>
           inTextMode m (state (callState r c pb pa)) \<and>
           currentToken (callState r c pb pa) = None \<and>
           markup (emitted (callState r c pb pa)) = markup (emitted r) \<and>
           pendingText (callState r c pb pa) =
             pendingText r @ js ''</'' @ tempBuff r @
             (if c = LESS_THAN_SIGN then [] else [replaceNull c])"
proof -
  have cs: "callState r c pb pa = stateTextEndTagName m r c pb pa"
    using assms(1) by (simp add: callState_def)
  have app: "isAppropriateEndTag r \<longleftrightarrow> nm = map toAsciiLower (lastStartTagName r)"
    using assms(2) by (simp add: isAppropriateEndTag_def)
  show "nm = map toAsciiLower (lastStartTagName r) \<and> isWhitespace c \<longrightarrow>
           callState r c pb pa = r\<lparr>state := BEFORE_ATTRIBUTE_NAME\<rparr>"
    by (simp add: cs stateTextEndTagName_def app)
  show "nm = map toAsciiLower (lastStartTagName r) \<and> c = SOLIDUS \<longrightarrow>
           callState r c pb pa = r\<lparr>state := SELF_CLOSING_START_TAG\<rparr>"
    using cs app by (auto simp add: stateTextEndTagName_def isWhitespace_def)
  show "nm = map toAsciiLower (lastStartTagName r) \<and> c = GREATER_THAN_SIGN \<and>
         attrs = [] \<and> \<not> sc \<longrightarrow>
           state (callState r c pb pa) = DATA \<and>
           currentToken (callState r c pb pa) = None \<and>
           emitted (callState r c pb pa) =
             emitted (emitCurrentCharacterToken r (tokenStart r)) @
             [EndTag nm (getLocation r (tokenStart r) pa)]"
  proof
    assume h: "nm = map toAsciiLower (lastStartTagName r) \<and> c = GREATER_THAN_SIGN \<and>
         attrs = [] \<and> \<not> sc"
    have "stateTextEndTagName m r c pb pa = emitCurrentToken (r\<lparr>state := DATA\<rparr>) pa"
      using h app by (simp add: stateTextEndTagName_def isWhitespace_def)
    then have e: "callState r c pb pa = emitCurrentToken (r\<lparr>state := DATA\<rparr>) pa"
      using cs by simp
    have t: "currentToken r = Some (TagToken True nm [] False)"
      using assms(2) h by simp
    show "state (callState r c pb pa) = DATA \<and>
           currentToken (callState r c pb pa) = None \<and>
           emitted (callState r c pb pa) =
             emitted (emitCurrentCharacterToken r (tokenStart r)) @
             [EndTag nm (getLocation r (tokenStart r) pa)]"
      unfolding e using t
      by (simp add: emitCurrentToken_def Let_def emitCurrentCharacterToken_def
          getLocation_def split: option.split)
  qed
  show "nm \<noteq> map toAsciiLower (lastStartTagName r) \<or>
         \<not> (isWhitespace c \<or> c = SOLIDUS \<or> c = GREATER_THAN_SIGN) \<longrightarrow>
           inTextMode m (state (callState r c pb pa)) \<and>
           currentToken (callState r c pb pa) = None \<and>
           markup (emitted (callState r c pb pa)) = markup (emitted r) \<and>
           pendingText (callState r c pb pa) =
             pendingText r @ js ''</'' @ tempBuff r @
             (if c = LESS_THAN_SIGN then [] else [replaceNull c])"
  proof
    assume h: "nm \<noteq> map toAsciiLower (lastStartTagName r) \<or>
         \<not> (isWhitespace c \<or> c = SOLIDUS \<or> c = GREATER_THAN_SIGN)"
    have "\<not> (isAppropriateEndTag r \<and>
        (isWhitespace c \<or> c = SOLIDUS \<or> c = GREATER_THAN_SIGN))"
      using h unfolding app by blast
    from stateTextEndTagName_flush [OF assms(3) this]
    show "inTextMode m (state (callState r c pb pa)) \<and>
           currentToken (callState r c pb pa) = None \<and>
           markup (emitted (callState r c pb pa)) = markup (emitted r) \<and>
           pendingText (callState r c pb pa) =
             pendingText r @ js ''</'' @ tempBuff r @
             (if c = LESS_THAN_SIGN then [] else [replaceNull c])"
      by (simp add: cs stateText_text emitChars_text)
  qed
qed

lemma stateText_inTextMode:
  "state r = modeState m \<Longrightarrow> inTextMode m (state (stateText m r c pb pa))"
  by (simp add: stateText_text)

lemma text_mode_left_only_by_end_tag:
  assumes "inTextMode m (state q)"
    and "\<not> inTextMode m (state (callState q c pb pa))"
  shows "state q = TEXT_END_TAG_NAME m \<and> isAppropriateEndTag q \<and>
         (isWhitespace c \<or> c = SOLIDUS \<or> c = GREATER_THAN_SIGN)"
proof -
  consider "state q = modeState m" | "state q = TEXT_LESS_THAN_SIGN m"
    | "state q = TEXT_END_TAG_OPEN m" | "state q = TEXT_END_TAG_NAME m"
    using assms(1) unfolding inTextMode_def by blast
  then show ?thesis
  proof cases
    case 1
    have "inTextMode m (state (callState q c pb pa))"
      unfolding callState_text [OF 1] using 1 by (rule stateText_inTextMode)
    then show ?thesis
      using assms(2) by simp
  next
    case 2
    have cs: "callState q c pb pa = stateTextLessThanSign m q c pb pa"
      by (simp add: callState_def 2)
    have "inTextMode m (state (callState q c pb pa))"
    proof (cases "c = SOLIDUS")
      case True
      then have "stateTextLessThanSign m q c pb pa = q\<lparr>tempBuff := [], state := TEXT_END_TAG_OPEN m\<rparr>"
        by (simp add: stateTextLessThanSign_def)
      then show ?thesis
        by (simp only: cs) simp
    next
      case False
      then have "stateTextLessThanSign m q c pb pa =
          stateText m ((emitChars q (js ''<'') (tokenStart q))\<lparr>state := modeState m\<rparr>) c pb pa"
        by (simp add: stateTextLessThanSign_def)
      then show ?thesis
        by (simp only: cs) (rule stateText_inTextMode, simp)
    qed
    then show ?thesis
      using assms(2) by simp
  next
    case 3
    have cs: "callState q c pb pa = stateTextEndTagOpen m q c pb pa"
      by (simp add: callState_def 3)
    have "inTextMode m (state (callState q c pb pa))"
    proof (cases "isAsciiLetter c")
      case True
      then show ?thesis
        by (simp add: cs stateTextEndTagOpen_def stateTextEndTagName_letter)
    next
      case False
      then have "stateTextEndTagOpen m q c pb pa =
          stateText m ((emitChars q (js ''</'') (tokenStart q))\<lparr>state := modeState m\<rparr>) c pb pa"
        by (simp add: stateTextEndTagOpen_def)
      then show ?thesis
        by (simp only: cs) (rule stateText_inTextMode, simp)
    qed
    then show ?thesis
      using assms(2) by simp
  next
    case 4
    have cs: "callState q c pb pa = stateTextEndTagName m q c pb pa"
      by (simp add: callState_def 4)
    have "isAppropriateEndTag q \<and> (isWhitespace c \<or> c = SOLIDUS \<or> c = GREATER_THAN_SIGN)"
    proof (rule ccontr)
      assume n: "\<not> (isAppropriateEndTag q \<and>
        (isWhitespace c \<or> c = SOLIDUS \<or> c = GREATER_THAN_SIGN))"
      have "inTextMode m (state (callState q c pb pa))"
      proof (cases "isAsciiLetter c")
        case True
        then show ?thesis
          by (simp add: cs stateTextEndTagName_letter 4)
      next
        case False
        show ?thesis
          by (simp only: cs stateTextEndTagName_flush [OF False n])
             (rule stateText_inTextMode, simp)
      qed
      then show False
        using assms(2) by simp
    qed
    then show ?thesis
      using 4 by simp
  qed
qed

lemma text_end_tag_name_eof:
  assumes "state r = TEXT_END_TAG_NAME m"
  shows "markup (emitted (stateEOF r p)) = markup (emitted r) @ [EndOfFile (getLocation r p p)]"
    and "characterData (emitted (stateEOF r p)) = pendingText r @ js ''</'' @ tempBuff r"
  using assms
  by (simp_all add: stateEOF_def emitEOFToken_emitted emitCurrentCharacterToken_text
      emitChars_text getLocation_def)

lemma run_snoc:
  "run s (cs @ [c]) = feed (run s cs) (c, Suc 0)"
  by (simp add: run_def)

lemma snd_feed:
  "snd (feed (p, r) (c, Suc 0)) = callState r c p (advancePosition p (c, Suc 0))"
  by (simp add: feed_def Let_def)

lemma fst_feed:
  "fst (feed (p, r) i) = advancePosition p i"
  by (simp add: feed_def Let_def)

lemma candidate_end_tag_run:
  assumes "\<forall>c\<in>set n. isAsciiLetter c" and "n \<noteq> []" and "state r = modeState m"
  shows "run (p, r) (js ''</'' @ n) =
     (\<lparr>offset = offset p + length n + 2, line = line p, col = col p + length n + 2\<rparr>,
      r\<lparr>state := TEXT_END_TAG_NAME m, tokenStart := p,
        currentToken := Some (TagToken True (map toAsciiLower n) [] False),
        tempBuff := n\<rparr>)"
proof -
  obtain c cs where n: "n = c # cs"
    using assms(2) by (cases n) simp_all
  have c: "isAsciiLetter c" and cs: "\<forall>c\<in>set cs. isAsciiLetter c"
    using assms(1) n by simp_all
  define p1 where "p1 = \<lparr>offset = Suc (offset p), line = line p, col = Suc (col p)\<rparr>"
  define p2 where "p2 = \<lparr>offset = Suc (Suc (offset p)), line = line p, col = Suc (Suc (col p))\<rparr>"
  define p3 where "p3 = \<lparr>offset = Suc (Suc (Suc (offset p))), line = line p,
                          col = Suc (Suc (Suc (col p)))\<rparr>"
  define r1 where "r1 = r\<lparr>state := TEXT_LESS_THAN_SIGN m, tokenStart := p\<rparr>"
  define r2 where "r2 = r1\<lparr>tempBuff := [], state := TEXT_END_TAG_OPEN m\<rparr>"
  define r3 where "r3 = r\<lparr>state := TEXT_END_TAG_NAME m, tokenStart := p,
             currentToken := Some (TagToken True [toAsciiLower c] [] False),
             tempBuff := [c]\<rparr>"
  have f1: "feed (p, r) (LESS_THAN_SIGN, Suc 0) = (p1, r1)"
    by (simp add: feed_step LF_def callState_text [OF assms(3)] stateText_def r1_def p1_def)
  have f2: "feed (p1, r1) (SOLIDUS, Suc 0) = (p2, r2)"
    by (simp add: feed_step LF_def callState_def stateTextLessThanSign_def r1_def r2_def
        p1_def p2_def)
  have "stateTextEndTagOpen m r2 c p2 p3 =
        (r2\<lparr>currentToken := Some (TagToken True [] [] False), state := TEXT_END_TAG_NAME m\<rparr>)
          \<lparr>currentToken := Some (TagToken True [toAsciiLower c] [] False), tempBuff := [c]\<rparr>"
    using c
    by (simp add: stateTextEndTagOpen_def stateTextEndTagName_letter appendToTagName_def r2_def)
  then have f3: "feed (p2, r2) (c, Suc 0) = (p3, r3)"
    using letter_facts(6) [OF c]
    by (simp add: feed_step callState_def r2_def p2_def p3_def)
       (simp add: r3_def r2_def r1_def)
  have s3: "run (p, r) (js ''</'' @ [c]) = (p3, r3)"
  proof -
    have "js ''</'' @ [c] = [LESS_THAN_SIGN, SOLIDUS, c]"
      by (simp add: js_def)
    then show ?thesis
      by (simp only: run_Cons run_Nil f1 f2 f3)
  qed
  have "run (p3, r3) cs =
     (\<lparr>offset = offset p3 + length cs, line = line p3, col = col p3 + length cs\<rparr>,
      r3\<lparr>currentToken := Some (TagToken True ([toAsciiLower c] @ map toAsciiLower cs) [] False),
         tempBuff := tempBuff r3 @ cs\<rparr>)"
    using cs by (intro name_run) (simp_all add: r3_def)
  then have s4: "run (p3, r3) cs =
     (\<lparr>offset = offset p + length n + 2, line = line p, col = col p + length n + 2\<rparr>,
      r\<lparr>state := TEXT_END_TAG_NAME m, tokenStart := p,
        currentToken := Some (TagToken True (map toAsciiLower n) [] False),
        tempBuff := n\<rparr>)"
    by (simp add: r3_def p3_def n)
  have "js ''</'' @ n = (js ''</'' @ [c]) @ cs"
    by (simp add: n)
  then have "run (p, r) (js ''</'' @ n) = run (run (p, r) (js ''</'' @ [c])) cs"
    by (simp only: run_append)
  also have "\<dots> = run (p3, r3) cs"
    by (simp only: s3)
  finally show ?thesis
    by (simp only: s4)
qed

lemma candidate_end_tag_rule:
  assumes "\<forall>c\<in>set n. isAsciiLetter c" and "n \<noteq> []" and "state r = modeState m"
    and "\<not> isAsciiLetter c"
  shows "map toAsciiLower n = map toAsciiLower (lastStartTagName r) \<and>
         (isWhitespace c \<or> c = SOLIDUS \<or> c = GREATER_THAN_SIGN) \<longrightarrow>
           state (snd (run (p, r) (js ''</'' @ n @ [c]))) =
             (if isWhitespace c then BEFORE_ATTRIBUTE_NAME
              else if c = SOLIDUS then SELF_CLOSING_START_TAG else DATA) \<and>
           (c = GREATER_THAN_SIGN \<longrightarrow>
              emitted (snd (run (p, r) (js ''</'' @ n @ [c]))) =
                emitted (emitCurrentCharacterToken r p) @
                [EndTag (map toAsciiLower n)
                   (getLocation r p (fst (run (p, r) (js ''</'' @ n @ [c]))))])"
    and "\<not> (map toAsciiLower n = map toAsciiLower (lastStartTagName r) \<and>
            (isWhitespace c \<or> c = SOLIDUS \<or> c = GREATER_THAN_SIGN)) \<longrightarrow>
           inTextMode m (state (snd (run (p, r) (js ''</'' @ n @ [c])))) \<and>
           markup (emitted (snd (run (p, r) (js ''</'' @ n @ [c])))) = markup (emitted r) \<and>
           pendingText (snd (run (p, r) (js ''</'' @ n @ [c]))) =
             pendingText r @ js ''</'' @ n @
             (if c = LESS_THAN_SIGN then [] else [replaceNull c])"
proof -
  define p4 where "p4 = \<lparr>offset = offset p + length n + 2, line = line p,
                          col = col p + length n + 2\<rparr>"
  define r4 where "r4 = r\<lparr>state := TEXT_END_TAG_NAME m, tokenStart := p,
        currentToken := Some (TagToken True (map toAsciiLower n) [] False),
        tempBuff := n\<rparr>"
  define pa where "pa = advancePosition p4 (c, Suc 0)"
  have "run (p, r) (js ''</'' @ n @ [c]) = feed (run (p, r) (js ''</'' @ n)) (c, Suc 0)"
    using run_snoc [of "(p, r)" "js ''</'' @ n" c] by simp
  then have all: "run (p, r) (js ''</'' @ n @ [c]) = feed (p4, r4) (c, Suc 0)"
    by (simp only: candidate_end_tag_run [OF assms(1-3)] p4_def r4_def)
  have res: "snd (run (p, r) (js ''</'' @ n @ [c])) = callState r4 c p4 pa"
    "fst (run (p, r) (js ''</'' @ n @ [c])) = pa"
    by (simp_all only: all snd_feed fst_feed pa_def)
  have st: "state r4 = TEXT_END_TAG_NAME m"
    and tok: "currentToken r4 = Some (TagToken True (map toAsciiLower n) [] False)"
    by (simp_all add: r4_def)
  note step = text_end_tag_name_step [OF st tok assms(4), of p4 pa]
  have l: "lastStartTagName r4 = lastStartTagName r" "tokenStart r4 = p" "tempBuff r4 = n"
    "emitted r4 = emitted r" "pendingText r4 = pendingText r"
    "getLocation r4 = getLocation r"
    "emitCurrentCharacterToken r4 p = (emitCurrentCharacterToken r p)
       \<lparr>state := TEXT_END_TAG_NAME m, tokenStart := p,
        currentToken := Some (TagToken True (map toAsciiLower n) [] False),
        tempBuff := n\<rparr>"
    by (simp_all add: r4_def pendingText_def getLocation_def fun_eq_iff
        emitCurrentCharacterToken_def split: option.split)
  show "map toAsciiLower n = map toAsciiLower (lastStartTagName r) \<and>
         (isWhitespace c \<or> c = SOLIDUS \<or> c = GREATER_THAN_SIGN) \<longrightarrow>
           state (snd (run (p, r) (js ''</'' @ n @ [c]))) =
             (if isWhitespace c then BEFORE_ATTRIBUTE_NAME
              else if c = SOLIDUS then SELF_CLOSING_START_TAG else DATA) \<and>
           (c = GREATER_THAN_SIGN \<longrightarrow>
              emitted (snd (run (p, r) (js ''</'' @ n @ [c]))) =
                emitted (emitCurrentCharacterToken r p) @
                [EndTag (map toAsciiLower n)
                   (getLocation r p (fst (run (p, r) (js ''</'' @ n @ [c]))))])"
  proof
    assume h: "map toAsciiLower n = map toAsciiLower (lastStartTagName r) \<and>
         (isWhitespace c \<or> c = SOLIDUS \<or> c = GREATER_THAN_SIGN)"
    then have eq: "map toAsciiLower n = map toAsciiLower (lastStartTagName r4)"
      by (simp add: l)
    consider "isWhitespace c" | "\<not> isWhitespace c" "c = SOLIDUS"
      | "\<not> isWhitespace c" "c \<noteq> SOLIDUS" "c = GREATER_THAN_SIGN"
      using h by blast
    then show "state (snd (run (p, r) (js ''</'' @ n @ [c]))) =
             (if isWhitespace c then BEFORE_ATTRIBUTE_NAME
              else if c = SOLIDUS then SELF_CLOSING_START_TAG else DATA) \<and>
           (c = GREATER_THAN_SIGN \<longrightarrow>
              emitted (snd (run (p, r) (js ''</'' @ n @ [c]))) =
                emitted (emitCurrentCharacterToken r p) @
                [EndTag (map toAsciiLower n)
                   (getLocation r p (fst (run (p, r) (js ''</'' @ n @ [c]))))])"
    proof cases
      case 1
      then have "callState r4 c p4 pa = r4\<lparr>state := BEFORE_ATTRIBUTE_NAME\<rparr>"
        using step(1) eq by blast
      moreover have "c \<noteq> GREATER_THAN_SIGN"
        using 1 by (auto simp add: isWhitespace_def)
      ultimately show ?thesis
        using 1 by (simp add: res)
    next
      case 2
      then have "callState r4 c p4 pa = r4\<lparr>state := SELF_CLOSING_START_TAG\<rparr>"
        using step(2) eq by blast
      then have "state (snd (run (p, r) (js ''</'' @ n @ [c]))) = SELF_CLOSING_START_TAG"
        by (simp add: res)
      then show ?thesis
        using 2 by simp
    next
      case 3
      then have "state (callState r4 c p4 pa) = DATA \<and>
           currentToken (callState r4 c p4 pa) = None \<and>
           emitted (callState r4 c p4 pa) =
             emitted (emitCurrentCharacterToken r4 (tokenStart r4)) @
             [EndTag (map toAsciiLower n) (getLocation r4 (tokenStart r4) pa)]"
        using step(3) eq by simp
      then have "state (snd (run (p, r) (js ''</'' @ n @ [c]))) = DATA \<and>
          emitted (snd (run (p, r) (js ''</'' @ n @ [c]))) =
            emitted (emitCurrentCharacterToken r p) @
            [EndTag (map toAsciiLower n)
               (getLocation r p (fst (run (p, r) (js ''</'' @ n @ [c]))))]"
        by (simp add: res l)
      then show ?thesis
        using 3 by simp
    qed
  qed
  show "\<not> (map toAsciiLower n = map toAsciiLower (lastStartTagName r) \<and>
            (isWhitespace c \<or> c = SOLIDUS \<or> c = GREATER_THAN_SIGN)) \<longrightarrow>
           inTextMode m (state (snd (run (p, r) (js ''</'' @ n @ [c])))) \<and>
           markup (emitted (snd (run (p, r) (js ''</'' @ n @ [c])))) = markup (emitted r) \<and>
           pendingText (snd (run (p, r) (js ''</'' @ n @ [c]))) =
             pendingText r @ js ''</'' @ n @
             (if c = LESS_THAN_SIGN then [] else [replaceNull c])"
  proof
    assume "\<not> (map toAsciiLower n = map toAsciiLower (lastStartTagName r) \<and>
            (isWhitespace c \<or> c = SOLIDUS \<or> c = GREATER_THAN_SIGN))"
    then have "map toAsciiLower n \<noteq> map toAsciiLower (lastStartTagName r4) \<or>
         \<not> (isWhitespace c \<or> c = SOLIDUS \<or> c = GREATER_THAN_SIGN)"
      by (simp add: l)
    from step(4) [rule_format, OF this]
    show "inTextMode m (state (snd (run (p, r) (js ''</'' @ n @ [c])))) \<and>
           markup (emitted (snd (run (p, r) (js ''</'' @ n @ [c])))) = markup (emitted r) \<and>
           pendingText (snd (run (p, r) (js ''</'' @ n @ [c]))) =
             pendingText r @ js ''</'' @ n @
             (if c = LESS_THAN_SIGN then [] else [replaceNull c])"
      by (simp add: res l)
  qed
qed

subsection \<open>Bogus comments, in any registers\<close>



lemma end_tag_open_dropped:
  assumes "state r = END_TAG_OPEN"
  shows "callState r GREATER_THAN_SIGN pb pa = r\<lparr>state := DATA\<rparr>"
  using assms
  by (simp add: callState_def stateEndTagOpen_def isAsciiLetter_def isAsciiUpper_def
      isAsciiLower_def)

lemma emitCurrentToken_comment:
  assumes "currentToken r = Some (CommentToken d)"
  shows "emitted (emitCurrentToken r pa) =
     emitted (emitCurrentCharacterToken r (tokenStart r)) @
     [Comment d (getLocation r (tokenStart r) pa)]"
    and "currentToken (emitCurrentToken r pa) = None"
    and "currentCharacterToken (emitCurrentToken r pa) = None"
  using assms
  by (simp_all add: emitCurrentToken_def Let_def emitCurrentCharacterToken_def
      split: option.split)







subsection \<open>Tokens delivered stay delivered\<close>

lemma emitCurrentCharacterToken_grows [simp]:
  "prefix xs (emitted r) \<Longrightarrow> prefix xs (emitted (emitCurrentCharacterToken r p))"
  by (simp add: emitCurrentCharacterToken_def split: option.split)

lemma appendCharToCurrentCharacterToken_grows [simp]:
  "prefix xs (emitted r) \<Longrightarrow> prefix xs (emitted (appendCharToCurrentCharacterToken r k c p))"
  by (simp add: appendCharToCurrentCharacterToken_def split: option.split)

lemma emitCodePoint_grows [simp]:
  "prefix xs (emitted r) \<Longrightarrow> prefix xs (emitted (emitCodePoint r c p))"
  by (simp add: emitCodePoint_def)

lemma emitChars_grows [simp]:
  "prefix xs (emitted r) \<Longrightarrow> prefix xs (emitted (emitChars r cs p))"
  by (induction r cs p rule: emitChars.induct) simp_all

lemma emitCurrentToken_grows [simp]:
  "prefix xs (emitted r) \<Longrightarrow> prefix xs (emitted (emitCurrentToken r p))"
  by (simp add: emitCurrentToken_def Let_def split: option.split)

lemma stateData_grows [simp]:
  "prefix xs (emitted r) \<Longrightarrow> prefix xs (emitted (stateData r c pb pa))"
  by (simp add: stateData_def)

lemma stateText_grows [simp]:
  "prefix xs (emitted r) \<Longrightarrow> prefix xs (emitted (stateText m r c pb pa))"
  by (simp add: stateText_def)

lemma statePlaintext_grows [simp]:
  "prefix xs (emitted r) \<Longrightarrow> prefix xs (emitted (statePlaintext r c pb pa))"
  by (simp add: statePlaintext_def)

lemma stateTagName_grows [simp]:
  "prefix xs (emitted r) \<Longrightarrow> prefix xs (emitted (stateTagName r c pb pa))"
  by (simp add: stateTagName_def)

lemma stateBogusComment_grows [simp]:
  "prefix xs (emitted r) \<Longrightarrow> prefix xs (emitted (stateBogusComment r c pb pa))"
  by (simp add: stateBogusComment_def)

lemma stateTagOpen_grows [simp]:
  "prefix xs (emitted r) \<Longrightarrow> prefix xs (emitted (stateTagOpen r c pb pa))"
  by (simp add: stateTagOpen_def)

lemma stateEndTagOpen_grows [simp]:
  "prefix xs (emitted r) \<Longrightarrow> prefix xs (emitted (stateEndTagOpen r c pb pa))"
  by (simp add: stateEndTagOpen_def)

lemma stateTextLessThanSign_grows [simp]:
  "prefix xs (emitted r) \<Longrightarrow> prefix xs (emitted (stateTextLessThanSign m r c pb pa))"
  by (simp add: stateTextLessThanSign_def)

lemma stateTextEndTagName_grows [simp]:
  "prefix xs (emitted r) \<Longrightarrow> prefix xs (emitted (stateTextEndTagName m r c pb pa))"
  by (simp add: stateTextEndTagName_def)

lemma stateTextEndTagOpen_grows [simp]:
  "prefix xs (emitted r) \<Longrightarrow> prefix xs (emitted (stateTextEndTagOpen m r c pb pa))"
  by (simp add: stateTextEndTagOpen_def)

lemma stateAttributeName_grows [simp]:
  "prefix xs (emitted r) \<Longrightarrow> prefix xs (emitted (stateAttributeName r c pb pa))"
  by (simp add: stateAttributeName_def)

lemma stateAfterAttributeName_grows [simp]:
  "prefix xs (emitted r) \<Longrightarrow> prefix xs (emitted (stateAfterAttributeName r c pb pa))"
  by (simp add: stateAfterAttributeName_def)

lemma stateBeforeAttributeName_grows [simp]:
  "prefix xs (emitted r) \<Longrightarrow> prefix xs (emitted (stateBeforeAttributeName r c pb pa))"
  by (simp add: stateBeforeAttributeName_def)

lemma stateAttributeValueUnquoted_grows [simp]:
  "prefix xs (emitted r) \<Longrightarrow> prefix xs (emitted (stateAttributeValueUnquoted r c pb pa))"
  by (simp add: stateAttributeValueUnquoted_def)

lemma stateBeforeAttributeValue_grows [simp]:
  "prefix xs (emitted r) \<Longrightarrow> prefix xs (emitted (stateBeforeAttributeValue r c pb pa))"
  by (simp add: stateBeforeAttributeValue_def)

lemma stateAttributeValueQuoted_grows [simp]:
  "prefix xs (emitted r) \<Longrightarrow> prefix xs (emitted (stateAttributeValueQuoted q r c pb pa))"
  by (simp add: stateAttributeValueQuoted_def)

lemma stateAfterAttributeValueQuoted_grows [simp]:
  "prefix xs (emitted r) \<Longrightarrow> prefix xs (emitted (stateAfterAttributeValueQuoted r c pb pa))"
  by (simp add: stateAfterAttributeValueQuoted_def)

lemma stateSelfClosingStartTag_grows [simp]:
  "prefix xs (emitted r) \<Longrightarrow> prefix xs (emitted (stateSelfClosingStartTag r c pb pa))"
  by (simp add: stateSelfClosingStartTag_def)

lemma stateMarkupDeclarationOpen_grows [simp]:
  "prefix xs (emitted r) \<Longrightarrow> prefix xs (emitted (stateMarkupDeclarationOpen r c pb pa))"
  by (simp add: stateMarkupDeclarationOpen_def Let_def)

lemma stateComment_grows [simp]:
  "prefix xs (emitted r) \<Longrightarrow> prefix xs (emitted (stateComment r c pb pa))"
  by (simp add: stateComment_def)

lemma stateCommentStart_grows [simp]:
  "prefix xs (emitted r) \<Longrightarrow> prefix xs (emitted (stateCommentStart r c pb pa))"
  by (simp add: stateCommentStart_def)

lemma stateCommentStartDash_grows [simp]:
  "prefix xs (emitted r) \<Longrightarrow> prefix xs (emitted (stateCommentStartDash r c pb pa))"
  by (simp add: stateCommentStartDash_def)

lemma stateCommentEndDash_grows [simp]:
  "prefix xs (emitted r) \<Longrightarrow> prefix xs (emitted (stateCommentEndDash r c pb pa))"
  by (simp add: stateCommentEndDash_def)

lemma stateCommentEnd_grows [simp]:
  "prefix xs (emitted r) \<Longrightarrow> prefix xs (emitted (stateCommentEnd r c pb pa))"
  by (simp add: stateCommentEnd_def)

lemma stateCommentEndBang_grows [simp]:
  "prefix xs (emitted r) \<Longrightarrow> prefix xs (emitted (stateCommentEndBang r c pb pa))"
  by (simp add: stateCommentEndBang_def)

lemma stateBeforeDoctypeName_grows [simp]:
  "prefix xs (emitted r) \<Longrightarrow> prefix xs (emitted (stateBeforeDoctypeName r c pb pa))"
  by (simp add: stateBeforeDoctypeName_def)

lemma stateDoctype_grows [simp]:
  "prefix xs (emitted r) \<Longrightarrow> prefix xs (emitted (stateDoctype r c pb pa))"
  by (simp add: stateDoctype_def)

lemma stateDoctypeName_grows [simp]:
  "prefix xs (emitted r) \<Longrightarrow> prefix xs (emitted (stateDoctypeName r c pb pa))"
  by (simp add: stateDoctypeName_def)

lemma stateAfterDoctypeName_grows [simp]:
  "prefix xs (emitted r) \<Longrightarrow> prefix xs (emitted (stateAfterDoctypeName r c pb pa))"
  by (simp add: stateAfterDoctypeName_def)

lemma stateBogusDoctype_grows [simp]:
  "prefix xs (emitted r) \<Longrightarrow> prefix xs (emitted (stateBogusDoctype r c pb pa))"
  by (simp add: stateBogusDoctype_def)

lemma stateCdataSection_grows [simp]:
  "prefix xs (emitted r) \<Longrightarrow> prefix xs (emitted (stateCdataSection r c pb pa))"
  by (simp add: stateCdataSection_def)

lemma stateCdataSectionBracket_grows [simp]:
  "prefix xs (emitted r) \<Longrightarrow> prefix xs (emitted (stateCdataSectionBracket r c pb pa))"
  by (simp add: stateCdataSectionBracket_def)

lemma stateCdataSectionEnd_grows [simp]:
  "prefix xs (emitted r) \<Longrightarrow> prefix xs (emitted (stateCdataSectionEnd r c pb pa))"
  by (simp add: stateCdataSectionEnd_def)

lemma callState_grows: "prefix xs (emitted r) \<Longrightarrow> prefix xs (emitted (callState r c pb pa))"
  by (simp add: callState_def split: State.split)

lemma feed_grows: "prefix xs (emitted (snd s)) \<Longrightarrow> prefix xs (emitted (snd (feed s i)))"
  by (simp add: feed_def Let_def callState_grows)

lemma foldl_feed_grows:
  "prefix xs (emitted (snd s)) \<Longrightarrow> prefix xs (emitted (snd (foldl feed s items)))"
  by (induction items arbitrary: s) (simp_all add: feed_grows)

lemma run_grows: "prefix xs (emitted (snd s)) \<Longrightarrow> prefix xs (emitted (snd (run s cs)))"
  by (simp add: run_def foldl_feed_grows)

lemma emitEOFToken_grows [simp]:
  "prefix xs (emitted r) \<Longrightarrow> prefix xs (emitted (emitEOFToken r p))"
  by (simp add: emitEOFToken_def Let_def)

lemma stateEOF_grows: "prefix xs (emitted r) \<Longrightarrow> prefix xs (emitted (stateEOF r p))"
  by (cases "state r") (simp_all add: stateEOF_def)

subsection \<open>Bogus comments anywhere in the input\<close>


lemma run_snd_snoc:
  "snd (run s (cs @ [c])) =
     callState (snd (run s cs)) c (fst (run s cs)) (advancePosition (fst (run s cs)) (c, Suc 0))"
  using snd_feed [of "fst (run s cs)" "snd (run s cs)" c] by (simp add: run_snoc)





lemma token_in_input:
  assumes "CR \<notin> set (pre @ X @ post)"
    and "P (snd (consumeAll mode l f pre))"
    and "\<And>p r. P r \<Longrightarrow>
           emitted (snd (run (p, r) X)) =
             emitted (emitCurrentCharacterToken r p) @
             [mk (getLocation r p (fst (run (p, r) X)))]"
  shows "\<exists>ts us loc.
     tokenize mode l f (pre @ X @ post) = ts @ mk (Some loc) # us \<and>
     startOffset loc = length pre \<and> endOffset loc = length pre + length X"
proof -
  define s0 where "s0 = (\<lparr>offset = 0, line = 1, col = 1\<rparr>,
      (initialRegisters True)\<lparr>state := mode, lastStartTagName := l, inForeignNode := f\<rparr>)"
  define s1 where "s1 = run s0 pre"
  define s2 where "s2 = run (fst s1, snd s1) X"
  define s3 where "s3 = run s2 post"
  have pre: "consumeAll mode l f pre = s1"
    using assms(1) by (simp add: consumeAll_noCR s1_def s0_def)
  have all: "consumeAll mode l f (pre @ X @ post) = s3"
    using assms(1) by (simp add: consumeAll_noCR run_append s3_def s2_def s1_def s0_def)
  have st: "P (snd s1)"
    using assms(2) by (simp add: pre)
  have loc: "sourceCodeLocationInfo (snd s1)"
    by (simp add: s1_def run_def foldl_feed_keeps s0_def initialRegisters_def)
  have o1: "offset (fst s1) = length pre"
    by (simp add: s1_def offset_run s0_def)
  have o2: "offset (fst s2) = length pre + length X"
    by (simp add: s2_def offset_run o1)
  define ts where "ts = emitted (emitCurrentCharacterToken (snd s1) (fst s1))"
  define loc where "loc = \<lparr>startOffset = offset (fst s1), endOffset = offset (fst s2),
      startLine = line (fst s1), startCol = col (fst s1),
      endLine = line (fst s2), endCol = col (fst s2)\<rparr>"
  have e2: "emitted (snd s2) = ts @ [mk (Some loc)]"
    using assms(3) [OF st, of "fst s1"] loc
    by (simp add: s2_def ts_def loc_def getLocation_def)
  have "prefix (emitted (snd s2)) (emitted (snd s3))"
    unfolding s3_def by (rule run_grows) simp
  then have "prefix (emitted (snd s2)) (emitted (stateEOF (snd s3) (fst s3)))"
    by (rule stateEOF_grows)
  then obtain us where "emitted (stateEOF (snd s3) (fst s3)) = (ts @ [mk (Some loc)]) @ us"
    unfolding e2 prefix_def by blast
  then have "tokenize mode l f (pre @ X @ post) = ts @ mk (Some loc) # us"
    by (simp add: tokenize_def Let_def all)
  moreover have "startOffset loc = length pre" "endOffset loc = length pre + length X"
    by (simp_all add: loc_def o1 o2)
  ultimately show ?thesis
    by blast
qed





lemma end_tag_anywhere:
  assumes "\<forall>c\<in>set n. isAsciiLetter c" and "n \<noteq> []" and "CR \<notin> set (pre @ post)"
    and "state (snd (consumeAll mode l f pre)) = modeState m"
    and "map toAsciiLower n = map toAsciiLower (lastStartTagName (snd (consumeAll mode l f pre)))"
  shows "\<exists>ts us loc.
     tokenize mode l f (pre @ (js ''</'' @ n @ js ''>'') @ post) =
       ts @ EndTag (map toAsciiLower n) (Some loc) # us \<and>
     startOffset loc = length pre \<and> endOffset loc = length pre + length n + 3"
proof -
  have "CR \<notin> set n"
    using assms(1) letter_facts(7) by blast
  then have noCR: "CR \<notin> set (pre @ (js ''</'' @ n @ [GREATER_THAN_SIGN]) @ post)"
    using assms(3) by (simp add: js_def CR_def)
  have c: "emitted (snd (run (p, r) (js ''</'' @ n @ [GREATER_THAN_SIGN]))) =
             emitted (emitCurrentCharacterToken r p) @
             [EndTag (map toAsciiLower n)
                (getLocation r p (fst (run (p, r) (js ''</'' @ n @ [GREATER_THAN_SIGN]))))]"
    if "state r = modeState m \<and> map toAsciiLower n = map toAsciiLower (lastStartTagName r)"
    for p r
  proof -
    have "\<not> isAsciiLetter GREATER_THAN_SIGN"
      by (simp add: isAsciiLetter_def isAsciiUpper_def isAsciiLower_def)
    from candidate_end_tag_rule(1) [OF assms(1,2) _ this, of r m p] that
    show ?thesis by simp
  qed
  have P: "state (snd (consumeAll mode l f pre)) = modeState m \<and>
      map toAsciiLower n = map toAsciiLower (lastStartTagName (snd (consumeAll mode l f pre)))"
    using assms(4,5) by simp
  from token_in_input [where P = "\<lambda>r. state r = modeState m \<and>
        map toAsciiLower n = map toAsciiLower (lastStartTagName r)"
      and mk = "EndTag (map toAsciiLower n)", OF noCR P c]
  show ?thesis
    by (simp add: js_def numeral_eq_Suc)
qed

lemma text_less_than_sign:
  assumes "state r = modeState m"
  shows "snd (run (p, r) [LESS_THAN_SIGN]) = r\<lparr>state := TEXT_LESS_THAN_SIGN m, tokenStart := p\<rparr>"
  using assms
  by (simp add: run_Cons run_Nil feed_def Let_def callState_text stateText_def)

lemma candidate_without_name:
  assumes "state r = modeState m" and "\<not> isAsciiLetter c"
  shows "inTextMode m (state (snd (run (p, r) (js ''</'' @ [c])))) \<and>
         markup (emitted (snd (run (p, r) (js ''</'' @ [c])))) = markup (emitted r) \<and>
         pendingText (snd (run (p, r) (js ''</'' @ [c]))) =
           pendingText r @ js ''</'' @ (if c = LESS_THAN_SIGN then [] else [replaceNull c])"
    and "c \<noteq> SOLIDUS \<longrightarrow>
         inTextMode m (state (snd (run (p, r) (js ''<'' @ [c])))) \<and>
         markup (emitted (snd (run (p, r) (js ''<'' @ [c])))) = markup (emitted r) \<and>
         pendingText (snd (run (p, r) (js ''<'' @ [c]))) =
           pendingText r @ js ''<'' @ (if c = LESS_THAN_SIGN then [] else [replaceNull c])"
proof -
  define r1 where "r1 = r\<lparr>state := TEXT_LESS_THAN_SIGN m, tokenStart := p\<rparr>"
  define r2 where "r2 = r1\<lparr>tempBuff := [], state := TEXT_END_TAG_OPEN m\<rparr>"
  have s1: "snd (run (p, r) [LESS_THAN_SIGN]) = r1"
    by (simp add: text_less_than_sign [OF assms(1)] r1_def)
  have s2: "snd (run (p, r) ([LESS_THAN_SIGN] @ [SOLIDUS])) = r2"
    by (simp only: run_snd_snoc s1) (simp add: callState_def stateTextLessThanSign_def r1_def r2_def)
  have l1: "js ''<'' @ [c] = [LESS_THAN_SIGN] @ [c]"
    and l2: "js ''</'' @ [c] = ([LESS_THAN_SIGN] @ [SOLIDUS]) @ [c]"
    by (simp_all add: js_def)
  have e2: "stateTextEndTagOpen m r2 c pb pa =
      stateText m ((emitChars r2 (js ''</'') (tokenStart r2))\<lparr>state := modeState m\<rparr>) c pb pa"
    for pb pa
    using assms(2) by (simp add: stateTextEndTagOpen_def)
  have c2: "callState r2 c pb pa = stateTextEndTagOpen m r2 c pb pa" for pb pa
    by (simp add: callState_def r2_def)
  have same2: "pendingText r2 = pendingText r" "emitted r2 = emitted r"
    by (simp_all add: r2_def r1_def)
  show "inTextMode m (state (snd (run (p, r) (js ''</'' @ [c])))) \<and>
         markup (emitted (snd (run (p, r) (js ''</'' @ [c])))) = markup (emitted r) \<and>
         pendingText (snd (run (p, r) (js ''</'' @ [c]))) =
           pendingText r @ js ''</'' @ (if c = LESS_THAN_SIGN then [] else [replaceNull c])"
  proof -
    have "snd (run (p, r) (js ''</'' @ [c])) =
        callState r2 c (fst (run (p, r) ([LESS_THAN_SIGN] @ [SOLIDUS])))
          (advancePosition (fst (run (p, r) ([LESS_THAN_SIGN] @ [SOLIDUS]))) (c, Suc 0))"
      unfolding l2 by (subst run_snd_snoc) (simp only: s2)
    then show ?thesis
      by (simp only: c2 e2) (simp add: stateText_text emitChars_text same2)
  qed
  show "c \<noteq> SOLIDUS \<longrightarrow>
         inTextMode m (state (snd (run (p, r) (js ''<'' @ [c])))) \<and>
         markup (emitted (snd (run (p, r) (js ''<'' @ [c])))) = markup (emitted r) \<and>
         pendingText (snd (run (p, r) (js ''<'' @ [c]))) =
           pendingText r @ js ''<'' @ (if c = LESS_THAN_SIGN then [] else [replaceNull c])"
  proof
    assume n: "c \<noteq> SOLIDUS"
    have e1: "stateTextLessThanSign m r1 c pb pa =
        stateText m ((emitChars r1 (js ''<'') (tokenStart r1))\<lparr>state := modeState m\<rparr>) c pb pa"
      for pb pa
      using n by (simp add: stateTextLessThanSign_def)
    have c1: "callState r1 c pb pa = stateTextLessThanSign m r1 c pb pa" for pb pa
      by (simp add: callState_def r1_def)
    have same1: "pendingText r1 = pendingText r" "emitted r1 = emitted r"
      by (simp_all add: r1_def)
    show "inTextMode m (state (snd (run (p, r) (js ''<'' @ [c])))) \<and>
         markup (emitted (snd (run (p, r) (js ''<'' @ [c])))) = markup (emitted r) \<and>
         pendingText (snd (run (p, r) (js ''<'' @ [c]))) =
           pendingText r @ js ''<'' @ (if c = LESS_THAN_SIGN then [] else [replaceNull c])"
    proof -
      have "snd (run (p, r) (js ''<'' @ [c])) =
          callState r1 c (fst (run (p, r) [LESS_THAN_SIGN]))
            (advancePosition (fst (run (p, r) [LESS_THAN_SIGN])) (c, Suc 0))"
        unfolding l1 by (subst run_snd_snoc) (simp only: s1)
      then show ?thesis
        by (simp only: c1 e1) (simp add: stateText_text emitChars_text same1)
    qed
  qed
qed

subsection \<open>The examples of the specification\<close>

lemma tokenize_script_data:
  "tokenize SCRIPT_DATA (js ''script'') False (js ''a<--d;</script><div>'') =
     [Character REGULAR (js ''a<--d;'')
        (Some \<lparr>startOffset = 0, endOffset = 6, startLine = 1, startCol = 1,
                endLine = 1, endCol = 7\<rparr>),
      EndTag (js ''script'')
        (Some \<lparr>startOffset = 6, endOffset = 15, startLine = 1, startCol = 7,
                endLine = 1, endCol = 16\<rparr>),
      StartTag (js ''div'') [] False
        (Some \<lparr>startOffset = 15, endOffset = 20, startLine = 1, startCol = 16,
                endLine = 1, endCol = 21\<rparr>),
      EndOfFile
        (Some \<lparr>startOffset = 20, endOffset = 20, startLine = 1, startCol = 21,
                endLine = 1, endCol = 21\<rparr>)]"
  by code_simp

lemma tokenize_rawtext:
  "tokenize RAWTEXT (js ''script'') False (js ''a<--d;</script><div>'') =
     [Character REGULAR (js ''a<--d;'')
        (Some \<lparr>startOffset = 0, endOffset = 6, startLine = 1, startCol = 1,
                endLine = 1, endCol = 7\<rparr>),
      EndTag (js ''script'')
        (Some \<lparr>startOffset = 6, endOffset = 15, startLine = 1, startCol = 7,
                endLine = 1, endCol = 16\<rparr>),
      StartTag (js ''div'') [] False
        (Some \<lparr>startOffset = 15, endOffset = 20, startLine = 1, startCol = 16,
                endLine = 1, endCol = 21\<rparr>),
      EndOfFile
        (Some \<lparr>startOffset = 20, endOffset = 20, startLine = 1, startCol = 21,
                endLine = 1, endCol = 21\<rparr>)]"
  by code_simp

lemma tokenize_rcdata:
  "tokenize RCDATA (js ''script'') False (js ''a<--d;</script><div>'') =
     [Character REGULAR (js ''a<--d;'')
        (Some \<lparr>startOffset = 0, endOffset = 6, startLine = 1, startCol = 1,
                endLine = 1, endCol = 7\<rparr>),
      EndTag (js ''script'')
        (Some \<lparr>startOffset = 6, endOffset = 15, startLine = 1, startCol = 7,
                endLine = 1, endCol = 16\<rparr>),
      StartTag (js ''div'') [] False
        (Some \<lparr>startOffset = 15, endOffset = 20, startLine = 1, startCol = 16,
                endLine = 1, endCol = 21\<rparr>),
      EndOfFile
        (Some \<lparr>startOffset = 20, endOffset = 20, startLine = 1, startCol = 21,
                endLine = 1, endCol = 21\<rparr>)]"
  by code_simp


lemma tokenize_cdata_foreign:
  "tokenize DATA [] True (js ''<![CDATA[ x ]]>'') =
     [Character WHITESPACE (js '' '')
        (Some \<lparr>startOffset = 0, endOffset = 10, startLine = 1, startCol = 1,
                endLine = 1, endCol = 11\<rparr>),
      Character REGULAR (js ''x'')
        (Some \<lparr>startOffset = 10, endOffset = 11, startLine = 1, startCol = 11,
                endLine = 1, endCol = 12\<rparr>),
      Character WHITESPACE (js '' '')
        (Some \<lparr>startOffset = 11, endOffset = 15, startLine = 1, startCol = 12,
                endLine = 1, endCol = 16\<rparr>),
      EndOfFile
        (Some \<lparr>startOffset = 15, endOffset = 15, startLine = 1, startCol = 16,
                endLine = 1, endCol = 16\<rparr>)]"
  by code_simp

lemma tokenize_cdata_html:
  "tokenize DATA [] False (js ''<![CDATA[ x ]]>'') =
     [Comment (js ''[CDATA[ x ]]'')
        (Some \<lparr>startOffset = 0, endOffset = 15, startLine = 1, startCol = 1,
                endLine = 1, endCol = 16\<rparr>),
      EndOfFile
        (Some \<lparr>startOffset = 15, endOffset = 15, startLine = 1, startCol = 16,
                endLine = 1, endCol = 16\<rparr>)]"
  by code_simp

text \<open>
  Claim C4. In the Data state, \<open><![CDATA[ x ]]>\<close> with \<open>inForeignNode\<close> set is delivered as
  character data, the content between \<open><![CDATA[\<close> and \<open>]]>\<close> as it is (a whitespace, a
  regular and a whitespace character token, \<open>" x "\<close> together); with \<open>inForeignNode\<close> not
  set it is one Comment token, the bogus comment. For any content without \<open>]\<close> the tokens
  of a CDATA section in foreign content are character tokens that spell the content. And
  the CDATA section state is entered from outside only after \<open><![CDATA[\<close> with
  \<open>inForeignNode\<close> set.
\<close>

theorem cdata_scoping:
  assumes "RIGHT_SQUARE_BRACKET \<notin> set s" and "CR \<notin> set s"
    and "state (callState r c pb pa) = CDATA_SECTION"
    and "state r \<noteq> CDATA_SECTION" and "state r \<noteq> CDATA_SECTION_BRACKET"
    and "state r \<noteq> CDATA_SECTION_END"
  shows "delivered (locationInfoTest d w DATA [] True [js ''<![CDATA[ x ]]>'']) =
           Some [Character WHITESPACE (js '' '')
                   (Some \<lparr>startOffset = 0, endOffset = 10, startLine = 1, startCol = 1,
                           endLine = 1, endCol = 11\<rparr>),
                 Character REGULAR (js ''x'')
                   (Some \<lparr>startOffset = 10, endOffset = 11, startLine = 1, startCol = 11,
                           endLine = 1, endCol = 12\<rparr>),
                 Character WHITESPACE (js '' '')
                   (Some \<lparr>startOffset = 11, endOffset = 15, startLine = 1, startCol = 12,
                           endLine = 1, endCol = 16\<rparr>),
                 EndOfFile
                   (Some \<lparr>startOffset = 15, endOffset = 15, startLine = 1, startCol = 16,
                           endLine = 1, endCol = 16\<rparr>)] \<and>
         delivered (locationInfoTest d w DATA [] False [js ''<![CDATA[ x ]]>'']) =
           Some [Comment (js ''[CDATA[ x ]]'')
                   (Some \<lparr>startOffset = 0, endOffset = 15, startLine = 1, startCol = 1,
                           endLine = 1, endCol = 16\<rparr>),
                 EndOfFile
                   (Some \<lparr>startOffset = 15, endOffset = 15, startLine = 1, startCol = 16,
                           endLine = 1, endCol = 16\<rparr>)] \<and>
         characterData (tokenize DATA l True (js ''<![CDATA['' @ s @ js '']]>'')) = s \<and>
         (\<exists>ts loc. tokenize DATA l True (js ''<![CDATA['' @ s @ js '']]>'') =
                     ts @ [EndOfFile loc] \<and> list_all isCharacter ts) \<and>
         inForeignNode r \<and> state r = MARKUP_DECLARATION_OPEN \<and>
         tempBuff r @ [c] = js ''[CDATA[''"
proof -
  have m: "state r = MARKUP_DECLARATION_OPEN"
    using assms(3-6) by (rule cdata_only_from_markup_declaration)
  then have "state (stateMarkupDeclarationOpen r c pb pa) = CDATA_SECTION"
    using assms(3) by (simp add: callState_def)
  then have "inForeignNode r \<and> tempBuff r @ [c] = js ''[CDATA[''"
    using assms(4) by (rule cdata_needs_foreign)
  then show ?thesis
    using m cdata_verbatim [OF assms(1,2), of l]
    by (simp add: delivered_locationInfoTest tokenize_cdata_foreign tokenize_cdata_html)
qed

theorem cdata_scoping_witness:
  "state (callState
            ((initialRegisters True)
               \<lparr>state := MARKUP_DECLARATION_OPEN, inForeignNode := True,
                tempBuff := js ''[CDATA''\<rparr>)
            0x5B \<lparr>offset = 8, line = 1, col = 9\<rparr> \<lparr>offset = 9, line = 1, col = 10\<rparr>) =
     CDATA_SECTION \<and>
   inForeignNode
     ((initialRegisters True)
        \<lparr>state := MARKUP_DECLARATION_OPEN, inForeignNode := True, tempBuff := js ''[CDATA''\<rparr>) \<and>
   characterData (tokenize DATA [] True (js ''<![CDATA['' @ js '' x '' @ js '']]>'')) = js '' x ''"
proof -
  have h1: "RIGHT_SQUARE_BRACKET \<notin> set (js '' x '')" and h2: "CR \<notin> set (js '' x '')"
    by (simp_all add: js_def CR_def)
  have h3: "state (callState
            ((initialRegisters True)
               \<lparr>state := MARKUP_DECLARATION_OPEN, inForeignNode := True,
                tempBuff := js ''[CDATA''\<rparr>)
            0x5B \<lparr>offset = 8, line = 1, col = 9\<rparr> \<lparr>offset = 9, line = 1, col = 10\<rparr>) =
     CDATA_SECTION"
    by code_simp
  show ?thesis
    using cdata_scoping [OF h1 h2 h3, where l = "[]"] h3 by simp
qed





text \<open>
  Claim C6. In script data, and likewise in RAWTEXT and RCDATA, with \<open>lastStartTagName\<close>
  \<open>script\<close>, the input \<open>a<--d;</script><div>\<close> is delivered as the character data
  \<open>a<--d;\<close>, the EndTag \<open>script\<close> and, back in Data mode, the StartTag \<open>div\<close>. A candidate end
  tag ends the mode only if its name equals \<open>lastStartTagName\<close> case-insensitively: in any
  registers that hold a buffered candidate, white space, \<open>/\<close> and \<open>>\<close> after a matching name
  go on to the attributes, to the self-closing state, and to Data mode with the EndTag
  delivered; after a name that does not match, or at any other code point that is not a
  letter, the buffered text \<open></name\<close> is character data and the mode is kept, and so it is
  when the input ends within the name. No step leaves the states of the mode in another
  way. The same holds of \<open></name\<close> and the code point after it wherever the machine is in
  the mode; a \<open></\<close> or a \<open><\<close> that no name follows is character data too; and an end tag
  \<open></name>\<close> with a matching name anywhere in an input is delivered as an EndTag token
  that extends from \<open><\<close> to \<open>>\<close>.
\<close>

theorem mode_exit:
  assumes "\<forall>c\<in>set n. isAsciiLetter c" and "n \<noteq> []"
    and "state r = TEXT_END_TAG_NAME m"
    and "currentToken r = Some (TagToken True nm attrs sc)"
    and "\<not> isAsciiLetter c"
    and "inTextMode m (state q)" and "\<not> inTextMode m (state (callState q k pb pa))"
    and "state r0 = modeState m"
    and "CR \<notin> set (pre @ post)"
    and "state (snd (consumeAll mode l0 f0 pre)) = modeState m"
    and "map toAsciiLower n =
         map toAsciiLower (lastStartTagName (snd (consumeAll mode l0 f0 pre)))"
  shows "delivered (locationInfoTest d w SCRIPT_DATA (js ''script'') False
                      [js ''a<--d;</script><div>'']) =
           Some (tokenize SCRIPT_DATA (js ''script'') False (js ''a<--d;</script><div>'')) \<and>
         delivered (locationInfoTest d w RAWTEXT (js ''script'') False
                      [js ''a<--d;</script><div>'']) =
           Some (tokenize SCRIPT_DATA (js ''script'') False (js ''a<--d;</script><div>'')) \<and>
         delivered (locationInfoTest d w RCDATA (js ''script'') False
                      [js ''a<--d;</script><div>'']) =
           Some (tokenize SCRIPT_DATA (js ''script'') False (js ''a<--d;</script><div>'')) \<and>
         tokenize SCRIPT_DATA (js ''script'') False (js ''a<--d;</script><div>'') =
           [Character REGULAR (js ''a<--d;'')
              (Some \<lparr>startOffset = 0, endOffset = 6, startLine = 1, startCol = 1,
                      endLine = 1, endCol = 7\<rparr>),
            EndTag (js ''script'')
              (Some \<lparr>startOffset = 6, endOffset = 15, startLine = 1, startCol = 7,
                      endLine = 1, endCol = 16\<rparr>),
            StartTag (js ''div'') [] False
              (Some \<lparr>startOffset = 15, endOffset = 20, startLine = 1, startCol = 16,
                      endLine = 1, endCol = 21\<rparr>),
            EndOfFile
              (Some \<lparr>startOffset = 20, endOffset = 20, startLine = 1, startCol = 21,
                      endLine = 1, endCol = 21\<rparr>)] \<and>
         tokenize (modeState m) l f (js ''</'' @ n @ js ''>'') =
           (if map toAsciiLower n = map toAsciiLower l
            then [EndTag (map toAsciiLower n)
                    (Some \<lparr>startOffset = 0, endOffset = length n + 3, startLine = 1,
                            startCol = 1, endLine = 1, endCol = length n + 4\<rparr>),
                  EndOfFile
                    (Some \<lparr>startOffset = length n + 3, endOffset = length n + 3, startLine = 1,
                            startCol = length n + 4, endLine = 1, endCol = length n + 4\<rparr>)]
            else [Character REGULAR (js ''</'' @ n @ js ''>'')
                    (Some \<lparr>startOffset = 0, endOffset = length n + 3, startLine = 1,
                            startCol = 1, endLine = 1, endCol = length n + 4\<rparr>),
                  EndOfFile
                    (Some \<lparr>startOffset = length n + 3, endOffset = length n + 3, startLine = 1,
                            startCol = length n + 4, endLine = 1, endCol = length n + 4\<rparr>)]) \<and>
         state (snd (consumeAll (modeState m) l f (js ''</'' @ n @ js ''>''))) =
           (if map toAsciiLower n = map toAsciiLower l then DATA else modeState m) \<and>
         (nm = map toAsciiLower (lastStartTagName r) \<and> isWhitespace c \<longrightarrow>
            callState r c pb pa = r\<lparr>state := BEFORE_ATTRIBUTE_NAME\<rparr>) \<and>
         (nm = map toAsciiLower (lastStartTagName r) \<and> c = SOLIDUS \<longrightarrow>
            callState r c pb pa = r\<lparr>state := SELF_CLOSING_START_TAG\<rparr>) \<and>
         (nm = map toAsciiLower (lastStartTagName r) \<and> c = GREATER_THAN_SIGN \<and>
          attrs = [] \<and> \<not> sc \<longrightarrow>
            state (callState r c pb pa) = DATA \<and>
            currentToken (callState r c pb pa) = None \<and>
            emitted (callState r c pb pa) =
              emitted (emitCurrentCharacterToken r (tokenStart r)) @
              [EndTag nm (getLocation r (tokenStart r) pa)]) \<and>
         (nm \<noteq> map toAsciiLower (lastStartTagName r) \<or>
          \<not> (isWhitespace c \<or> c = SOLIDUS \<or> c = GREATER_THAN_SIGN) \<longrightarrow>
            inTextMode m (state (callState r c pb pa)) \<and>
            currentToken (callState r c pb pa) = None \<and>
            markup (emitted (callState r c pb pa)) = markup (emitted r) \<and>
            pendingText (callState r c pb pa) =
              pendingText r @ js ''</'' @ tempBuff r @
              (if c = LESS_THAN_SIGN then [] else [replaceNull c])) \<and>
         markup (emitted (stateEOF r pe)) =
           markup (emitted r) @ [EndOfFile (getLocation r pe pe)] \<and>
         characterData (emitted (stateEOF r pe)) = pendingText r @ js ''</'' @ tempBuff r \<and>
         (state q = TEXT_END_TAG_NAME m \<and> isAppropriateEndTag q \<and>
          (isWhitespace k \<or> k = SOLIDUS \<or> k = GREATER_THAN_SIGN)) \<and>
         (map toAsciiLower n = map toAsciiLower (lastStartTagName r0) \<and>
          (isWhitespace c \<or> c = SOLIDUS \<or> c = GREATER_THAN_SIGN) \<longrightarrow>
            state (snd (run (p, r0) (js ''</'' @ n @ [c]))) =
              (if isWhitespace c then BEFORE_ATTRIBUTE_NAME
               else if c = SOLIDUS then SELF_CLOSING_START_TAG else DATA) \<and>
            (c = GREATER_THAN_SIGN \<longrightarrow>
               emitted (snd (run (p, r0) (js ''</'' @ n @ [c]))) =
                 emitted (emitCurrentCharacterToken r0 p) @
                 [EndTag (map toAsciiLower n)
                    (getLocation r0 p (fst (run (p, r0) (js ''</'' @ n @ [c]))))])) \<and>
         (\<not> (map toAsciiLower n = map toAsciiLower (lastStartTagName r0) \<and>
             (isWhitespace c \<or> c = SOLIDUS \<or> c = GREATER_THAN_SIGN)) \<longrightarrow>
            inTextMode m (state (snd (run (p, r0) (js ''</'' @ n @ [c])))) \<and>
            markup (emitted (snd (run (p, r0) (js ''</'' @ n @ [c])))) = markup (emitted r0) \<and>
            pendingText (snd (run (p, r0) (js ''</'' @ n @ [c]))) =
              pendingText r0 @ js ''</'' @ n @
              (if c = LESS_THAN_SIGN then [] else [replaceNull c])) \<and>
         (inTextMode m (state (snd (run (p, r0) (js ''</'' @ [c])))) \<and>
          markup (emitted (snd (run (p, r0) (js ''</'' @ [c])))) = markup (emitted r0) \<and>
          pendingText (snd (run (p, r0) (js ''</'' @ [c]))) =
            pendingText r0 @ js ''</'' @ (if c = LESS_THAN_SIGN then [] else [replaceNull c])) \<and>
         (c \<noteq> SOLIDUS \<longrightarrow>
            inTextMode m (state (snd (run (p, r0) (js ''<'' @ [c])))) \<and>
            markup (emitted (snd (run (p, r0) (js ''<'' @ [c])))) = markup (emitted r0) \<and>
            pendingText (snd (run (p, r0) (js ''<'' @ [c]))) =
              pendingText r0 @ js ''<'' @ (if c = LESS_THAN_SIGN then [] else [replaceNull c])) \<and>
         (\<exists>ts us loc.
            tokenize mode l0 f0 (pre @ (js ''</'' @ n @ js ''>'') @ post) =
              ts @ EndTag (map toAsciiLower n) (Some loc) # us \<and>
            startOffset loc = length pre \<and> endOffset loc = length pre + length n + 3)"
proof -
  have a: "delivered (locationInfoTest d w SCRIPT_DATA (js ''script'') False
                      [js ''a<--d;</script><div>'']) =
           Some (tokenize SCRIPT_DATA (js ''script'') False (js ''a<--d;</script><div>''))"
    "delivered (locationInfoTest d w RAWTEXT (js ''script'') False
                      [js ''a<--d;</script><div>'']) =
           Some (tokenize SCRIPT_DATA (js ''script'') False (js ''a<--d;</script><div>''))"
    "delivered (locationInfoTest d w RCDATA (js ''script'') False
                      [js ''a<--d;</script><div>'']) =
           Some (tokenize SCRIPT_DATA (js ''script'') False (js ''a<--d;</script><div>''))"
    by (simp_all add: delivered_locationInfoTest tokenize_script_data tokenize_rawtext
        tokenize_rcdata)
  note b = tokenize_script_data
  note t = text_end_tag [OF assms(1,2), of m l f]
  note s = text_end_tag_name_step [OF assms(3,4,5), where pb = pb and pa = pa]
  note e = text_end_tag_name_eof [OF assms(3), where p = pe]
  note o = text_mode_left_only_by_end_tag [OF assms(6,7)]
  note u = candidate_end_tag_rule [OF assms(1,2,8,5), where p = p]
  note v = end_tag_anywhere [OF assms(1,2,9,10,11)]
  note x = candidate_without_name [OF assms(8,5), where p = p]
  show ?thesis
    by (intro conjI)
       (rule a b t s e u v x(2) x(1) [THEN conjunct1] x(1) [THEN conjunct2, THEN conjunct1]
          x(1) [THEN conjunct2, THEN conjunct2] o [THEN conjunct1]
          o [THEN conjunct2, THEN conjunct1] o [THEN conjunct2, THEN conjunct2])+
qed

theorem mode_exit_witness:
  "tokenize SCRIPT_DATA (js ''script'') False (js ''</'' @ js ''SCRIPT'' @ js ''>'') =
     [EndTag (js ''script'')
        (Some \<lparr>startOffset = 0, endOffset = 9, startLine = 1, startCol = 1,
                endLine = 1, endCol = 10\<rparr>),
      EndOfFile
        (Some \<lparr>startOffset = 9, endOffset = 9, startLine = 1, startCol = 10,
                endLine = 1, endCol = 10\<rparr>)] \<and>
   state (snd (consumeAll SCRIPT_DATA (js ''script'') False (js ''</'' @ js ''SCRIPT'' @ js ''>''))) =
     DATA \<and>
   state (callState ((initialRegisters True)
          \<lparr>state := TEXT_END_TAG_NAME IN_SCRIPT_DATA, lastStartTagName := js ''script'',
           currentToken := Some (TagToken True (js ''script'') [] False),
           tempBuff := js ''SCRIPT''\<rparr>)
      0x3E \<lparr>offset = 8, line = 1, col = 9\<rparr> \<lparr>offset = 9, line = 1, col = 10\<rparr>) = DATA \<and>
   emitted (callState ((initialRegisters True)
          \<lparr>state := TEXT_END_TAG_NAME IN_SCRIPT_DATA, lastStartTagName := js ''script'',
           currentToken := Some (TagToken True (js ''script'') [] False),
           tempBuff := js ''SCRIPT''\<rparr>)
      0x3E \<lparr>offset = 8, line = 1, col = 9\<rparr> \<lparr>offset = 9, line = 1, col = 10\<rparr>) =
     [EndTag (js ''script'')
        (Some \<lparr>startOffset = 0, endOffset = 9, startLine = 1, startCol = 1,
                endLine = 1, endCol = 10\<rparr>)] \<and>
   isAppropriateEndTag ((initialRegisters True)
          \<lparr>state := TEXT_END_TAG_NAME IN_SCRIPT_DATA, lastStartTagName := js ''script'',
           currentToken := Some (TagToken True (js ''script'') [] False),
           tempBuff := js ''SCRIPT''\<rparr>) \<and>
   (\<exists>ts us loc.
      tokenize SCRIPT_DATA (js ''script'') False
        (js ''a<--d;'' @ (js ''</'' @ js ''SCRIPT'' @ js ''>'') @ js ''<div>'') =
        ts @ EndTag (map toAsciiLower (js ''SCRIPT'')) (Some loc) # us \<and>
      startOffset loc = length (js ''a<--d;'') \<and>
      endOffset loc = length (js ''a<--d;'') + length (js ''SCRIPT'') + 3) \<and>
   tokenize SCRIPT_DATA (js ''script'') False (js ''</'' @ js ''scr'' @ js ''>'') =
     [Character REGULAR (js ''</scr>'')
        (Some \<lparr>startOffset = 0, endOffset = 6, startLine = 1, startCol = 1,
                endLine = 1, endCol = 7\<rparr>),
      EndOfFile
        (Some \<lparr>startOffset = 6, endOffset = 6, startLine = 1, startCol = 7,
                endLine = 1, endCol = 7\<rparr>)] \<and>
   state (snd (consumeAll SCRIPT_DATA (js ''script'') False (js ''</'' @ js ''scr'' @ js ''>''))) =
     SCRIPT_DATA \<and>
   inTextMode IN_SCRIPT_DATA
     (state (callState ((initialRegisters True)
          \<lparr>state := TEXT_END_TAG_NAME IN_SCRIPT_DATA, lastStartTagName := js ''script'',
           currentToken := Some (TagToken True (js ''scr'') [] False),
           tempBuff := js ''scr''\<rparr>)
        0x20 \<lparr>offset = 8, line = 1, col = 9\<rparr> \<lparr>offset = 9, line = 1, col = 10\<rparr>)) \<and>
   pendingText (callState ((initialRegisters True)
          \<lparr>state := TEXT_END_TAG_NAME IN_SCRIPT_DATA, lastStartTagName := js ''script'',
           currentToken := Some (TagToken True (js ''scr'') [] False),
           tempBuff := js ''scr''\<rparr>)
      0x20 \<lparr>offset = 8, line = 1, col = 9\<rparr> \<lparr>offset = 9, line = 1, col = 10\<rparr>) = js ''</scr '' \<and>
   inTextMode IN_SCRIPT_DATA
     (state (snd (run (\<lparr>offset = 0, line = 1, col = 1\<rparr>, ((initialRegisters True)\<lparr>state := SCRIPT_DATA, lastStartTagName := js ''script''\<rparr>))
        (js ''</'' @ js ''scr'' @ [0x20])))) \<and>
   pendingText (snd (run (\<lparr>offset = 0, line = 1, col = 1\<rparr>, ((initialRegisters True)\<lparr>state := SCRIPT_DATA, lastStartTagName := js ''script''\<rparr>))
      (js ''</'' @ js ''scr'' @ [0x20]))) = js ''</scr '' \<and>
   pendingText (snd (run (\<lparr>offset = 0, line = 1, col = 1\<rparr>, ((initialRegisters True)\<lparr>state := SCRIPT_DATA, lastStartTagName := js ''script''\<rparr>))
      (js ''<'' @ [0x20]))) = js ''< ''"
proof -
  have hA: "\<forall>c\<in>set (js ''SCRIPT''). isAsciiLetter c" "js ''SCRIPT'' \<noteq> []"
    "state ((initialRegisters True)
          \<lparr>state := TEXT_END_TAG_NAME IN_SCRIPT_DATA, lastStartTagName := js ''script'',
           currentToken := Some (TagToken True (js ''script'') [] False),
           tempBuff := js ''SCRIPT''\<rparr>) = TEXT_END_TAG_NAME IN_SCRIPT_DATA"
    "currentToken ((initialRegisters True)
          \<lparr>state := TEXT_END_TAG_NAME IN_SCRIPT_DATA, lastStartTagName := js ''script'',
           currentToken := Some (TagToken True (js ''script'') [] False),
           tempBuff := js ''SCRIPT''\<rparr>) = Some (TagToken True (js ''script'') [] False)"
    "\<not> isAsciiLetter 0x3E"
    "inTextMode IN_SCRIPT_DATA (state ((initialRegisters True)
          \<lparr>state := TEXT_END_TAG_NAME IN_SCRIPT_DATA, lastStartTagName := js ''script'',
           currentToken := Some (TagToken True (js ''script'') [] False),
           tempBuff := js ''SCRIPT''\<rparr>))"
    "\<not> inTextMode IN_SCRIPT_DATA (state (callState ((initialRegisters True)
          \<lparr>state := TEXT_END_TAG_NAME IN_SCRIPT_DATA, lastStartTagName := js ''script'',
           currentToken := Some (TagToken True (js ''script'') [] False),
           tempBuff := js ''SCRIPT''\<rparr>)
        0x3E \<lparr>offset = 8, line = 1, col = 9\<rparr> \<lparr>offset = 9, line = 1, col = 10\<rparr>))"
    "state ((initialRegisters True)\<lparr>state := SCRIPT_DATA, lastStartTagName := js ''script''\<rparr>) = modeState IN_SCRIPT_DATA"
    "CR \<notin> set (js ''a<--d;'' @ js ''<div>'')"
    "state (snd (consumeAll SCRIPT_DATA (js ''script'') False (js ''a<--d;''))) =
       modeState IN_SCRIPT_DATA"
    "map toAsciiLower (js ''SCRIPT'') =
       map toAsciiLower
         (lastStartTagName (snd (consumeAll SCRIPT_DATA (js ''script'') False (js ''a<--d;''))))"
    by code_simp+
  have hB: "\<forall>c\<in>set (js ''scr''). isAsciiLetter c" "js ''scr'' \<noteq> []"
    "state ((initialRegisters True)
          \<lparr>state := TEXT_END_TAG_NAME IN_SCRIPT_DATA, lastStartTagName := js ''script'',
           currentToken := Some (TagToken True (js ''scr'') [] False),
           tempBuff := js ''scr''\<rparr>) = TEXT_END_TAG_NAME IN_SCRIPT_DATA"
    "currentToken ((initialRegisters True)
          \<lparr>state := TEXT_END_TAG_NAME IN_SCRIPT_DATA, lastStartTagName := js ''script'',
           currentToken := Some (TagToken True (js ''scr'') [] False),
           tempBuff := js ''scr''\<rparr>) = Some (TagToken True (js ''scr'') [] False)"
    "\<not> isAsciiLetter 0x20"
    "state (snd (consumeAll SCRIPT_DATA (js ''scr'') False (js ''a<--d;''))) =
       modeState IN_SCRIPT_DATA"
    "map toAsciiLower (js ''scr'') =
       map toAsciiLower
         (lastStartTagName (snd (consumeAll SCRIPT_DATA (js ''scr'') False (js ''a<--d;''))))"
    by code_simp+
  note tA = mode_exit [OF hA, where l = "js ''script''" and f = False and d = 0 and w = 8
      and p = "\<lparr>offset = 0, line = 1, col = 1\<rparr>"
      and pe = "\<lparr>offset = 9, line = 1, col = 10\<rparr>"]
  note tB = mode_exit [OF hB(1-5) hA(6-9) hB(6,7), where l = "js ''script''" and f = False and d = 0 and w = 8
      and p = "\<lparr>offset = 0, line = 1, col = 1\<rparr>"
      and pe = "\<lparr>offset = 9, line = 1, col = 10\<rparr>"]
  have w1: "tokenize SCRIPT_DATA (js ''script'') False (js ''</'' @ js ''SCRIPT'' @ js ''>'') =
     [EndTag (js ''script'')
        (Some \<lparr>startOffset = 0, endOffset = 9, startLine = 1, startCol = 1,
                endLine = 1, endCol = 10\<rparr>),
      EndOfFile
        (Some \<lparr>startOffset = 9, endOffset = 9, startLine = 1, startCol = 10,
                endLine = 1, endCol = 10\<rparr>)]"
    using tA by (elim conjE) (simp add: js_def toAsciiLower_def isAsciiUpper_def)
  have w2: "state (snd (consumeAll SCRIPT_DATA (js ''script'') False (js ''</'' @ js ''SCRIPT'' @ js ''>''))) =
     DATA"
    using tA by (elim conjE) (simp add: js_def toAsciiLower_def isAsciiUpper_def)
  have w3: "state (callState ((initialRegisters True)
          \<lparr>state := TEXT_END_TAG_NAME IN_SCRIPT_DATA, lastStartTagName := js ''script'',
           currentToken := Some (TagToken True (js ''script'') [] False),
           tempBuff := js ''SCRIPT''\<rparr>)
      0x3E \<lparr>offset = 8, line = 1, col = 9\<rparr> \<lparr>offset = 9, line = 1, col = 10\<rparr>) = DATA"
    using tA by (elim conjE) (simp add: initialRegisters_def js_def toAsciiLower_def isAsciiUpper_def)
  have w4: "emitted (callState ((initialRegisters True)
          \<lparr>state := TEXT_END_TAG_NAME IN_SCRIPT_DATA, lastStartTagName := js ''script'',
           currentToken := Some (TagToken True (js ''script'') [] False),
           tempBuff := js ''SCRIPT''\<rparr>)
      0x3E \<lparr>offset = 8, line = 1, col = 9\<rparr> \<lparr>offset = 9, line = 1, col = 10\<rparr>) =
     [EndTag (js ''script'')
        (Some \<lparr>startOffset = 0, endOffset = 9, startLine = 1, startCol = 1,
                endLine = 1, endCol = 10\<rparr>)]"
    using tA by (elim conjE) (simp add: initialRegisters_def js_def toAsciiLower_def isAsciiUpper_def emitCurrentCharacterToken_def getLocation_def)
  have w5: "isAppropriateEndTag ((initialRegisters True)
          \<lparr>state := TEXT_END_TAG_NAME IN_SCRIPT_DATA, lastStartTagName := js ''script'',
           currentToken := Some (TagToken True (js ''script'') [] False),
           tempBuff := js ''SCRIPT''\<rparr>)"
    using tA by (elim conjE) assumption
  have w6: "(\<exists>ts us loc.
      tokenize SCRIPT_DATA (js ''script'') False
        (js ''a<--d;'' @ (js ''</'' @ js ''SCRIPT'' @ js ''>'') @ js ''<div>'') =
        ts @ EndTag (map toAsciiLower (js ''SCRIPT'')) (Some loc) # us \<and>
      startOffset loc = length (js ''a<--d;'') \<and>
      endOffset loc = length (js ''a<--d;'') + length (js ''SCRIPT'') + 3)"
    using tA by (elim conjE) assumption
  have w7: "tokenize SCRIPT_DATA (js ''script'') False (js ''</'' @ js ''scr'' @ js ''>'') =
     [Character REGULAR (js ''</scr>'')
        (Some \<lparr>startOffset = 0, endOffset = 6, startLine = 1, startCol = 1,
                endLine = 1, endCol = 7\<rparr>),
      EndOfFile
        (Some \<lparr>startOffset = 6, endOffset = 6, startLine = 1, startCol = 7,
                endLine = 1, endCol = 7\<rparr>)]"
    using tB by (elim conjE) (simp add: js_def toAsciiLower_def isAsciiUpper_def)
  have w8: "state (snd (consumeAll SCRIPT_DATA (js ''script'') False (js ''</'' @ js ''scr'' @ js ''>''))) =
     SCRIPT_DATA"
    using tB by (elim conjE) (simp add: js_def toAsciiLower_def isAsciiUpper_def)
  have w9: "inTextMode IN_SCRIPT_DATA
     (state (callState ((initialRegisters True)
          \<lparr>state := TEXT_END_TAG_NAME IN_SCRIPT_DATA, lastStartTagName := js ''script'',
           currentToken := Some (TagToken True (js ''scr'') [] False),
           tempBuff := js ''scr''\<rparr>)
        0x20 \<lparr>offset = 8, line = 1, col = 9\<rparr> \<lparr>offset = 9, line = 1, col = 10\<rparr>))"
    using tB by (elim conjE) (simp add: initialRegisters_def js_def toAsciiLower_def isAsciiUpper_def isWhitespace_def)
  have w10: "pendingText (callState ((initialRegisters True)
          \<lparr>state := TEXT_END_TAG_NAME IN_SCRIPT_DATA, lastStartTagName := js ''script'',
           currentToken := Some (TagToken True (js ''scr'') [] False),
           tempBuff := js ''scr''\<rparr>)
      0x20 \<lparr>offset = 8, line = 1, col = 9\<rparr> \<lparr>offset = 9, line = 1, col = 10\<rparr>) = js ''</scr ''"
    using tB by (elim conjE) (simp add: initialRegisters_def js_def toAsciiLower_def isAsciiUpper_def isWhitespace_def pendingText_def characterData_def replaceNull_def)
  have w11: "inTextMode IN_SCRIPT_DATA
     (state (snd (run (\<lparr>offset = 0, line = 1, col = 1\<rparr>, ((initialRegisters True)\<lparr>state := SCRIPT_DATA, lastStartTagName := js ''script''\<rparr>))
        (js ''</'' @ js ''scr'' @ [0x20]))))"
    using tB by (elim conjE) (simp add: initialRegisters_def js_def toAsciiLower_def isAsciiUpper_def isWhitespace_def)
  have w12: "pendingText (snd (run (\<lparr>offset = 0, line = 1, col = 1\<rparr>, ((initialRegisters True)\<lparr>state := SCRIPT_DATA, lastStartTagName := js ''script''\<rparr>))
      (js ''</'' @ js ''scr'' @ [0x20]))) = js ''</scr ''"
    using tB by (elim conjE) (simp add: initialRegisters_def js_def toAsciiLower_def isAsciiUpper_def isWhitespace_def pendingText_def characterData_def replaceNull_def)
  have w13: "pendingText (snd (run (\<lparr>offset = 0, line = 1, col = 1\<rparr>, ((initialRegisters True)\<lparr>state := SCRIPT_DATA, lastStartTagName := js ''script''\<rparr>))
      (js ''<'' @ [0x20]))) = js ''< '' "
    using tB by (elim conjE) (simp add: initialRegisters_def js_def toAsciiLower_def isAsciiUpper_def isWhitespace_def pendingText_def characterData_def replaceNull_def)
  show ?thesis
    by (intro conjI) (rule w1 w2 w3 w4 w5 w6 w7 w8 w9 w10 w11 w12 w13)+
qed

subsection \<open>The location test passes\<close>

lemma location_test_case_1:
  "handlerRun (concat testCase1) testCase1 0 (tokenize DATA [] False (concat testCase1))"
  by code_simp

lemma location_test_case_2:
  "handlerRun (concat testCase2) testCase2 0
     (tokenize RCDATA (js ''title'') False (concat testCase2))"
  by code_simp

lemma location_test_case_3:
  "handlerRun (concat testCase3) testCase3 0
     (tokenize RAWTEXT (js ''style'') False (concat testCase3))"
  by code_simp

lemma location_test_case_4:
  "handlerRun (concat testCase4) testCase4 0
     (tokenize SCRIPT_DATA (js ''script'') False (concat testCase4))"
  by code_simp

lemma location_test_case_5:
  "handlerRun (concat testCase5) testCase5 0
     (tokenize PLAINTEXT (js ''plaintext'') False (concat testCase5))"
  by code_simp

lemma location_test_case_6:
  "handlerRun (concat testCase6) testCase6 0 (tokenize DATA [] False (concat testCase6))"
  by code_simp

lemma location_test_case_7:
  "handlerRun (concat testCase7) testCase7 0 (tokenize DATA [] True (concat testCase7))"
  by code_simp

text \<open>
  The location test of the sources passes on the model: in each of its seven rounds,
  with the waterline 8 of the test and whatever waterline the tokenizer is created with,
  the loop ends and every assertion of the handler on offsets holds.
\<close>

lemma location_test_passes:
  "\<exists>tk. locationInfoTest d 8 DATA [] False testCase1 = Some tk \<and>
        handlerRun (concat testCase1) testCase1 0 (emitted (registers tk))"
  "\<exists>tk. locationInfoTest d 8 RCDATA (js ''title'') False testCase2 = Some tk \<and>
        handlerRun (concat testCase2) testCase2 0 (emitted (registers tk))"
  "\<exists>tk. locationInfoTest d 8 RAWTEXT (js ''style'') False testCase3 = Some tk \<and>
        handlerRun (concat testCase3) testCase3 0 (emitted (registers tk))"
  "\<exists>tk. locationInfoTest d 8 SCRIPT_DATA (js ''script'') False testCase4 = Some tk \<and>
        handlerRun (concat testCase4) testCase4 0 (emitted (registers tk))"
  "\<exists>tk. locationInfoTest d 8 PLAINTEXT (js ''plaintext'') False testCase5 = Some tk \<and>
        handlerRun (concat testCase5) testCase5 0 (emitted (registers tk))"
  "\<exists>tk. locationInfoTest d 8 DATA [] False testCase6 = Some tk \<and>
        handlerRun (concat testCase6) testCase6 0 (emitted (registers tk))"
  "\<exists>tk. locationInfoTest d 8 DATA [] True testCase7 = Some tk \<and>
        handlerRun (concat testCase7) testCase7 0 (emitted (registers tk))"
proof -
  have ne: "testCase1 \<noteq> []" "testCase2 \<noteq> []" "testCase3 \<noteq> []" "testCase4 \<noteq> []"
    "testCase5 \<noteq> []" "testCase6 \<noteq> []" "testCase7 \<noteq> []"
    by (simp_all add: testCase1_def testCase2_def testCase3_def testCase4_def testCase5_def
        testCase6_def testCase7_def)
  show "\<exists>tk. locationInfoTest d 8 DATA [] False testCase1 = Some tk \<and>
        handlerRun (concat testCase1) testCase1 0 (emitted (registers tk))"
    using locationInfoTest_tokenize [OF ne(1), of d 8 DATA "[]" False] location_test_case_1
    by auto
  show "\<exists>tk. locationInfoTest d 8 RCDATA (js ''title'') False testCase2 = Some tk \<and>
        handlerRun (concat testCase2) testCase2 0 (emitted (registers tk))"
    using locationInfoTest_tokenize [OF ne(2), of d 8 RCDATA "js ''title''" False]
      location_test_case_2
    by auto
  show "\<exists>tk. locationInfoTest d 8 RAWTEXT (js ''style'') False testCase3 = Some tk \<and>
        handlerRun (concat testCase3) testCase3 0 (emitted (registers tk))"
    using locationInfoTest_tokenize [OF ne(3), of d 8 RAWTEXT "js ''style''" False]
      location_test_case_3
    by auto
  show "\<exists>tk. locationInfoTest d 8 SCRIPT_DATA (js ''script'') False testCase4 = Some tk \<and>
        handlerRun (concat testCase4) testCase4 0 (emitted (registers tk))"
    using locationInfoTest_tokenize [OF ne(4), of d 8 SCRIPT_DATA "js ''script''" False]
      location_test_case_4
    by auto
  show "\<exists>tk. locationInfoTest d 8 PLAINTEXT (js ''plaintext'') False testCase5 = Some tk \<and>
        handlerRun (concat testCase5) testCase5 0 (emitted (registers tk))"
    using locationInfoTest_tokenize [OF ne(5), of d 8 PLAINTEXT "js ''plaintext''" False]
      location_test_case_5
    by auto
  show "\<exists>tk. locationInfoTest d 8 DATA [] False testCase6 = Some tk \<and>
        handlerRun (concat testCase6) testCase6 0 (emitted (registers tk))"
    using locationInfoTest_tokenize [OF ne(6), of d 8 DATA "[]" False] location_test_case_6
    by auto
  show "\<exists>tk. locationInfoTest d 8 DATA [] True testCase7 = Some tk \<and>
        handlerRun (concat testCase7) testCase7 0 (emitted (registers tk))"
    using locationInfoTest_tokenize [OF ne(7), of d 8 DATA "[]" True] location_test_case_7
    by auto
qed

end
